(* ===== verification/Kens_Prelude.thy ===== *)
theory Kens_Prelude
  imports Main "HOL-Library.Word"
begin

text \<open>
  Shared vocabulary of the KENSv3 development: the integer types of
  \<^verbatim>\<open>include/E/E_Common.hpp\<close> at their widths, the ways the C++ code can stop
  (a failed \<^verbatim>\<open>assert\<close>, an access outside an object, the use of a value that was
  never written, a null pointer, an empty \<^verbatim>\<open>std::optional\<close>, a wrong alternative
  of a \<^verbatim>\<open>std::variant\<close> or \<^verbatim>\<open>std::any\<close>) as values of a sum type, sequencing of
  such computations, and the generic facts on lists, words and results that the
  component theories use.
\<close>

section \<open>Integer types\<close>

type_synonym u8 = "8 word"
type_synonym u16 = "16 word"
type_synonym u32 = "32 word"
type_synonym u64 = "64 word"

text \<open>\<^verbatim>\<open>Time\<close>, \<^verbatim>\<open>UUID\<close>, \<^verbatim>\<open>Size\<close> and \<^verbatim>\<open>ModuleID\<close> are 64-bit unsigned on the
  platforms the build supports; \<^verbatim>\<open>int\<close> is signed and is an HOL \<open>int\<close> here, with
  every place where the code narrows it written out.\<close>

type_synonym Time = u64
type_synonym UUID = u64
type_synonym Size = u64
type_synonym ModuleID = u64

text \<open>\<^verbatim>\<open>ipv4_t\<close> and \<^verbatim>\<open>mac_t\<close> are \<^verbatim>\<open>std::array<uint8_t, 4>\<close> and
  \<^verbatim>\<open>std::array<uint8_t, 6>\<close>: byte lists of that length.\<close>

type_synonym bytes = "u8 list"
type_synonym ipv4_t = bytes
type_synonym mac_t = bytes

section \<open>Results of code that can stop\<close>

datatype err =
    AssertFail       \<comment> \<open>an \<^verbatim>\<open>assert\<close> does not hold\<close>
  | OutOfBounds      \<comment> \<open>access outside an array, vector or buffer\<close>
  | Uninitialised    \<comment> \<open>use of a local that no statement has written\<close>
  | NullDeref        \<comment> \<open>member call through an empty \<^verbatim>\<open>shared_ptr\<close>\<close>
  | BadOptional      \<comment> \<open>\<^verbatim>\<open>value()\<close> of an empty \<^verbatim>\<open>std::optional\<close>\<close>
  | BadCast          \<comment> \<open>\<^verbatim>\<open>dynamic_cast\<close>, \<^verbatim>\<open>std::get\<close> or \<^verbatim>\<open>any_cast\<close> to another type\<close>
  | OutOfRange       \<comment> \<open>conversion of a \<^verbatim>\<open>double\<close> that does not fit its target\<close>
  | NoReturn         \<comment> \<open>a call that has not returned within the fuel given to it\<close>

type_synonym 'a result = "err + 'a"

definition bindE :: "'a result \<Rightarrow> ('a \<Rightarrow> 'b result) \<Rightarrow> 'b result" where
  "bindE m f = (case m of Inl e \<Rightarrow> Inl e | Inr x \<Rightarrow> f x)"

definition assertE :: "bool \<Rightarrow> unit result" where
  "assertE b = (if b then Inr () else Inl AssertFail)"

text \<open>A range-based \<^verbatim>\<open>for\<close> loop whose body may stop the program.\<close>

fun foldE :: "('a \<Rightarrow> 's \<Rightarrow> 's result) \<Rightarrow> 'a list \<Rightarrow> 's \<Rightarrow> 's result" where
  "foldE f [] s = Inr s"
| "foldE f (x # xs) s = bindE (f x s) (foldE f xs)"

text \<open>\<^verbatim>\<open>xs[i]\<close> on an array or vector.\<close>

definition indexE :: "'a list \<Rightarrow> nat \<Rightarrow> 'a result" where
  "indexE xs i = (if i < length xs then Inr (xs ! i) else Inl OutOfBounds)"

definition is_ok :: "'a result \<Rightarrow> bool" where
  "is_ok r = (case r of Inl _ \<Rightarrow> False | Inr _ \<Rightarrow> True)"

section \<open>Collections of rewrite rules\<close>

named_theorems result_simps \<open>sequencing of results\<close>
named_theorems bytes_simps \<open>reads and writes of byte buffers\<close>

lemma bindE_Inl [simp]: "bindE (Inl e) f = Inl e"
  by (simp add: bindE_def)

lemma bindE_Inr [simp]: "bindE (Inr x) f = f x"
  by (simp add: bindE_def)

lemma bindE_eq_Inr_iff [result_simps]:
  "bindE m f = Inr y \<longleftrightarrow> (\<exists>x. m = Inr x \<and> f x = Inr y)"
  by (cases m) auto

lemma bindE_eq_Inl_iff:
  "bindE m f = Inl e \<longleftrightarrow> m = Inl e \<or> (\<exists>x. m = Inr x \<and> f x = Inl e)"
  by (cases m) auto

lemma bindE_assoc: "bindE (bindE m f) g = bindE m (\<lambda>x. bindE (f x) g)"
  by (cases m) auto

lemma assertE_True [simp]: "assertE True = Inr ()"
  by (simp add: assertE_def)

lemma assertE_False [simp]: "assertE False = Inl AssertFail"
  by (simp add: assertE_def)

lemma assertE_eq_Inr [simp]: "assertE b = Inr x \<longleftrightarrow> b"
  by (cases b) auto

lemma assertE_eq_Inl [simp]: "assertE b = Inl e \<longleftrightarrow> \<not> b \<and> e = AssertFail"
  by (cases b) auto

lemma is_ok_simps [simp]: "is_ok (Inr x)" "\<not> is_ok (Inl e)"
  by (simp_all add: is_ok_def)

lemma is_ok_iff: "is_ok r \<longleftrightarrow> (\<exists>x. r = Inr x)"
  by (cases r) auto

lemma indexE_ok [simp]: "i < length xs \<Longrightarrow> indexE xs i = Inr (xs ! i)"
  by (simp add: indexE_def)

lemma foldE_append: "foldE f (xs @ ys) s = bindE (foldE f xs s) (foldE f ys)"
  by (induction xs arbitrary: s) (auto simp: bindE_assoc bindE_def split: sum.splits)

text \<open>A loop keeps an invariant its body keeps, when the body never stops under it.\<close>

lemma foldE_invariant:
  assumes "P s"
    and "\<And>x s. x \<in> set xs \<Longrightarrow> P s \<Longrightarrow> \<exists>s'. f x s = Inr s' \<and> P s'"
  shows "\<exists>s'. foldE f xs s = Inr s' \<and> P s'"
  using assms
proof (induction xs arbitrary: s)
  case Nil
  then show ?case by simp
next
  case (Cons x xs)
  from Cons.prems obtain s1 where s1: "f x s = Inr s1" "P s1"
    by fastforce
  from Cons.IH [OF s1(2)] Cons.prems(2) have "\<exists>s'. foldE f xs s1 = Inr s' \<and> P s'"
    by simp
  with s1 show ?case by simp
qed

lemma foldE_preserves:
  assumes "foldE f xs s = Inr s'" and "P s"
    and "\<And>x s s'. x \<in> set xs \<Longrightarrow> P s \<Longrightarrow> f x s = Inr s' \<Longrightarrow> P s'"
  shows "P s'"
  using assms
proof (induction xs arbitrary: s)
  case Nil
  then show ?case by simp
next
  case (Cons x xs)
  from Cons.prems(1) obtain s1 where s1: "f x s = Inr s1" "foldE f xs s1 = Inr s'"
    by (auto simp: result_simps)
  from Cons.prems(3) [OF _ Cons.prems(2) s1(1)] have "P s1" by simp
  then show ?case
    using Cons.IH [OF s1(2)] Cons.prems(3) by (metis list.set_intros(2))
qed

section \<open>Words\<close>

text \<open>Addition and subtraction read as numbers, when they do not wrap.\<close>

lemma unat_plus_no_wrap:
  fixes a b :: "'a::len word"
  shows "unat a + unat b < 2 ^ LENGTH('a) \<Longrightarrow> unat (a + b) = unat a + unat b"
  by (simp add: unat_word_ariths)

lemma unat_minus_le:
  fixes a b :: "'a::len word"
  shows "b \<le> a \<Longrightarrow> unat (a - b) = unat a - unat b"
  by (simp add: unat_sub)

lemma unat_less_u64: "unat (x :: u64) < 18446744073709551616"
  using unsigned_less [of x] by simp

lemma unat_less_u32: "unat (x :: u32) < 4294967296"
  using unsigned_less [of x] by simp

lemma unat_less_u16: "unat (x :: u16) < 65536"
  using unsigned_less [of x] by simp

lemma unat_less_u8: "unat (x :: u8) < 256"
  using unsigned_less [of x] by simp

section \<open>Lists\<close>

text \<open>\<open>overwrite off new xs\<close>: the bytes \<open>new\<close> copied over \<open>xs\<close> from offset \<open>off\<close> on,
  where they fit.\<close>

definition overwrite :: "nat \<Rightarrow> 'a list \<Rightarrow> 'a list \<Rightarrow> 'a list" where
  "overwrite off new xs = take off xs @ new @ drop (off + length new) xs"

lemma length_overwrite [simp, bytes_simps]:
  "off + length new \<le> length xs \<Longrightarrow> length (overwrite off new xs) = length xs"
  by (simp add: overwrite_def)

lemma nth_overwrite [bytes_simps]:
  assumes "off + length new \<le> length xs" and "i < length xs"
  shows "overwrite off new xs ! i
     = (if off \<le> i \<and> i < off + length new then new ! (i - off) else xs ! i)"
  using assms by (auto simp: overwrite_def nth_append)

lemma take_drop_overwrite_same [simp, bytes_simps]:
  "off + length new \<le> length xs \<Longrightarrow> take (length new) (drop off (overwrite off new xs)) = new"
  by (simp add: overwrite_def)

lemma take_drop_overwrite_other:
  assumes "off + length new \<le> length xs" and "a + n \<le> off \<or> off + length new \<le> a"
  shows "take n (drop a (overwrite off new xs)) = take n (drop a xs)"
proof (rule nth_equalityI)
  show len: "length (take n (drop a (overwrite off new xs))) = length (take n (drop a xs))"
    using assms(1) by simp
  fix i assume i: "i < length (take n (drop a (overwrite off new xs)))"
  then have "a + i < length xs" "i < n" using assms(1) by auto
  with assms show "take n (drop a (overwrite off new xs)) ! i = take n (drop a xs) ! i"
    by (auto simp: nth_overwrite)
qed

section \<open>Probing for an unused identifier\<close>

text \<open>The loop \<^verbatim>\<open>do { if (unused) return c; c++; } while (c != start);\<close> that the packet UUIDs
  and the system call identifiers share: \<open>None\<close> when the probe comes back to its start.\<close>

function first_free :: "u64 set \<Rightarrow> u64 \<Rightarrow> u64 \<Rightarrow> u64 option" where
  "first_free used start c =
     (if c \<notin> used then Some c
      else if c + 1 \<noteq> start then first_free used start (c + 1)
      else None)"
  by pat_completeness auto

lemma unat_minus_one_less: "(x :: u64) \<noteq> 0 \<Longrightarrow> unat (x - 1) < unat x"
  by (simp add: unat_minus_one unat_gt_0)

termination first_free
proof (relation "measure (\<lambda>(used, start, c). unat (start - (c + 1)))")
  fix used :: "u64 set" and start c :: u64
  assume "c + 1 \<noteq> start"
  then have "unat (start - (c + 1) - 1) < unat (start - (c + 1))"
    by (intro unat_minus_one_less) simp
  then show "((used, start, c + 1), (used, start, c)) \<in> measure (\<lambda>(used, start, c). unat (start - (c + 1)))"
    by (simp add: diff_diff_eq)
qed simp

declare first_free.simps [simp del]

lemma first_free_unused: "first_free used start c = Some x \<Longrightarrow> x \<notin> used"
proof (induction used start c rule: first_free.induct)
  case (1 used start c)
  show ?case
  proof (cases "c \<in> used \<and> c + 1 \<noteq> start")
    case True
    with 1 show ?thesis by (simp add: first_free.simps [of used start c])
  next
    case False
    with 1 show ?thesis by (auto simp: first_free.simps [of used start c] split: if_splits)
  qed
qed

lemma first_free_hit [simp]: "c \<notin> used \<Longrightarrow> first_free used start c = Some c"
  by (simp add: first_free.simps)

lemma first_free_None:
  "first_free used start c = None \<Longrightarrow> k \<le> unat (start - (c + 1)) \<Longrightarrow> c + of_nat k \<in> used"
proof (induction used start c arbitrary: k rule: first_free.induct)
  case (1 used start c)
  from "1.prems"(1) have c: "c \<in> used"
    by (auto simp: first_free.simps [of used start c] split: if_splits)
  show ?case
  proof (cases "k = 0 \<or> c + 1 = start")
    case True
    with c "1.prems"(2) show ?thesis by auto
  next
    case False
    then obtain j where k: "k = Suc j" by (cases k) auto
    from False c "1.prems"(1) have rec: "first_free used start (c + 1) = None"
      by (simp add: first_free.simps [of used start c])
    have "start - (c + 1) \<noteq> 0" using False by auto
    from unat_minus_one [OF this] have "j \<le> unat (start - (c + 1 + 1))"
      using "1.prems"(2) k by (simp add: diff_diff_eq)
    with "1.IH" rec c False have "c + 1 + of_nat j \<in> used" by simp
    then show ?thesis by (simp add: k add.commute add.left_commute)
  qed
qed

text \<open>A probe started at \<open>start\<close> fails only when all \<open>2 ^ 64\<close> identifiers are in use.\<close>

lemma first_free_exhausted: "first_free used start start = None \<longleftrightarrow> used = UNIV"
proof
  assume none: "first_free used start start = None"
  show "used = UNIV"
  proof (intro set_eqI iffI UNIV_I)
    fix x :: u64
    have "unat (x - start) \<le> unat (start - (start + 1))"
      using word_n1_ge [of "x - start"] by (simp add: word_le_nat_alt)
    from first_free_None [OF none this] show "x \<in> used" by simp
  qed
next
  assume "used = UNIV"
  then show "first_free used start start = None"
    using first_free_unused [of used start start] by (cases "first_free used start start") auto
qed

section \<open>Searching lists, small numbers as words\<close>

lemma of_nat_eq_u64: "a < 2 ^ 64 \<Longrightarrow> b < 2 ^ 64 \<Longrightarrow> (of_nat a :: u64) = of_nat b \<longleftrightarrow> a = b"
  by (auto dest!: arg_cong [where f = unat] simp: unsigned_of_nat take_bit_eq_mod)

lemma find_append: "find P (xs @ ys) = (case find P xs of None \<Rightarrow> find P ys | Some x \<Rightarrow> Some x)"
  by (induction xs) simp_all

lemma find_unique:
  assumes "x \<in> set xs" and "P x" and "\<And>y. y \<in> set xs \<Longrightarrow> P y \<Longrightarrow> y = x"
  shows "find P xs = Some x"
proof -
  obtain y where "find P xs = Some y" using assms(1,2) by (cases "find P xs") (auto simp: find_None_iff)
  moreover from this have "y \<in> set xs" "P y" by (auto simp: find_Some_iff)
  ultimately show ?thesis using assms(3) by simp
qed

lemma filter_unique: "distinct xs \<Longrightarrow> x \<in> set xs \<Longrightarrow> (\<And>y. y \<in> set xs \<Longrightarrow> P y \<longleftrightarrow> y = x) \<Longrightarrow> filter P xs = [x]"
proof (induction xs)
  case (Cons a xs)
  then show ?case by (cases "a = x") (auto simp: filter_empty_conv)
qed simp

lemma of_nat_eq_u8:
  assumes "i < 256" and "j < 256"
  shows "(of_nat i :: u8) = of_nat j \<longleftrightarrow> i = j"
proof -
  have "unat (of_nat k :: u8) = k" if "k < 256" for k using that by (simp add: unsigned_of_nat take_bit_eq_mod)
  with assms show ?thesis by metis
qed

end
