(* ===== verification/Time_Util.thy ===== *)
theory Time_Util
  imports Kens_Prelude
begin

text \<open>
  \<^verbatim>\<open>E::TimeUtil\<close> (\<^verbatim>\<open>src/E/E_TimeUtil.cpp\<close>): time units, their names, and the
  conversion between a count of units and the nanoseconds of \<^verbatim>\<open>Time\<close>.
  Multiplication and division are those of 64-bit unsigned integers.
\<close>

section \<open>Definitions\<close>

datatype TimeUnit = NSEC | USEC | MSEC | SEC | MINUTE | HOUR | DAY | NONE

definition stringToTimeUnit :: "string \<Rightarrow> TimeUnit result" where
  "stringToTimeUnit u =
     (if u = ''nsec'' \<or> u = ''NSEC'' then Inr NSEC
      else if u = ''usec'' \<or> u = ''USEC'' then Inr USEC
      else if u = ''msec'' \<or> u = ''MSEC'' then Inr MSEC
      else if u = ''sec'' \<or> u = ''SEC'' then Inr SEC
      else if u = ''minute'' \<or> u = ''MINUTE'' then Inr MINUTE
      else if u = ''hour'' \<or> u = ''HOUR'' then Inr HOUR
      else if u = ''day'' \<or> u = ''DAY'' then Inr DAY
      else Inl AssertFail)"

fun timeUnitToString :: "TimeUnit \<Rightarrow> string result" where
  "timeUnitToString NSEC = Inr ''NSEC''"
| "timeUnitToString USEC = Inr ''USEC''"
| "timeUnitToString MSEC = Inr ''MSEC''"
| "timeUnitToString SEC = Inr ''SEC''"
| "timeUnitToString MINUTE = Inr ''MINUTE''"
| "timeUnitToString HOUR = Inr ''HOUR''"
| "timeUnitToString DAY = Inr ''DAY''"
| "timeUnitToString NONE = Inl AssertFail"

text \<open>The \<^verbatim>\<open>switch\<close> falls through: control enters at the label of the unit and runs every
  multiplication after it. The labels are listed in the order of the source; \<^verbatim>\<open>NSEC\<close> and
  \<^verbatim>\<open>default\<close> multiply by nothing.\<close>

definition multiplier_labels :: "(TimeUnit \<times> Size) list" where
  "multiplier_labels =
     [(DAY, 24), (HOUR, 60), (MINUTE, 60), (SEC, 1000), (MSEC, 1000), (USEC, 1000)]"

definition getMultiplier :: "TimeUnit \<Rightarrow> Size" where
  "getMultiplier u = foldl (*) 1 (map snd (dropWhile (\<lambda>(l, _). l \<noteq> u) multiplier_labels))"

definition makeTime :: "Size \<Rightarrow> TimeUnit \<Rightarrow> Time" where
  "makeTime t u = t * getMultiplier u"

definition getTime :: "Time \<Rightarrow> TimeUnit \<Rightarrow> Size" where
  "getTime t u = t div getMultiplier u"

text \<open>\<^verbatim>\<open>printTime\<close> prints the quotient with \<^verbatim>\<open>PRIu64\<close>: decimal digits, no leading zero.\<close>

fun print_u64 :: "nat \<Rightarrow> string" where
  "print_u64 n =
     (if n < 10 then [char_of (48 + n)] else print_u64 (n div 10) @ [char_of (48 + n mod 10)])"

declare print_u64.simps [simp del]

definition printTime :: "Time \<Rightarrow> TimeUnit \<Rightarrow> string" where
  "printTime t u = print_u64 (unat (t div getMultiplier u))"

text \<open>The reader a user of the printed string applies: \<^verbatim>\<open>strtoull\<close> on decimal digits.\<close>

definition parse_dec :: "string \<Rightarrow> nat" where
  "parse_dec s = foldl (\<lambda>n c. 10 * n + (of_char c - 48)) 0 s"

section \<open>Lemmas\<close>

lemma getMultiplier_unat:
  "unat (getMultiplier u) =
    (case u of NSEC \<Rightarrow> 1 | USEC \<Rightarrow> 10 ^ 3 | MSEC \<Rightarrow> 10 ^ 6 | SEC \<Rightarrow> 10 ^ 9
     | MINUTE \<Rightarrow> 60 * 10 ^ 9 | HOUR \<Rightarrow> 3600 * 10 ^ 9 | DAY \<Rightarrow> 86400 * 10 ^ 9 | NONE \<Rightarrow> 1)"
  by (cases u) (simp_all add: getMultiplier_def multiplier_labels_def)

lemma getMultiplier_pos: "0 < unat (getMultiplier u)"
  by (simp add: getMultiplier_unat split: TimeUnit.split)

lemma parse_dec_snoc: "parse_dec (s @ [c]) = 10 * parse_dec s + (of_char c - 48)"
  by (simp add: parse_dec_def)

lemma of_char_digit: "d < 10 \<Longrightarrow> of_char (char_of (48 + d :: nat)) = (48 + d :: nat)"
  by simp

lemma parse_print_u64: "parse_dec (print_u64 n) = n"
proof (induction n rule: print_u64.induct)
  case (1 n)
  show ?case
  proof (cases "n < 10")
    case True
    then show ?thesis
      by (subst print_u64.simps) (simp add: parse_dec_def)
  next
    case False
    with "1.IH" show ?thesis
      by (subst print_u64.simps) (simp add: parse_dec_snoc)
  qed
qed

section \<open>Properties\<close>

text \<open>Every unit except \<open>NONE\<close> has a name, and reading that name gives the unit back.\<close>

theorem timeUnit_string_roundtrip:
  "bindE (timeUnitToString u) stringToTimeUnit = (if u = NONE then Inl AssertFail else Inr u)"
  by (cases u) (simp_all add: stringToTimeUnit_def)

text \<open>A count of units converted to nanoseconds and back is unchanged whenever the
  nanosecond count fits in the 64 bits of \<^verbatim>\<open>Time\<close>.\<close>

theorem getTime_makeTime:
  assumes "unat t * unat (getMultiplier u) < 2 ^ 64"
  shows "getTime (makeTime t u) u = t"
proof -
  have "unat (makeTime t u) = unat t * unat (getMultiplier u)"
    using assms by (simp add: makeTime_def unat_word_ariths)
  then have "unat (getTime (makeTime t u) u) = unat t"
    using getMultiplier_pos [of u] by (simp add: getTime_def unat_div)
  then show ?thesis by (simp add: word_unat_eq_iff)
qed

theorem getTime_makeTime_witness:
  "unat (1000 :: u64) * unat (getMultiplier SEC) < 2 ^ 64 \<and> getTime (makeTime 1000 SEC) SEC = 1000"
proof -
  have h: "unat (1000 :: u64) * unat (getMultiplier SEC) < 2 ^ 64"
    by (simp add: getMultiplier_unat)
  show ?thesis using h getTime_makeTime [OF h] by simp
qed

text \<open>The string \<^verbatim>\<open>printTime\<close> gives is the decimal numeral of the number of whole
  units in the time.\<close>

theorem printTime_parse: "parse_dec (printTime t u) = unat (getTime t u)"
  by (simp add: printTime_def getTime_def parse_print_u64)

end
