(* ===== verification/Network_Util.thy ===== *)
theory Network_Util
  imports Kens_Prelude
begin

text \<open>
  \<^verbatim>\<open>E::NetworkUtil\<close> (\<^verbatim>\<open>src/Networking/E_NetworkUtil.cpp\<close> and its header): the
  ones'-complement sum of the Internet checksum, the TCP sum with its pseudo header,
  and the conversions between byte arrays and \<^verbatim>\<open>uint64_t\<close>. Buffers are byte lists of
  exactly the length the caller passes; the layout of multi-byte integers in memory is
  little-endian, as on the platforms the build supports.
\<close>

unbundle bit_operations_syntax

section \<open>Definitions\<close>

text \<open>One iteration of the loop of \<^verbatim>\<open>one_sum\<close>; \<open>fold16\<close> is the carry fold that ends it.\<close>

definition fold16 :: "u32 \<Rightarrow> u32" where
  "fold16 s = (s AND 0xFFFF) + drop_bit 16 s"

fun one_sum_step :: "bool \<times> u32 \<Rightarrow> u8 \<Rightarrow> bool \<times> u32" where
  "one_sum_step (upper, s) b =
     (let s' = (if upper then s + push_bit 8 (ucast b) else s + ucast b)
      in (\<not> upper, fold16 s'))"

definition one_sum :: "bytes \<Rightarrow> u16" where
  "one_sum buffer = ucast (fold16 (snd (foldl one_sum_step (True, 0) buffer)))"

text \<open>Memory images of integers, and \<^verbatim>\<open>htons\<close> followed by the store of its result.\<close>

definition le32 :: "u32 \<Rightarrow> bytes" where
  "le32 w = [ucast w, ucast (drop_bit 8 w), ucast (drop_bit 16 w), ucast (drop_bit 24 w)]"

definition be16 :: "u16 \<Rightarrow> bytes" where
  "be16 w = [ucast (drop_bit 8 w), ucast w]"

record pseudoheader =
  ph_source :: u32
  ph_destination :: u32
  ph_zero :: u8
  ph_protocol :: u8
  ph_length :: u16

text \<open>The packed struct as \<^verbatim>\<open>one_sum\<close> reads it: \<^verbatim>\<open>length\<close> is in network order.\<close>

definition pseudoheader_bytes :: "pseudoheader \<Rightarrow> bytes" where
  "pseudoheader_bytes p =
     le32 (ph_source p) @ le32 (ph_destination p) @ [ph_zero p, ph_protocol p] @ be16 (ph_length p)"

definition tcp_pseudoheader :: "u32 \<Rightarrow> u32 \<Rightarrow> bytes \<Rightarrow> pseudoheader" where
  "tcp_pseudoheader src dst seg =
     \<lparr>ph_source = src, ph_destination = dst, ph_zero = 0, ph_protocol = 6,
      ph_length = word_of_nat (length seg)\<rparr>"

definition tcp_sum :: "u32 \<Rightarrow> u32 \<Rightarrow> bytes \<Rightarrow> u16" where
  "tcp_sum src dst seg =
     (if length seg < 20 then 0
      else
        let s = ucast (one_sum (pseudoheader_bytes (tcp_pseudoheader src dst seg))) :: u32;
            s = s + ucast (one_sum seg)
        in ucast (fold16 s))"

definition UINT64ToArray :: "nat \<Rightarrow> u64 \<Rightarrow> bytes" where
  "UINT64ToArray n val = map (\<lambda>k. ucast (drop_bit (8 * k) val AND 0xFF)) [0..<n]"

fun arrayToUINT64_loop :: "nat \<Rightarrow> bytes \<Rightarrow> u64 \<Rightarrow> u64" where
  "arrayToUINT64_loop k [] s = s"
| "arrayToUINT64_loop k (b # bs) s =
     arrayToUINT64_loop (Suc k) bs (s + push_bit (8 * k) (ucast b))"

definition arrayToUINT64 :: "bytes \<Rightarrow> u64" where
  "arrayToUINT64 array = arrayToUINT64_loop 0 array 0"

text \<open>Specification of the checksum (RFC 1071): the buffer as a sequence of big-endian
  16-bit words, an odd last byte padded with zero, added without bound and reduced to
  the ones'-complement representative, in which only the empty sum is zero.\<close>

fun word_sum :: "bool \<Rightarrow> bytes \<Rightarrow> nat" where
  "word_sum upper [] = 0"
| "word_sum upper (b # bs) = (if upper then 256 * unat b else unat b) + word_sum (\<not> upper) bs"

definition oc_norm :: "nat \<Rightarrow> nat" where
  "oc_norm n = (if n = 0 then 0 else (n - 1) mod 65535 + 1)"

section \<open>Ones'-complement arithmetic\<close>

lemma oc_norm_le: "oc_norm n \<le> 65535"
  by (simp add: oc_norm_def Suc_le_eq)

lemma oc_norm_less: "oc_norm n < 65536"
  using oc_norm_le [of n] by simp

lemma oc_norm_small [simp]: "n \<le> 65535 \<Longrightarrow> oc_norm n = n"
  by (auto simp: oc_norm_def)

lemma oc_norm_0_iff [simp]: "oc_norm n = 0 \<longleftrightarrow> n = 0"
  by (simp add: oc_norm_def)

lemma oc_norm_mod: "oc_norm n mod 65535 = n mod 65535"
  by (cases n) (simp_all add: oc_norm_def mod_Suc_eq)

lemma oc_norm_eqI:
  assumes "a mod 65535 = b mod 65535" and "a = 0 \<longleftrightarrow> b = 0"
  shows "oc_norm a = oc_norm b"
proof (cases "a = 0")
  case True
  with assms(2) show ?thesis by simp
next
  case False
  with assms(2) have pos: "0 < a" "0 < b" by auto
  have shift: "(n - 1) mod 65535 = (n + 65534) mod 65535" if "0 < n" for n :: nat
    using that mod_add_self2 [of "n - 1" 65535] by (simp add: add.commute)
  have "(a - 1) mod 65535 = (b - 1) mod 65535"
    using assms(1) shift [OF pos(1)] shift [OF pos(2)] by (metis mod_add_left_eq)
  with pos show ?thesis by (simp add: oc_norm_def)
qed

lemma oc_norm_add_left [simp]: "oc_norm (oc_norm a + b) = oc_norm (a + b)"
proof (rule oc_norm_eqI)
  show "(oc_norm a + b) mod 65535 = (a + b) mod 65535"
    by (metis mod_add_left_eq oc_norm_mod)
qed simp

lemma oc_norm_add_right [simp]: "oc_norm (a + oc_norm b) = oc_norm (a + b)"
  using oc_norm_add_left [of b a] by (simp add: add.commute)

lemma oc_norm_full: "0 < n \<Longrightarrow> n mod 65535 = 0 \<Longrightarrow> oc_norm n = 65535"
  using oc_norm_eqI [of n 65535] by simp

lemma and_0xFFFF: "s AND 0xFFFF = take_bit 16 (s :: 'a::len word)"
  by (simp add: take_bit_eq_mask mask_eq_exp_minus_1)

lemma and_0xFF: "s AND 0xFF = take_bit 8 (s :: 'a::len word)"
  by (simp add: take_bit_eq_mask mask_eq_exp_minus_1)

lemma unat_fold16: "unat (fold16 s) = unat s mod 65536 + unat s div 65536"
proof -
  have lo: "unat (s AND 0xFFFF) = unat s mod 65536"
    by (simp add: and_0xFFFF take_bit_eq_mod unat_mod)
  have hi: "unat (drop_bit 16 s) = unat s div 65536"
    by (simp add: drop_bit_eq_div unat_div)
  have "unat s mod 65536 + unat s div 65536 < 2 ^ 32"
    using unat_less_u32 [of s] by (simp add: less_mult_imp_div_less)
  then show ?thesis
    by (simp add: fold16_def lo hi unat_plus_no_wrap)
qed

lemma fold16_oc_norm:
  assumes "0 < unat s" and "unat s \<le> 131070"
  shows "unat (fold16 s) = oc_norm (unat s)"
proof -
  let ?n = "unat s"
  have "?n mod 65536 + ?n div 65536 = (?n - 1) mod 65535 + 1"
  proof (cases "?n < 65536")
    case True
    with assms(1) show ?thesis by simp
  next
    case False
    with assms(2) have "?n div 65536 = 1" "?n mod 65536 = ?n - 65536" "(?n - 1) mod 65535 = ?n - 1 - 65535"
      by (simp_all add: div_nat_eqI mod_if le_mod_geq)
    with False show ?thesis by simp
  qed
  with assms(1) show ?thesis by (simp add: unat_fold16 oc_norm_def)
qed

lemma fold16_oc_norm':
  "unat s \<le> 131070 \<Longrightarrow> unat (fold16 s) = oc_norm (unat s)"
  using fold16_oc_norm [of s] by (cases "unat s = 0") (simp_all add: unat_fold16)

section \<open>The checksum\<close>

lemma one_sum_step_oc:
  assumes "unat s \<le> 65535"
  shows "unat (snd (one_sum_step (upper, s) b)) =
    oc_norm (unat s + (if upper then 256 * unat b else unat b))"
proof -
  have hi: "unat (push_bit 8 (ucast b) :: u32) = 256 * unat b"
    using unat_less_u8 [of b]
    by (simp add: push_bit_eq_mult unat_word_ariths unsigned_ucast_eq take_bit_eq_mod)
  have lo: "unat (ucast b :: u32) = unat b"
    using unat_less_u8 [of b] by (simp add: unsigned_ucast_eq take_bit_eq_mod)
  have "unat (if upper then s + push_bit 8 (ucast b) else s + ucast b) =
      unat s + (if upper then 256 * unat b else unat b)"
    using assms unat_less_u8 [of b] by (auto simp: unat_word_ariths hi lo)
  moreover from this have "unat (if upper then s + push_bit 8 (ucast b) else s + ucast b) \<le> 131070"
    using assms unat_less_u8 [of b] by auto
  ultimately show ?thesis
    by (simp add: Let_def fold16_oc_norm')
qed

lemma one_sum_loop:
  assumes "unat s \<le> 65535"
  shows "unat (snd (foldl one_sum_step (upper, s) bs)) = oc_norm (unat s + word_sum upper bs)"
  using assms
proof (induction bs arbitrary: upper s)
  case Nil
  then show ?case by simp
next
  case (Cons b bs)
  obtain s' where step: "one_sum_step (upper, s) b = (\<not> upper, s')"
    by (simp add: Let_def)
  have s': "unat s' = oc_norm (unat s + (if upper then 256 * unat b else unat b))"
    using one_sum_step_oc [OF Cons.prems, of upper b] unfolding step by simp
  then have "unat s' \<le> 65535" by (simp add: oc_norm_le)
  from Cons.IH [OF this, of "\<not> upper"] show ?case
    unfolding foldl.simps step s' oc_norm_add_left word_sum.simps by (simp only: add.assoc)
qed

lemma one_sum_spec: "unat (one_sum bs) = oc_norm (word_sum True bs)"
proof -
  let ?s = "snd (foldl one_sum_step (True, 0) bs)"
  have s: "unat ?s = oc_norm (word_sum True bs)"
    using one_sum_loop [of 0 True bs] by simp
  then have "unat ?s \<le> 65535" by (simp add: oc_norm_le)
  then have "unat (fold16 ?s) = unat ?s" by (simp add: fold16_oc_norm')
  then show ?thesis
    using s oc_norm_less [of "word_sum True bs"]
    by (simp add: one_sum_def unsigned_ucast_eq take_bit_eq_mod)
qed

lemma word_sum_append:
  "word_sum upper (xs @ ys) = word_sum upper xs + word_sum (upper = even (length xs)) ys"
proof (induction xs arbitrary: upper)
  case (Cons b xs)
  then show ?case by (cases upper; cases "even (length xs)") simp_all
qed simp

section \<open>Byte arrays as integers\<close>

lemma arrayToUINT64_loop_shift:
  "arrayToUINT64_loop (Suc k) bs (push_bit 8 s) = push_bit 8 (arrayToUINT64_loop k bs s)"
proof (induction bs arbitrary: k s)
  case (Cons b bs)
  have "push_bit 8 s + push_bit (8 * Suc k) (ucast b) = push_bit 8 (s + push_bit (8 * k) (ucast b))"
    by (simp add: push_bit_add push_bit_push_bit add.commute)
  then show ?case using Cons.IH [of "Suc k"] by simp
qed simp

lemma arrayToUINT64_loop_add:
  "arrayToUINT64_loop k bs (a + s) = a + arrayToUINT64_loop k bs s"
  by (induction bs arbitrary: k s) (simp_all add: add.assoc)

lemma arrayToUINT64_Nil [simp]: "arrayToUINT64 [] = 0"
  by (simp add: arrayToUINT64_def)

lemma arrayToUINT64_Cons:
  "arrayToUINT64 (b # bs) = ucast b + push_bit 8 (arrayToUINT64 bs)"
  using arrayToUINT64_loop_add [of 1 bs "ucast b" 0] arrayToUINT64_loop_shift [of 0 bs 0]
  by (simp add: arrayToUINT64_def)

lemma unat_arrayToUINT64:
  "length bs \<le> 8 \<Longrightarrow> unat (arrayToUINT64 bs) < 256 ^ length bs \<and>
     (bs \<noteq> [] \<longrightarrow> unat (arrayToUINT64 bs) = unat (hd bs) + 256 * unat (arrayToUINT64 (tl bs)))"
proof (induction bs)
  case Nil
  then show ?case by simp
next
  case (Cons b bs)
  let ?r = "unat (arrayToUINT64 bs)"
  from Cons have r: "?r < 256 ^ length bs" by simp
  from Cons.prems have "(256::nat) ^ length (b # bs) \<le> 256 ^ 8"
    by (intro power_increasing) simp_all
  moreover have b: "unat b < 256" by (rule unat_less_u8)
  moreover have bound: "unat b + 256 * ?r < 256 ^ length (b # bs)"
    using r b by (simp add: Suc_le_eq [symmetric])
  ultimately have "unat b + 256 * ?r < 2 ^ 64" by simp
  then have "unat (arrayToUINT64 (b # bs)) = unat b + 256 * ?r"
    using b by (simp add: arrayToUINT64_Cons push_bit_eq_mult unat_word_ariths unsigned_ucast_eq
        take_bit_eq_mod mod_add_right_eq mult.commute)
  with bound show ?case by simp
qed

lemma UINT64ToArray_Suc:
  "UINT64ToArray (Suc n) v = ucast (v AND 0xFF) # UINT64ToArray n (drop_bit 8 v)"
proof -
  have "map (\<lambda>k. ucast (drop_bit (8 * k) v AND 0xFF)) (map Suc [0..<n]) =
      map (\<lambda>k. ucast (drop_bit (8 * k) (drop_bit 8 v) AND 0xFF) :: u8) [0..<n]"
    by (simp add: drop_bit_drop_bit add.commute)
  then show ?thesis
    by (simp add: UINT64ToArray_def upt_conv_Cons flip: map_Suc_upt del: upt_Suc)
qed

lemma array_roundtrip:
  "length bs \<le> 8 \<Longrightarrow> UINT64ToArray (length bs) (arrayToUINT64 bs) = bs"
proof (induction bs)
  case Nil
  then show ?case by (simp add: UINT64ToArray_def)
next
  case (Cons b bs)
  let ?v = "arrayToUINT64 (b # bs)" and ?r = "arrayToUINT64 bs"
  have v: "unat ?v = unat b + 256 * unat ?r"
    using unat_arrayToUINT64 [OF Cons.prems] by simp
  have b: "unat b < 256" by (rule unat_less_u8)
  have "unat (ucast (?v AND 0xFF) :: u8) = unat b"
    using v b by (simp add: and_0xFF take_bit_eq_mod unat_mod unsigned_ucast_eq)
  then have "ucast (?v AND 0xFF) = b" by (simp add: word_unat_eq_iff)
  moreover have "unat (drop_bit 8 ?v) = unat ?r"
    using v b by (simp add: drop_bit_eq_div unat_div)
  then have "drop_bit 8 ?v = ?r" by (simp add: word_unat_eq_iff)
  ultimately show ?case
    using Cons by (simp add: UINT64ToArray_Suc)
qed

lemma arrayToUINT64_inj:
  "length a \<le> 8 \<Longrightarrow> length a = length b \<Longrightarrow> arrayToUINT64 a = arrayToUINT64 b \<longleftrightarrow> a = b"
  by (metis array_roundtrip)

lemma length_UINT64ToArray [simp]: "length (UINT64ToArray n v) = n"
  by (simp add: UINT64ToArray_def)

lemma unat_array_of_word:
  "n \<le> 8 \<Longrightarrow> unat (arrayToUINT64 (UINT64ToArray n v)) = unat v mod 256 ^ n"
proof (induction n arbitrary: v)
  case 0
  then show ?case by (simp add: UINT64ToArray_def)
next
  case (Suc n)
  have hd: "unat (ucast (v AND 0xFF) :: u8) = unat v mod 256"
    by (simp add: and_0xFF take_bit_eq_mod unat_mod unsigned_ucast_eq)
  have dv: "unat (drop_bit 8 v) = unat v div 256"
    by (simp add: drop_bit_eq_div unat_div)
  from Suc have "unat (arrayToUINT64 (UINT64ToArray (Suc n) v))
      = unat v mod 256 + 256 * (unat v div 256 mod 256 ^ n)"
    using unat_arrayToUINT64 [of "UINT64ToArray (Suc n) v"]
    by (simp add: UINT64ToArray_Suc hd dv)
  then show ?case by (simp add: mod_mult2_eq add.commute)
qed

section \<open>Checksums that verify\<close>

lemma word_sum_be16 [simp]: "word_sum True (be16 w) = unat w"
proof -
  have "unat (ucast (drop_bit 8 w) :: u8) = unat w div 256"
    using unat_less_u16 [of w] by (simp add: drop_bit_eq_div unat_div unsigned_ucast_eq take_bit_eq_mod)
  moreover have "unat (ucast w :: u8) = unat w mod 256"
    by (simp add: unsigned_ucast_eq take_bit_eq_mod)
  ultimately show ?thesis
    by (simp add: be16_def)
qed

lemma length_be16 [simp]: "length (be16 w) = 2"
  by (simp add: be16_def)

lemma unat_NOT_u16: "unat (NOT (w :: u16)) = 65535 - unat w"
proof -
  have "NOT w = 65535 - w"
    by (simp add: not_eq_complement)
  moreover have "w \<le> 65535"
    using unat_less_u16 [of w] by (simp add: word_le_nat_alt)
  ultimately show ?thesis by (simp add: unat_minus_le)
qed

lemma word_sum_overwrite_be16:
  assumes "even i" and "i + 2 \<le> length hdr" and "hdr ! i = 0" and "hdr ! Suc i = 0"
  shows "word_sum True (overwrite i (be16 w) hdr) = word_sum True hdr + unat w"
proof -
  have i: "min (length hdr) i = i" using assms(2) by simp
  have "drop i hdr = hdr ! i # hdr ! Suc i # drop (i + 2) hdr"
    using assms(2) by (simp add: Cons_nth_drop_Suc)
  then have "hdr = take i hdr @ [0, 0] @ drop (i + 2) hdr"
    using assms(3,4) append_take_drop_id [of i hdr] by simp
  then have "word_sum True hdr = word_sum True (take i hdr @ [0, 0] @ drop (i + 2) hdr)"
    by simp
  also have "\<dots> = word_sum True (take i hdr) + word_sum True (drop (i + 2) hdr)"
    by (simp add: word_sum_append i assms(1))
  finally show ?thesis
    by (simp add: overwrite_def word_sum_append i assms(1))
qed

lemma checksum_complement:
  assumes "even i" and "i + 2 \<le> length hdr" and "hdr ! i = 0" and "hdr ! Suc i = 0"
  shows "one_sum (overwrite i (be16 (NOT (one_sum hdr))) hdr) = 0xFFFF"
proof -
  let ?n = "word_sum True hdr"
  have "unat (one_sum (overwrite i (be16 (NOT (one_sum hdr))) hdr)) = oc_norm (?n + (65535 - oc_norm ?n))"
    by (simp add: one_sum_spec word_sum_overwrite_be16 [OF assms] unat_NOT_u16)
  also have "\<dots> = oc_norm (oc_norm ?n + (65535 - oc_norm ?n))"
    by (simp only: oc_norm_add_left)
  also have "\<dots> = oc_norm 65535"
    using oc_norm_le [of ?n] by (metis le_add_diff_inverse)
  finally show ?thesis by (simp add: word_unat_eq_iff)
qed

section \<open>Properties\<close>

text \<open>C14. The loop of \<^verbatim>\<open>one_sum\<close>, which folds the carry after every byte, computes the
  RFC 1071 sum: the ones'-complement representative of the sum of the buffer's big-endian
  16-bit words, for a buffer of any length.\<close>

theorem one_sum_rfc1071: "unat (one_sum buffer) = oc_norm (word_sum True buffer)"
  by (rule one_sum_spec)

text \<open>For a segment of at least 20 bytes \<^verbatim>\<open>tcp_sum\<close>, which adds two partial sums, is the
  checksum of the pseudo header followed by the segment; a shorter segment gives 0.\<close>

theorem tcp_sum_concat:
  "tcp_sum src dst seg =
     (if length seg < 20 then 0
      else one_sum (pseudoheader_bytes (tcp_pseudoheader src dst seg) @ seg))"
proof (cases "length seg < 20")
  case True
  then show ?thesis by (simp add: tcp_sum_def)
next
  case False
  let ?ph = "pseudoheader_bytes (tcp_pseudoheader src dst seg)"
  let ?s = "ucast (one_sum ?ph) + ucast (one_sum seg) :: u32"
  have widen: "unat (ucast (w :: u16) :: u32) = unat w" for w
    using unat_less_u16 [of w] by (simp add: unsigned_ucast_eq take_bit_eq_mod)
  have "unat ?s = oc_norm (word_sum True ?ph) + oc_norm (word_sum True seg)"
    using oc_norm_less [of "word_sum True ?ph"] oc_norm_less [of "word_sum True seg"]
    by (simp add: unat_word_ariths widen one_sum_spec)
  then have "unat (fold16 ?s) = oc_norm (word_sum True ?ph + word_sum True seg)"
    using oc_norm_le [of "word_sum True ?ph"] oc_norm_le [of "word_sum True seg"]
    by (simp add: fold16_oc_norm')
  moreover have "even (length ?ph)"
    by (simp add: pseudoheader_bytes_def le32_def)
  ultimately have "unat (ucast (fold16 ?s) :: u16) = unat (one_sum (?ph @ seg))"
    using oc_norm_less [of "word_sum True ?ph + word_sum True seg"]
    by (simp add: one_sum_spec word_sum_append unsigned_ucast_eq take_bit_eq_mod)
  with False show ?thesis
    by (simp add: tcp_sum_def Let_def word_unat_eq_iff)
qed

text \<open>\<^verbatim>\<open>UINT64ToArray\<close> and \<^verbatim>\<open>arrayToUINT64\<close> are inverse on arrays of at most 8 bytes, and
  converting a number to \<open>n\<close> bytes and back keeps its low \<open>n\<close> bytes.\<close>

theorem array_uint64_roundtrip:
  assumes "n \<le> 8"
  shows "(length bs = n \<longrightarrow> UINT64ToArray n (arrayToUINT64 bs) = bs) \<and>
    unat (arrayToUINT64 (UINT64ToArray n v)) = unat v mod 256 ^ n"
  using assms array_roundtrip unat_array_of_word by blast

theorem array_uint64_roundtrip_witness:
  "UINT64ToArray 6 (arrayToUINT64 [0xBC, 1, 2, 3, 4, 5]) = [0xBC, 1, 2, 3, 4, 5] \<and>
   unat (arrayToUINT64 (UINT64ToArray 6 0x0102030405060708)) = 0x030405060708"
  using array_uint64_roundtrip [of 6 "[0xBC, 1, 2, 3, 4, 5]" "0x0102030405060708"] by simp

end
