(* ===== verification/Packet_Buffer.thy ===== *)
theory Packet_Buffer
  imports Kens_Prelude
begin

text \<open>
  \<^verbatim>\<open>E::Packet\<close> (\<^verbatim>\<open>src/Networking/E_Packet.cpp\<close>): a byte buffer with a UUID, the static
  allocator of the UUIDs, and the reads and writes every protocol layer goes through.
  Sizes and offsets are naturals: the code only takes minima of them and subtracts a
  minimum, so nothing wraps. The copy \<^verbatim>\<open>memcpy(.., length)\<close> is defined where both
  regions hold \<^verbatim>\<open>length\<close> bytes and is \<open>OutOfBounds\<close> elsewhere. A destination buffer is a
  list of optional bytes: \<open>None\<close> is a byte that was never written.
\<close>

section \<open>Definitions\<close>

record packet =
  buffer :: bytes
  packetID :: UUID

record packet_ids =
  packetUUIDSet :: "UUID set"
  packetUUIDStart :: UUID

definition initial_ids :: packet_ids where
  "initial_ids = \<lparr>packetUUIDSet = {}, packetUUIDStart = 0\<rparr>"

definition allocatePacketUUID :: "packet_ids \<Rightarrow> (UUID \<times> packet_ids) result" where
  "allocatePacketUUID st =
     (case first_free (packetUUIDSet st) (packetUUIDStart st) (packetUUIDStart st) of
        Some candidate \<Rightarrow>
          Inr (candidate, st\<lparr>packetUUIDStart := candidate + 1,
                             packetUUIDSet := insert candidate (packetUUIDSet st)\<rparr>)
      | None \<Rightarrow> Inl AssertFail)"

definition freePacketUUID :: "UUID \<Rightarrow> packet_ids \<Rightarrow> packet_ids" where
  "freePacketUUID uuid st = st\<lparr>packetUUIDSet := packetUUIDSet st - {uuid}\<rparr>"

text \<open>Constructors, copy, move and destruction. A moved-from packet keeps its UUID and has
  an empty buffer.\<close>

definition Packet_new :: "nat \<Rightarrow> packet_ids \<Rightarrow> (packet \<times> packet_ids) result" where
  "Packet_new n st =
     bindE (allocatePacketUUID st) (\<lambda>(uuid, st').
       Inr (\<lparr>buffer = replicate n 0, packetID = uuid\<rparr>, st'))"

definition Packet_copy :: "packet \<Rightarrow> packet" where
  "Packet_copy other = \<lparr>buffer = buffer other, packetID = packetID other\<rparr>"

definition Packet_move :: "packet \<Rightarrow> packet \<times> packet" where
  "Packet_move other =
     (\<lparr>buffer = buffer other, packetID = packetID other\<rparr>, other\<lparr>buffer := []\<rparr>)"

definition Packet_assign :: "packet \<Rightarrow> packet \<Rightarrow> packet" where
  "Packet_assign this other = this\<lparr>buffer := buffer other, packetID := packetID other\<rparr>"

definition Packet_destroy :: "packet \<Rightarrow> packet_ids \<Rightarrow> packet_ids" where
  "Packet_destroy p st = freePacketUUID (packetID p) st"

definition getSize :: "packet \<Rightarrow> nat" where
  "getSize p = length (buffer p)"

definition getUUID :: "packet \<Rightarrow> UUID" where
  "getUUID p = packetID p"

definition clone :: "packet \<Rightarrow> packet_ids \<Rightarrow> (packet \<times> packet_ids) result" where
  "clone p st =
     bindE (Packet_new (length (buffer p)) st) (\<lambda>(pkt, st').
       Inr (pkt\<lparr>buffer := buffer p\<rparr>, st'))"

definition writeData :: "packet \<Rightarrow> nat \<Rightarrow> bytes \<Rightarrow> nat \<Rightarrow> (nat \<times> packet) result" where
  "writeData p offset data len =
     (let actual_offset = min offset (length (buffer p));
          actual_write = min len (length (buffer p) - actual_offset)
      in if actual_write = 0 then Inr (0, p)
         else if actual_offset + len \<le> length (buffer p) \<and> len \<le> length data
         then Inr (actual_write, p\<lparr>buffer := overwrite actual_offset (take len data) (buffer p)\<rparr>)
         else Inl OutOfBounds)"

definition readData ::
  "packet \<Rightarrow> nat \<Rightarrow> u8 option list \<Rightarrow> nat \<Rightarrow> (nat \<times> u8 option list) result" where
  "readData p offset data len =
     (let actual_offset = min offset (length (buffer p));
          actual_read = min len (length (buffer p) - actual_offset)
      in if actual_read = 0 then Inr (0, data)
         else if actual_offset + len \<le> length (buffer p) \<and> len \<le> length data
         then Inr (actual_read,
                   overwrite 0 (map Some (take len (drop actual_offset (buffer p)))) data)
         else Inl OutOfBounds)"

definition setSize :: "packet \<Rightarrow> nat \<Rightarrow> nat \<times> packet" where
  "setSize p n =
     (let b = take n (buffer p) @ replicate (n - length (buffer p)) 0
      in (length b, p\<lparr>buffer := b\<rparr>))"

text \<open>The two idioms of the callers: a write whose result is ignored, and a read into a
  fresh local array whose bytes are then used.\<close>

definition put_bytes :: "packet \<Rightarrow> nat \<Rightarrow> bytes \<Rightarrow> packet result" where
  "put_bytes p offset data = bindE (writeData p offset data (length data)) (\<lambda>(_, p'). Inr p')"

definition get_bytes :: "packet \<Rightarrow> nat \<Rightarrow> nat \<Rightarrow> bytes result" where
  "get_bytes p offset len =
     bindE (readData p offset (replicate len None) len) (\<lambda>(_, data).
       if None \<in> set data then Inl Uninitialised else Inr (map the data))"

text \<open>Histories of the UUID allocator: constructions and destructions in any order.\<close>

datatype id_op = Alloc | Free UUID

fun run_ids :: "id_op list \<Rightarrow> packet_ids \<Rightarrow> (UUID list \<times> packet_ids) result" where
  "run_ids [] st = Inr ([], st)"
| "run_ids (Alloc # ops) st =
     bindE (allocatePacketUUID st) (\<lambda>(u, st').
       bindE (run_ids ops st') (\<lambda>(us, st''). Inr (u # us, st'')))"
| "run_ids (Free u # ops) st = run_ids ops (freePacketUUID u st)"

section \<open>Reads and writes\<close>

lemma get_bytes_eq:
  "get_bytes p off len =
     (if len = 0 then Inr []
      else if length (buffer p) \<le> off then Inl Uninitialised
      else if off + len \<le> length (buffer p) then Inr (take len (drop off (buffer p)))
      else Inl OutOfBounds)"
proof (cases "len = 0 \<or> length (buffer p) \<le> off")
  case True
  then show ?thesis
    by (auto simp: get_bytes_def readData_def Let_def)
next
  case False
  then show ?thesis
    by (auto simp: get_bytes_def readData_def Let_def overwrite_def)
qed

lemma put_bytes_ok [bytes_simps]:
  assumes "off + length data \<le> length (buffer p)"
  shows "put_bytes p off data = Inr (p\<lparr>buffer := overwrite off data (buffer p)\<rparr>)"
proof (cases "data = []")
  case True
  with assms show ?thesis
    by (simp add: put_bytes_def writeData_def Let_def overwrite_def)
next
  case False
  with assms show ?thesis
    by (auto simp: put_bytes_def writeData_def Let_def min_def)
qed

lemma get_bytes_ok [bytes_simps]:
  "off + len \<le> length (buffer p) \<Longrightarrow> get_bytes p off len = Inr (take len (drop off (buffer p)))"
  by (auto simp: get_bytes_eq)

section \<open>The interface of the protocol layers: a store of byte fields\<close>

text \<open>What Ethernet and IPv4 rely on: fields inside the packet can be written and read, a
  write changes only its field, and the packet keeps its size.\<close>

locale field_store =
  fixes get :: "'s \<Rightarrow> nat \<Rightarrow> nat \<Rightarrow> bytes result"
    and put :: "'s \<Rightarrow> nat \<Rightarrow> bytes \<Rightarrow> 's result"
    and cap :: "'s \<Rightarrow> nat"
  assumes put_ok: "off + length d \<le> cap s \<Longrightarrow> \<exists>s'. put s off d = Inr s'"
    and put_cap: "off + length d \<le> cap s \<Longrightarrow> put s off d = Inr s' \<Longrightarrow> cap s' = cap s"
    and get_put_same: "off + length d \<le> cap s \<Longrightarrow> put s off d = Inr s' \<Longrightarrow>
      get s' off (length d) = Inr d"
    and get_put_other: "off + length d \<le> cap s \<Longrightarrow> put s off d = Inr s' \<Longrightarrow>
      a + n \<le> cap s \<Longrightarrow> a + n \<le> off \<or> off + length d \<le> a \<Longrightarrow> get s' a n = get s a n"
begin

text \<open>A list of field writes in program order.\<close>

lemma puts_ok:
  "\<forall>(off, d) \<in> set fs. off + length d \<le> cap s \<Longrightarrow>
   \<exists>s'. foldE (\<lambda>(off, d) s. put s off d) fs s = Inr s' \<and> cap s' = cap s"
proof (induction fs arbitrary: s)
  case Nil
  then show ?case by simp
next
  case (Cons f fs)
  obtain off d where f: "f = (off, d)" by (cases f)
  with Cons.prems have fit: "off + length d \<le> cap s" by simp
  then obtain s1 where s1: "put s off d = Inr s1" using put_ok by blast
  with fit have "cap s1 = cap s" by (rule put_cap)
  with Cons.IH [of s1] Cons.prems have
    "\<exists>s'. foldE (\<lambda>(off, d) s. put s off d) fs s1 = Inr s' \<and> cap s' = cap s" by auto
  with s1 f show ?case by simp
qed

lemma get_puts_other:
  assumes "foldE (\<lambda>(off, d) s. put s off d) fs s = Inr s'"
    and "\<forall>(off, d) \<in> set fs. off + length d \<le> cap s \<and> (a + n \<le> off \<or> off + length d \<le> a)"
    and "a + n \<le> cap s"
  shows "get s' a n = get s a n"
  using assms
proof (induction fs arbitrary: s)
  case Nil
  then show ?case by simp
next
  case (Cons f fs)
  obtain off d where f: "f = (off, d)" by (cases f)
  with Cons.prems(1) obtain s1 where s1: "put s off d = Inr s1"
    "foldE (\<lambda>(off, d) s. put s off d) fs s1 = Inr s'"
    by (auto simp: result_simps)
  from f Cons.prems(2) have fit: "off + length d \<le> cap s" "a + n \<le> off \<or> off + length d \<le> a"
    by auto
  have "cap s1 = cap s" using fit(1) s1(1) by (rule put_cap)
  with Cons.IH [OF s1(2)] Cons.prems have "get s' a n = get s1 a n" by simp
  also have "\<dots> = get s a n" using fit(1) s1(1) Cons.prems(3) fit(2) by (rule get_put_other)
  finally show ?case .
qed

end

interpretation pkt: field_store get_bytes put_bytes getSize
proof
  fix off :: nat and d :: bytes and s s' :: packet and a n :: nat
  assume fit: "off + length d \<le> getSize s"
  then have put: "put_bytes s off d = Inr (s\<lparr>buffer := overwrite off d (buffer s)\<rparr>)"
    by (simp add: getSize_def put_bytes_ok)
  then show "\<exists>s'. put_bytes s off d = Inr s'" by simp
  assume "put_bytes s off d = Inr s'"
  with put have s': "s' = s\<lparr>buffer := overwrite off d (buffer s)\<rparr>" by simp
  show cap: "getSize s' = getSize s"
    using fit by (simp add: s' getSize_def)
  show "get_bytes s' off (length d) = Inr d"
    using fit cap by (simp add: get_bytes_ok getSize_def s')
  assume "a + n \<le> getSize s" "a + n \<le> off \<or> off + length d \<le> a"
  with fit cap show "get_bytes s' a n = get_bytes s a n"
    by (simp add: get_bytes_ok getSize_def s' take_drop_overwrite_other)
qed

section \<open>Identifiers\<close>

text \<open>While fewer than \<open>2 ^ 64\<close> packets have been made, the \<open>n\<close>-th allocation returns \<open>n\<close>,
  whatever has been freed: the identifiers in use are all below the probe's start.\<close>

lemma run_ids_consecutive:
  assumes "n + count_list ops Alloc < 2 ^ 64"
    and "packetUUIDStart st = of_nat n" and "\<forall>u \<in> packetUUIDSet st. unat u < n"
  shows "\<exists>st'. run_ids ops st = Inr (map of_nat [n..<n + count_list ops Alloc], st')"
  using assms
proof (induction ops arbitrary: n st)
  case Nil
  then show ?case by simp
next
  case (Cons op ops)
  show ?case
  proof (cases op)
    case (Free u)
    with Cons.prems Cons.IH [of n "freePacketUUID u st"] show ?thesis
      by (simp add: freePacketUUID_def)
  next
    case Alloc
    let ?st = "st\<lparr>packetUUIDStart := of_nat (Suc n),
                  packetUUIDSet := insert (of_nat n) (packetUUIDSet st)\<rparr>"
    from Cons.prems(1) Alloc have n: "unat (of_nat n :: u64) = n"
      by (simp add: unsigned_of_nat take_bit_eq_mod)
    with Cons.prems(3) have "of_nat n \<notin> packetUUIDSet st" by auto
    then have alloc: "allocatePacketUUID st = Inr (of_nat n, ?st)"
      using Cons.prems(2) by (simp add: allocatePacketUUID_def add.commute)
    have "\<exists>st'. run_ids ops ?st = Inr (map of_nat [Suc n..<Suc n + count_list ops Alloc], st')"
      using Cons.prems Alloc n by (intro Cons.IH) auto
    then show ?thesis
      using Alloc alloc by (auto simp: upt_conv_Cons simp del: upt_Suc)
  qed
qed

lemma distinct_map_of_nat:
  "n + k \<le> 2 ^ 64 \<Longrightarrow> distinct (map (of_nat :: nat \<Rightarrow> u64) [n..<n + k])"
proof (simp add: distinct_map, rule inj_onI)
  fix a b assume k: "n + k \<le> 18446744073709551616" "a \<in> {n..<n + k}" "b \<in> {n..<n + k}"
    and eq: "(of_nat a :: u64) = of_nat b"
  from k have "unat (of_nat a :: u64) = a" "unat (of_nat b :: u64) = b"
    by (simp_all add: unsigned_of_nat take_bit_eq_mod)
  with eq show "a = b" by metis
qed

section \<open>Properties\<close>

text \<open>A write that fits in the packet stores exactly its bytes: it reports their number,
  reading the range gives them back, every range beside it is unchanged, and the packet
  keeps its size and its UUID.\<close>

theorem writeData_contract:
  assumes "off + length d \<le> getSize p" and "0 < length d"
  shows "\<exists>p'. writeData p off d (length d) = Inr (length d, p') \<and>
    get_bytes p' off (length d) = Inr d \<and>
    (\<forall>a n. a + n \<le> getSize p \<longrightarrow> a + n \<le> off \<or> off + length d \<le> a \<longrightarrow>
       get_bytes p' a n = get_bytes p a n) \<and>
    getSize p' = getSize p \<and> getUUID p' = getUUID p"
proof -
  let ?p = "p\<lparr>buffer := overwrite off d (buffer p)\<rparr>"
  have w: "writeData p off d (length d) = Inr (length d, ?p)"
    using assms by (simp add: writeData_def getSize_def Let_def min_def)
  have put: "put_bytes p off d = Inr ?p"
    using assms(1) by (simp add: put_bytes_ok getSize_def)
  show ?thesis
    using w pkt.get_put_same [OF assms(1) put] pkt.get_put_other [OF assms(1) put]
      pkt.put_cap [OF assms(1) put]
    by (simp add: getUUID_def)
qed

theorem writeData_contract_witness:
  "2 + length [7, 8 :: u8] \<le> getSize \<lparr>buffer = [1, 2, 3, 4, 5], packetID = 9\<rparr> \<and>
   (\<exists>p'. writeData \<lparr>buffer = [1, 2, 3, 4, 5], packetID = 9\<rparr> 2 [7, 8] 2 = Inr (2, p') \<and>
     get_bytes p' 2 2 = Inr [7, 8])"
proof -
  have h: "2 + length [7, 8 :: u8] \<le> getSize \<lparr>buffer = [1, 2, 3, 4, 5], packetID = 9\<rparr>"
    "0 < length [7, 8 :: u8]"
    by (simp_all add: getSize_def)
  show ?thesis using h writeData_contract [OF h] by (auto simp: numeral_2_eq_2)
qed

text \<open>C37. A write or read that starts inside the packet and runs past its end is not
  truncated: the bounds are computed, but the copy still moves \<^verbatim>\<open>length\<close> bytes, outside the
  buffer. (The header of the class promises truncation.)\<close>

theorem packet_access_past_end:
  assumes "off < getSize p" and "getSize p < off + length d"
  shows "writeData p off d (length d) = Inl OutOfBounds \<and>
    readData p off (map Some d) (length d) = Inl OutOfBounds"
  using assms by (auto simp: writeData_def readData_def getSize_def Let_def)

theorem packet_access_past_end_witness:
  "3 < getSize \<lparr>buffer = [1, 2, 3, 4], packetID = 0\<rparr> \<and>
   writeData \<lparr>buffer = [1, 2, 3, 4], packetID = 0\<rparr> 3 [5, 6] 2 = Inl OutOfBounds"
proof -
  have h: "3 < getSize \<lparr>buffer = [1, 2, 3, 4], packetID = 0\<rparr>"
    "getSize \<lparr>buffer = [1, 2, 3, 4], packetID = 0\<rparr> < 3 + length [5, 6 :: u8]"
    by (simp_all add: getSize_def)
  show ?thesis using h packet_access_past_end [OF h] by (simp add: numeral_2_eq_2)
qed

text \<open>C35. In any history with fewer than \<open>2 ^ 64\<close> constructions, interleaved with
  destructions in any order, no allocation fails and no two packets get the same UUID,
  even though copies of a packet share its UUID and the first one destroyed frees it.\<close>

theorem packet_uuids_distinct:
  assumes "count_list ops Alloc < 2 ^ 64"
  shows "\<exists>us st'. run_ids ops initial_ids = Inr (us, st') \<and> length us = count_list ops Alloc \<and> distinct us"
proof -
  have "\<exists>st'. run_ids ops initial_ids = Inr (map of_nat [0..<0 + count_list ops Alloc], st')"
    using assms by (intro run_ids_consecutive) (simp_all add: initial_ids_def)
  then show ?thesis
    using distinct_map_of_nat [of 0 "count_list ops Alloc"] assms by auto
qed

theorem packet_uuids_distinct_witness:
  "count_list [Alloc, Free 0, Alloc, Free 0, Alloc] Alloc < 2 ^ 64 \<and>
   (\<exists>us st'. run_ids [Alloc, Free 0, Alloc, Free 0, Alloc] initial_ids = Inr (us, st') \<and>
     length us = 3 \<and> distinct us)"
  using packet_uuids_distinct [of "[Alloc, Free 0, Alloc, Free 0, Alloc]"]
  by (simp add: numeral_3_eq_3)



end
