(* ===== verification/Routing_Info.thy ===== *)
theory Routing_Info
  imports Kens_Prelude "HOL-Library.Signed_Division"
begin

text \<open>
  \<^verbatim>\<open>E::RoutingInfo\<close> (\<^verbatim>\<open>src/Networking/E_RoutingInfo.cpp\<close>): the MAC, IP, ARP and routing
  tables of a host, and the longest-prefix lookup over the routing table. The tables are
  vectors that only grow; lookups scan them from the front. \<^verbatim>\<open>RoutingInfoInterface\<close>
  forwards each call to the host, so the operations of the two classes are the same
  definitions.
\<close>

unbundle bit_operations_syntax

section \<open>Definitions\<close>

record mac_entry =
  me_mac :: mac_t
  me_port :: int

record ip_entry =
  ie_ip :: ipv4_t
  ie_port :: int

record arp_entry =
  ae_ip :: ipv4_t
  ae_mac :: mac_t

record route_entry =
  ip_mask :: ipv4_t
  prefix :: int
  re_port :: int

record routing_info =
  mac_vector :: "mac_entry list"
  ip_vector :: "ip_entry list"
  arp_vector :: "arp_entry list"
  route_vector :: "route_entry list"

definition empty_routing :: routing_info where
  "empty_routing = \<lparr>mac_vector = [], ip_vector = [], arp_vector = [], route_vector = []\<rparr>"

definition setIPAddr :: "ipv4_t \<Rightarrow> int \<Rightarrow> routing_info \<Rightarrow> routing_info" where
  "setIPAddr ip port ri = ri\<lparr>ip_vector := ip_vector ri @ [\<lparr>ie_ip = ip, ie_port = port\<rparr>]\<rparr>"

definition setMACAddr :: "mac_t \<Rightarrow> int \<Rightarrow> routing_info \<Rightarrow> routing_info" where
  "setMACAddr mac port ri = ri\<lparr>mac_vector := mac_vector ri @ [\<lparr>me_mac = mac, me_port = port\<rparr>]\<rparr>"

definition setARPTable :: "mac_t \<Rightarrow> ipv4_t \<Rightarrow> routing_info \<Rightarrow> routing_info" where
  "setARPTable mac ip ri = ri\<lparr>arp_vector := arp_vector ri @ [\<lparr>ae_ip = ip, ae_mac = mac\<rparr>]\<rparr>"

definition setRoutingTable :: "ipv4_t \<Rightarrow> int \<Rightarrow> int \<Rightarrow> routing_info \<Rightarrow> routing_info" where
  "setRoutingTable msk pre port ri =
     ri\<lparr>route_vector := route_vector ri @ [\<lparr>ip_mask = msk, prefix = pre, re_port = port\<rparr>]\<rparr>"

definition getIPAddr :: "routing_info \<Rightarrow> int \<Rightarrow> ipv4_t option" where
  "getIPAddr ri port = map_option ie_ip (find (\<lambda>entry. ie_port entry = port) (ip_vector ri))"

definition getMACAddr :: "routing_info \<Rightarrow> int \<Rightarrow> mac_t option" where
  "getMACAddr ri port = map_option me_mac (find (\<lambda>entry. me_port entry = port) (mac_vector ri))"

definition getARPTable :: "routing_info \<Rightarrow> ipv4_t \<Rightarrow> mac_t option" where
  "getARPTable ri ipv4 = map_option ae_mac (find (\<lambda>entry. ipv4 = ae_ip entry) (arp_vector ri))"

text \<open>The comparison of whole bytes, and of the remaining bits of the next byte. Division
  and remainder of \<^verbatim>\<open>int\<close> truncate towards zero.\<close>

definition whole_bytes_match :: "ipv4_t \<Rightarrow> ipv4_t \<Rightarrow> nat \<Rightarrow> bool result" where
  "whole_bytes_match ip_addr msk n =
     foldE (\<lambda>k matches.
         bindE (indexE ip_addr k) (\<lambda>a.
         bindE (indexE msk k) (\<lambda>b.
           Inr (if a \<noteq> b then False else matches))))
       [0..<n] True"

definition full_mask :: "nat \<Rightarrow> u8" where
  "full_mask remove = push_bit remove (drop_bit remove 0xFF)"

definition route_matches :: "ipv4_t \<Rightarrow> route_entry \<Rightarrow> bool result" where
  "route_matches ip_addr entry =
     bindE (whole_bytes_match ip_addr (ip_mask entry) (nat (prefix entry sdiv 8))) (\<lambda>matches.
       let remaining = prefix entry smod 8 in
       if remaining > 0 then
         (let full = full_mask (nat (8 - remaining));
              k = nat (prefix entry sdiv 8)
          in bindE (indexE ip_addr k) (\<lambda>a.
             bindE (indexE (ip_mask entry) k) (\<lambda>b.
               Inr (if a AND full \<noteq> b AND full then False else matches))))
       else Inr matches)"

fun route_step :: "ipv4_t \<Rightarrow> route_entry \<Rightarrow> int \<times> int \<Rightarrow> (int \<times> int) result" where
  "route_step ip_addr entry (current_prefix, selected_port) =
     bindE (route_matches ip_addr entry) (\<lambda>matches.
       Inr (if matches \<and> prefix entry > current_prefix
            then (prefix entry, re_port entry)
            else (current_prefix, selected_port)))"

definition getRoutingTable :: "routing_info \<Rightarrow> ipv4_t \<Rightarrow> int result" where
  "getRoutingTable ri ip_addr =
     bindE (foldE (route_step ip_addr) (route_vector ri) (0, 0)) (\<lambda>(_, port). Inr port)"

text \<open>Specification. Bit \<open>i\<close> of an address counts from the most significant bit of its
  first byte; an entry covers an address when their first \<open>prefix\<close> bits agree.\<close>

definition addr_bit :: "ipv4_t \<Rightarrow> nat \<Rightarrow> bool" where
  "addr_bit ip i = bit (ip ! (i div 8)) (7 - i mod 8)"

definition covers :: "route_entry \<Rightarrow> ipv4_t \<Rightarrow> bool" where
  "covers e ip = (\<forall>i \<in> {0..<nat (prefix e)}. addr_bit ip i = addr_bit (ip_mask e) i)"

definition wf_entry :: "route_entry \<Rightarrow> bool" where
  "wf_entry e = (0 \<le> prefix e \<and> prefix e \<le> 32 \<and> length (ip_mask e) = 4)"

section \<open>Matching whole bytes and partial bytes is matching bits\<close>

lemma byte_eq_iff_addr_bits:
  fixes a b :: u8
  shows "a = b \<longleftrightarrow> (\<forall>j<8. bit a (7 - j) = bit b (7 - j))"
proof
  assume bits: "\<forall>j<8. bit a (7 - j) = bit b (7 - j)"
  show "a = b"
  proof (rule bit_word_eqI)
    fix n assume "n < LENGTH(8)"
    then have "7 - n < 8" "7 - (7 - n) = n" by simp_all
    with bits show "bit a n = bit b n" by metis
  qed
qed simp

lemma bit_full_mask: "r \<le> 8 \<Longrightarrow> bit (full_mask r) n \<longleftrightarrow> r \<le> n \<and> n < 8"
proof -
  have eq: "(0xFF :: u8) = mask 8" by (simp add: mask_eq_exp_minus_1)
  show "bit (full_mask r) n \<longleftrightarrow> r \<le> n \<and> n < 8"
    unfolding full_mask_def eq bit_push_bit_iff bit_drop_bit_eq comp_def bit_mask_iff by auto
qed

lemma masked_eq_iff_addr_bits:
  fixes a b :: u8
  assumes "0 < r" and "r < 8"
  shows "a AND full_mask (8 - r) = b AND full_mask (8 - r) \<longleftrightarrow>
    (\<forall>j<r. bit a (7 - j) = bit b (7 - j))"
proof
  assume eq: "a AND full_mask (8 - r) = b AND full_mask (8 - r)"
  show "\<forall>j<r. bit a (7 - j) = bit b (7 - j)"
  proof (intro allI impI)
    fix j assume "j < r"
    then have "bit (full_mask (8 - r)) (7 - j)" using assms by (auto simp: bit_full_mask)
    then show "bit a (7 - j) = bit b (7 - j)"
      using arg_cong [OF eq, of "\<lambda>w. bit w (7 - j)"] by (simp add: bit_and_iff)
  qed
next
  assume bits: "\<forall>j<r. bit a (7 - j) = bit b (7 - j)"
  show "a AND full_mask (8 - r) = b AND full_mask (8 - r)"
  proof (rule bit_word_eqI)
    fix n assume "n < LENGTH(8)"
    moreover from this have "8 - r \<le> n \<Longrightarrow> 7 - n < r \<and> 7 - (7 - n) = n"
      using assms by auto
    ultimately show "bit (a AND full_mask (8 - r)) n = bit (b AND full_mask (8 - r)) n"
      using bits by (auto simp: bit_and_iff bit_full_mask)
  qed
qed

lemma whole_bytes_match_eq:
  assumes "n \<le> length ip" and "n \<le> length msk"
  shows "whole_bytes_match ip msk n = Inr (\<forall>k<n. ip ! k = msk ! k)"
  using assms
proof (induction n)
  case 0
  then show ?case by (simp add: whole_bytes_match_def)
next
  case (Suc n)
  then show ?case
    by (auto simp: whole_bytes_match_def foldE_append less_Suc_eq)
qed

lemma all_less_mult8_add:
  "(\<forall>i<8 * n + r. P i) \<longleftrightarrow> (\<forall>k<n. \<forall>j<8. P (8 * k + j)) \<and> (\<forall>j<r. P (8 * n + j))" for n r :: nat
proof (intro iffI conjI allI impI)
  fix k j :: nat assume "\<forall>i<8 * n + r. P i" "k < n" "j < 8"
  moreover from this have "8 * k + j < 8 * n + r" by linarith
  ultimately show "P (8 * k + j)" by blast
next
  fix i assume all: "(\<forall>k<n. \<forall>j<8. P (8 * k + j)) \<and> (\<forall>j<r. P (8 * n + j))" and i: "i < 8 * n + r"
  show "P i"
  proof (cases "i < 8 * n")
    case True
    then have "i div 8 < n" "i mod 8 < 8" by (simp_all add: less_mult_imp_div_less mult.commute)
    then have "P (8 * (i div 8) + i mod 8)" using all by blast
    then show ?thesis by simp
  next
    case False
    with i have "P (8 * n + (i - 8 * n))" using all by (metis le_add_diff_inverse nat_add_left_cancel_less not_less)
    with False show ?thesis by simp
  qed
qed auto

lemma route_matches_covers:
  assumes "wf_entry e" and "length ip = 4"
  shows "route_matches ip e = Inr (covers e ip)"
proof -
  let ?n = "nat (prefix e) div 8" and ?r = "nat (prefix e) mod 8"
  from assms have p: "0 \<le> prefix e" "prefix e \<le> 32" "length (ip_mask e) = 4"
    by (simp_all add: wf_entry_def)
  have sd: "nat (prefix e sdiv 8) = ?n" "prefix e smod 8 = int ?r"
    using p by (cases "prefix e = 0"; simp add: signed_divide_int_def signed_modulo_int_def
        nat_div_distrib zmod_int)+
  have n: "?n \<le> 4" "0 < ?r \<Longrightarrow> ?n < 4"
    using p div_mult_mod_eq [of "nat (prefix e)" 8] by linarith+
  have whole: "whole_bytes_match ip (ip_mask e) ?n = Inr (\<forall>k<?n. ip ! k = ip_mask e ! k)"
    using n p assms(2) by (intro whole_bytes_match_eq) simp_all
  have bits: "(\<forall>k<?n. ip ! k = ip_mask e ! k) \<longleftrightarrow>
      (\<forall>k<?n. \<forall>j<8. addr_bit ip (8 * k + j) = addr_bit (ip_mask e) (8 * k + j))"
    by (simp add: byte_eq_iff_addr_bits addr_bit_def)
  have covers: "covers e ip \<longleftrightarrow> (\<forall>k<?n. ip ! k = ip_mask e ! k) \<and>
      (\<forall>j<?r. bit (ip ! ?n) (7 - j) = bit (ip_mask e ! ?n) (7 - j))"
  proof -
    have "covers e ip \<longleftrightarrow> (\<forall>i<8 * ?n + ?r. addr_bit ip i = addr_bit (ip_mask e) i)"
      by (simp add: covers_def Ball_def)
    also have "\<dots> \<longleftrightarrow> (\<forall>k<?n. ip ! k = ip_mask e ! k) \<and>
        (\<forall>j<?r. addr_bit ip (8 * ?n + j) = addr_bit (ip_mask e) (8 * ?n + j))"
      unfolding all_less_mult8_add bits ..
    finally show ?thesis by (auto simp: addr_bit_def)
  qed
  show ?thesis
  proof (cases "?r = 0")
    case True
    then show ?thesis
      by (simp add: route_matches_def sd whole covers Let_def)
  next
    case False
    then have rem: "nat (8 - int ?r) = 8 - ?r" by simp
    from False masked_eq_iff_addr_bits [of ?r "ip ! ?n" "ip_mask e ! ?n"] show ?thesis
      using n p assms(2) by (auto simp: route_matches_def sd whole covers Let_def rem)
  qed
qed

section \<open>Longest prefix\<close>

text \<open>The scan keeps the first of the longest covering prefixes seen so far.\<close>

definition best_of :: "ipv4_t \<Rightarrow> route_entry list \<Rightarrow> int \<times> int \<Rightarrow> bool" where
  "best_of ip es st \<longleftrightarrow>
     (st = (0, 0) \<and> (\<forall>e \<in> set es. covers e ip \<longrightarrow> prefix e = 0)) \<or>
     (\<exists>xs e ys. es = xs @ e # ys \<and> covers e ip \<and> 0 < prefix e \<and> st = (prefix e, re_port e) \<and>
        (\<forall>f \<in> set xs. covers f ip \<longrightarrow> prefix f < prefix e) \<and>
        (\<forall>f \<in> set ys. covers f ip \<longrightarrow> prefix f \<le> prefix e))"

lemma best_of_snoc:
  assumes "best_of ip es (cur, port)" and "0 \<le> prefix e"
  shows "best_of ip (es @ [e])
    (if covers e ip \<and> prefix e > cur then (prefix e, re_port e) else (cur, port))"
proof -
  have bound: "\<forall>f \<in> set es. covers f ip \<longrightarrow> prefix f \<le> cur" "0 \<le> cur"
    using assms(1) by (auto simp: best_of_def less_le_not_le)
  show ?thesis
  proof (cases "covers e ip \<and> prefix e > cur")
    case True
    with bound have "\<exists>xs e' ys. es @ [e] = xs @ e' # ys \<and> covers e' ip \<and> 0 < prefix e' \<and>
      (prefix e, re_port e) = (prefix e', re_port e') \<and>
      (\<forall>f \<in> set xs. covers f ip \<longrightarrow> prefix f < prefix e') \<and>
      (\<forall>f \<in> set ys. covers f ip \<longrightarrow> prefix f \<le> prefix e')"
      by (intro exI [of _ es] exI [of _ e] exI [of _ "[]"]) force
    with True show ?thesis unfolding best_of_def by auto
  next
    case False
    from assms(1) consider
      (none) "(cur, port) = (0, 0)" "\<forall>f \<in> set es. covers f ip \<longrightarrow> prefix f = 0"
      | (some) xs e' ys where "es = xs @ e' # ys" "covers e' ip" "0 < prefix e'"
        "(cur, port) = (prefix e', re_port e')"
        "\<forall>f \<in> set xs. covers f ip \<longrightarrow> prefix f < prefix e'"
        "\<forall>f \<in> set ys. covers f ip \<longrightarrow> prefix f \<le> prefix e'"
      unfolding best_of_def by blast
    then show ?thesis
    proof cases
      case none
      with False assms(2) show ?thesis by (auto simp: best_of_def)
    next
      case some
      have "\<forall>f \<in> set (ys @ [e]). covers f ip \<longrightarrow> prefix f \<le> prefix e'"
        using some False by auto
      with some False show ?thesis
        unfolding best_of_def by (intro disjI2 exI [of _ xs] exI [of _ e'] exI [of _ "ys @ [e]"]) auto
    qed
  qed
qed

lemma route_scan_best:
  assumes "\<forall>e \<in> set es. wf_entry e" and "length ip = 4"
  shows "\<exists>st. foldE (route_step ip) es (0, 0) = Inr st \<and> best_of ip es st"
  using assms(1)
proof (induction es rule: rev_induct)
  case Nil
  then show ?case by (simp add: best_of_def)
next
  case (snoc e es)
  then obtain cur port where st: "foldE (route_step ip) es (0, 0) = Inr (cur, port)"
    "best_of ip es (cur, port)"
    by auto
  from snoc.prems have e: "wf_entry e" by simp
  have "best_of ip (es @ [e]) (if covers e ip \<and> prefix e > cur then (prefix e, re_port e) else (cur, port))"
    using st(2) e by (intro best_of_snoc) (simp_all add: wf_entry_def)
  then show ?case
    using st(1) route_matches_covers [OF e assms(2)] by (simp add: foldE_append)
qed

section \<open>Tables that only grow\<close>

text \<open>An entry added for a key that has none is found; an existing entry is never changed.\<close>

lemma find_snoc:
  "find P (xs @ [x]) = (case find P xs of None \<Rightarrow> (if P x then Some x else None) | Some y \<Rightarrow> Some y)"
  by (induction xs) auto

section \<open>Properties\<close>

text \<open>C13. On a table whose prefixes lie between 0 and 32, the lookup returns: the port of the
  first entry with the longest prefix among the entries that cover the address bit for bit
  (the byte-wise comparison with a masked last byte is exactly that), and 0 when only
  entries of prefix 0, or none, cover it.\<close>

theorem getRoutingTable_longest_prefix:
  assumes "\<forall>e \<in> set (route_vector ri). wf_entry e" and "length ip = 4"
  shows "\<exists>port. getRoutingTable ri ip = Inr port \<and>
    ((port = 0 \<and> (\<forall>e \<in> set (route_vector ri). covers e ip \<longrightarrow> prefix e = 0)) \<or>
     (\<exists>xs e ys. route_vector ri = xs @ e # ys \<and> covers e ip \<and> 0 < prefix e \<and> port = re_port e \<and>
        (\<forall>f \<in> set xs. covers f ip \<longrightarrow> prefix f < prefix e) \<and>
        (\<forall>f \<in> set ys. covers f ip \<longrightarrow> prefix f \<le> prefix e)))"
proof -
  obtain st where st: "foldE (route_step ip) (route_vector ri) (0, 0) = Inr st"
    "best_of ip (route_vector ri) st"
    using route_scan_best [OF assms] by blast
  then have "getRoutingTable ri ip = Inr (snd st)"
    by (simp add: getRoutingTable_def split: prod.split)
  with st(2) show ?thesis
    unfolding best_of_def by (metis snd_conv)
qed

theorem getRoutingTable_longest_prefix_witness:
  "getRoutingTable (setRoutingTable [10, 0, 0, 0] 8 2 (setRoutingTable [10, 0, 1, 4] 16 1 empty_routing))
     [10, 0, 9, 9] = Inr 1"
proof -
  let ?ri = "setRoutingTable [10, 0, 0, 0] 8 2 (setRoutingTable [10, 0, 1, 4] 16 1 empty_routing)"
  have rv: "route_vector ?ri =
      [\<lparr>ip_mask = [10, 0, 1, 4], prefix = 16, re_port = 1\<rparr>, \<lparr>ip_mask = [10, 0, 0, 0], prefix = 8, re_port = 2\<rparr>]"
    by (simp add: setRoutingTable_def empty_routing_def)
  have wf: "\<forall>e \<in> set (route_vector ?ri). wf_entry e" by (simp add: rv wf_entry_def)
  have cov: "covers \<lparr>ip_mask = [10, 0, 1, 4], prefix = 16, re_port = 1\<rparr> [10, 0, 9, 9]"
    by code_simp
  obtain port where port: "getRoutingTable ?ri [10, 0, 9, 9] = Inr port"
    "(port = 0 \<and> (\<forall>e \<in> set (route_vector ?ri). covers e [10, 0, 9, 9] \<longrightarrow> prefix e = 0)) \<or>
     (\<exists>xs e ys. route_vector ?ri = xs @ e # ys \<and> covers e [10, 0, 9, 9] \<and> 0 < prefix e \<and> port = re_port e \<and>
        (\<forall>f \<in> set xs. covers f [10, 0, 9, 9] \<longrightarrow> prefix f < prefix e) \<and>
        (\<forall>f \<in> set ys. covers f [10, 0, 9, 9] \<longrightarrow> prefix f \<le> prefix e))"
    using getRoutingTable_longest_prefix [OF wf, of "[10, 0, 9, 9]"] by auto
  from port(2) cov have "port = 1"
    unfolding rv by (auto simp: Cons_eq_append_conv)
  with port(1) show ?thesis by simp
qed

text \<open>The first entry of a table wins: setting an address for a key that has one does not
  change what lookups return, setting it for a key without one makes it the answer for that
  key, and no other key's answer changes.\<close>

theorem tables_first_entry_wins:
  "getARPTable (setARPTable mac ip ri) ip' =
     (if ip' = ip \<and> getARPTable ri ip = None then Some mac else getARPTable ri ip') \<and>
   getMACAddr (setMACAddr mac port ri) port' =
     (if port' = port \<and> getMACAddr ri port = None then Some mac else getMACAddr ri port') \<and>
   getIPAddr (setIPAddr ip port ri) port' =
     (if port' = port \<and> getIPAddr ri port = None then Some ip else getIPAddr ri port')"
  by (auto simp: getARPTable_def setARPTable_def getMACAddr_def setMACAddr_def getIPAddr_def
      setIPAddr_def find_snoc split: option.splits)

end
