(* ===== verification/Event_System.thy ===== *)
theory Event_System
  imports Kens_Prelude "HOL-Library.Product_Lexorder"
begin

text \<open>
  \<^verbatim>\<open>E::System\<close> (\<^verbatim>\<open>src/E/E_System.cpp\<close>): the discrete-event scheduler. Messages are queued
  with the virtual time at which they are due; \<^verbatim>\<open>run\<close> takes them in the order of
  (due time, UUID), moves the clock and calls the modules. Timer containers are shared by
  the queue and the table of active timers, and \<^verbatim>\<open>cancelMessage\<close> writes through that
  sharing, so they live in a store: a pointer is the UUID of the container, which is
  unique among the live ones. The virtual functions of the modules and of the runnables are
  a record of callbacks over a client state \<open>'w\<close>; the iteration order of
  \<^verbatim>\<open>std::unordered_set\<close>, which the C++ library leaves open, is a parameter.
\<close>

section \<open>State\<close>

record 'm timer =
  t_from :: ModuleID
  t_to :: ModuleID
  canceled :: bool
  wakeup :: Time
  t_message :: 'm
  t_uuid :: UUID

type_synonym runnable = nat

datatype runnable_state = CREATED | STARTING | READY | RUNNING | WAITING | TERMINATED

record 'm system =
  runnableReady :: "runnable set"
  currentTime :: Time
  registeredModule :: "ModuleID set"
  containers :: "UUID \<rightharpoonup> 'm timer"
  timerQueue :: "UUID list"
  activeTimer :: "UUID \<rightharpoonup> UUID"
  activeUUID :: "UUID set"
  currentUUID :: UUID

definition initial_system :: "'m system" where
  "initial_system = \<lparr>runnableReady = {}, currentTime = 0, registeredModule = {},
     containers = Map.empty, timerQueue = [], activeTimer = Map.empty, activeUUID = {},
     currentUUID = 0\<rparr>"

section \<open>Operations\<close>

text \<open>\<^verbatim>\<open>TimerContainerLess\<close>: \<open>a\<close> has the lower priority.\<close>

definition timerLess :: "'m timer \<Rightarrow> 'm timer \<Rightarrow> bool" where
  "timerLess a b =
     (if wakeup a \<noteq> wakeup b then wakeup a > wakeup b else t_uuid a > t_uuid b)"

text \<open>\<^verbatim>\<open>std::priority_queue::push\<close>, with the elements kept in the order in which
  \<^verbatim>\<open>top\<close> and \<^verbatim>\<open>pop\<close> will give them.\<close>

fun pq_push :: "(UUID \<rightharpoonup> 'm timer) \<Rightarrow> UUID \<Rightarrow> UUID list \<Rightarrow> UUID list" where
  "pq_push h p [] = [p]"
| "pq_push h p (q # qs) =
     (if timerLess (the (h q)) (the (h p)) then p # q # qs else q # pq_push h p qs)"

definition allocateUUID :: "'m system \<Rightarrow> (UUID \<times> 'm system) result" where
  "allocateUUID s =
     (let candidate = currentUUID s + 1;
          s = s\<lparr>currentUUID := candidate\<rparr>
      in if candidate \<notin> activeUUID s
         then Inr (candidate, s\<lparr>activeUUID := insert candidate (activeUUID s)\<rparr>)
         else Inl AssertFail)"

definition deallocateUUID :: "UUID \<Rightarrow> 'm system \<Rightarrow> bool \<times> 'm system" where
  "deallocateUUID candidate s =
     (if candidate \<notin> activeUUID s then (False, s)
      else (True, s\<lparr>activeUUID := activeUUID s - {candidate}\<rparr>))"

definition getCurrentTime :: "'m system \<Rightarrow> Time" where
  "getCurrentTime s = currentTime s"

definition isRegistered :: "ModuleID \<Rightarrow> 'm system \<Rightarrow> bool" where
  "isRegistered m s = (m \<in> registeredModule s)"

definition sendMessage ::
  "ModuleID \<Rightarrow> ModuleID \<Rightarrow> 'm \<Rightarrow> Time \<Rightarrow> 'm system \<Rightarrow> (UUID \<times> 'm system) result" where
  "sendMessage from to msg timeAfter s =
     bindE (allocateUUID s) (\<lambda>(uuid, s).
       let container = \<lparr>t_from = from, t_to = to, canceled = False,
                        wakeup = getCurrentTime s + timeAfter, t_message = msg, t_uuid = uuid\<rparr>;
           h = (containers s)(uuid \<mapsto> container)
       in Inr (uuid, s\<lparr>containers := h,
                       activeTimer := (activeTimer s)(uuid \<mapsto> uuid),
                       timerQueue := pq_push h uuid (timerQueue s)\<rparr>))"

definition cancelMessage :: "UUID \<Rightarrow> 'm system \<Rightarrow> bool \<times> 'm system" where
  "cancelMessage messageID s =
     (case activeTimer s messageID of
        None \<Rightarrow> (False, s)
      | Some p \<Rightarrow>
          (True, s\<lparr>containers := (containers s)(p := map_option (\<lambda>c. c\<lparr>canceled := True\<rparr>) (containers s p))\<rparr>))"

definition addRunnable :: "runnable \<Rightarrow> 'm system \<Rightarrow> 'm system" where
  "addRunnable r s = s\<lparr>runnableReady := insert r (runnableReady s)\<rparr>"

definition delRunnable :: "runnable \<Rightarrow> 'm system \<Rightarrow> 'm system" where
  "delRunnable r s = s\<lparr>runnableReady := runnableReady s - {r}\<rparr>"

section \<open>The callbacks of modules and runnables\<close>

text \<open>\<open>cb_received to from msg\<close> is \<^verbatim>\<open>registeredModule[to]->messageReceived(from, msg)\<close>;
  \<open>cb_finished m to msg response\<close> is \<^verbatim>\<open>registeredModule[m]->messageFinished(to, msg, response)\<close>
  with \<open>None\<close> for the shared \<^verbatim>\<open>EmptyMessage\<close>; \<open>cb_cancelled m to msg\<close> likewise;
  \<open>cb_wake r\<close> is \<^verbatim>\<open>r->wake()\<close>.\<close>

record ('m, 'w) callbacks =
  cb_received :: "ModuleID \<Rightarrow> ModuleID \<Rightarrow> 'm \<Rightarrow> 'w \<times> 'm system \<Rightarrow> ('m option \<times> 'w \<times> 'm system) result"
  cb_finished :: "ModuleID \<Rightarrow> ModuleID \<Rightarrow> 'm \<Rightarrow> 'm option \<Rightarrow> 'w \<times> 'm system \<Rightarrow> ('w \<times> 'm system) result"
  cb_cancelled :: "ModuleID \<Rightarrow> ModuleID \<Rightarrow> 'm \<Rightarrow> 'w \<times> 'm system \<Rightarrow> ('w \<times> 'm system) result"
  cb_wake :: "runnable \<Rightarrow> 'w \<times> 'm system \<Rightarrow> (runnable_state \<times> 'w \<times> 'm system) result"

text \<open>A call through \<^verbatim>\<open>registeredModule[m]\<close>: a missing key gives an empty pointer.\<close>

definition require_module :: "ModuleID \<Rightarrow> 'm system \<Rightarrow> unit result" where
  "require_module m s = (if isRegistered m s then Inr () else Inl NullDeref)"

section \<open>The scheduler loop\<close>

text \<open>One pass over the ready runnables in iteration order.\<close>

definition wake_one ::
  "('m, 'w) callbacks \<Rightarrow> runnable \<Rightarrow> 'w \<times> 'm system \<Rightarrow> ('w \<times> 'm system) result" where
  "wake_one cb r st =
     bindE (cb_wake cb r st) (\<lambda>(next_state, w, s).
       Inr (w, if next_state \<noteq> READY then delRunnable r s else s))"

fun wake_all ::
  "(runnable set \<Rightarrow> runnable list) \<Rightarrow> ('m, 'w) callbacks \<Rightarrow> nat \<Rightarrow> 'w \<times> 'm system
     \<Rightarrow> ('w \<times> 'm system) result option" where
  "wake_all ord cb fuel (w, s) =
     (if runnableReady s = {} then Some (Inr (w, s))
      else case fuel of
        0 \<Rightarrow> None
      | Suc n \<Rightarrow>
          (case foldE (wake_one cb) (ord (runnableReady s)) (w, s) of
             Inl e \<Rightarrow> Some (Inl e)
           | Inr st \<Rightarrow> wake_all ord cb n st))"

text \<open>The removal of a handled container from \<^verbatim>\<open>activeTimer\<close> and \<^verbatim>\<open>activeUUID\<close>, after which
  it is destroyed.\<close>

definition retire :: "UUID \<Rightarrow> 'm system \<Rightarrow> 'm system" where
  "retire p s = s\<lparr>activeTimer := (activeTimer s)(p := None),
                   activeUUID := activeUUID s - {p},
                   containers := (containers s)(p := None)\<rparr>"

text \<open>The three callbacks of a message that is not cancelled.\<close>

definition deliver ::
  "('m, 'w) callbacks \<Rightarrow> 'm timer \<Rightarrow> 'w \<times> 'm system \<Rightarrow> ('w \<times> 'm system) result" where
  "deliver cb c st =
     bindE (require_module (t_to c) (snd st)) (\<lambda>_.
     bindE (cb_received cb (t_to c) (t_from c) (t_message c) st) (\<lambda>(ret, st).
     bindE (require_module (t_from c) (snd st)) (\<lambda>_.
     bindE (cb_finished cb (t_from c) (t_to c) (t_message c) ret st) (\<lambda>st.
       case ret of
         None \<Rightarrow> Inr st
       | Some m \<Rightarrow>
           bindE (require_module (t_to c) (snd st)) (\<lambda>_.
             cb_finished cb (t_to c) (t_to c) m None st)))))"

definition withdraw ::
  "('m, 'w) callbacks \<Rightarrow> 'm timer \<Rightarrow> 'w \<times> 'm system \<Rightarrow> ('w \<times> 'm system) result" where
  "withdraw cb c st =
     bindE (require_module (t_from c) (snd st)) (\<lambda>_.
       cb_cancelled cb (t_from c) (t_to c) (t_message c) st)"

text \<open>The body of the loop once the queue is known to be non-empty and due.\<close>

definition handle_top :: "('m, 'w) callbacks \<Rightarrow> 'w \<times> 'm system \<Rightarrow> ('w \<times> 'm system) result" where
  "handle_top cb st =
     (case st of (w, s) \<Rightarrow>
       (case timerQueue s of
          [] \<Rightarrow> Inl AssertFail
        | p # q \<Rightarrow>
            (case containers s p of
               None \<Rightarrow> Inl AssertFail
             | Some c \<Rightarrow>
                 let s1 = s\<lparr>timerQueue := q, currentTime := wakeup c\<rparr> in
                 bindE (if \<not> canceled c then deliver cb c (w, s1) else withdraw cb c (w, s1))
                   (\<lambda>(w', s'). Inr (w', retire p s')))))"

definition top_wakeup :: "'m system \<Rightarrow> Time" where
  "top_wakeup s = wakeup (the (containers s (hd (timerQueue s))))"

text \<open>\<^verbatim>\<open>System::run\<close>; \<open>None\<close> is a run that has not ended within the fuel.\<close>

fun run ::
  "(runnable set \<Rightarrow> runnable list) \<Rightarrow> ('m, 'w) callbacks \<Rightarrow> nat \<Rightarrow> Time \<Rightarrow> 'w \<times> 'm system
     \<Rightarrow> ('w \<times> 'm system) result option" where
  "run ord cb 0 till st = None"
| "run ord cb (Suc n) till st =
     (case wake_all ord cb n st of
        None \<Rightarrow> None
      | Some (Inl e) \<Rightarrow> Some (Inl e)
      | Some (Inr (w, s)) \<Rightarrow>
          if timerQueue s = [] then Some (Inr (w, s))
          else if till \<noteq> 0 \<and> top_wakeup s > till then Some (Inr (w, s))
          else (case handle_top cb (w, s) of
                  Inl e \<Rightarrow> Some (Inl e)
                | Inr st' \<Rightarrow> run ord cb n till st'))"

declare wake_all.simps [simp del]

text \<open>Modules: \<^verbatim>\<open>addModule\<close> registers the next identifier of a static counter.\<close>

definition addModule :: "ModuleID \<Rightarrow> 'm system \<Rightarrow> (ModuleID \<times> 'm system) result" where
  "addModule next_id s =
     (if next_id \<in> registeredModule s then Inl AssertFail
      else Inr (next_id + 1, s\<lparr>registeredModule := insert next_id (registeredModule s)\<rparr>))"

text \<open>The calls a module or an application makes on the system while it runs.\<close>

datatype 'm sys_op =
    Send ModuleID ModuleID 'm Time
  | Cancel UUID
  | AddReady runnable
  | DelReady runnable

fun exec_op :: "'m sys_op \<Rightarrow> 'm system \<Rightarrow> 'm system result" where
  "exec_op (Send from to m d) s = bindE (sendMessage from to m d s) (\<lambda>(_, s'). Inr s')"
| "exec_op (Cancel u) s = Inr (snd (cancelMessage u s))"
| "exec_op (AddReady r) s = Inr (addRunnable r s)"
| "exec_op (DelReady r) s = Inr (delRunnable r s)"

abbreviation exec_ops :: "'m sys_op list \<Rightarrow> 'm system \<Rightarrow> 'm system result" where
  "exec_ops \<equiv> foldE exec_op"

section \<open>The invariant of the scheduler\<close>

definition tkey :: "(UUID \<rightharpoonup> 'm timer) \<Rightarrow> UUID \<Rightarrow> Time \<times> UUID" where
  "tkey h p = (wakeup (the (h p)), t_uuid (the (h p)))"

text \<open>\<open>F\<close> is the set of containers that have left the queue and are being handled.\<close>

definition sys_inv :: "UUID set \<Rightarrow> 'm system \<Rightarrow> bool" where
  "sys_inv F s \<longleftrightarrow>
     distinct (timerQueue s) \<and> set (timerQueue s) \<inter> F = {} \<and>
     dom (containers s) = set (timerQueue s) \<union> F \<and>
     (\<forall>p c. containers s p = Some c \<longrightarrow> t_uuid c = p) \<and>
     activeTimer s = (\<lambda>p. if p \<in> dom (containers s) then Some p else None) \<and>
     activeUUID s = dom (containers s) \<and>
     sorted (map (tkey (containers s)) (timerQueue s))"

lemma timerLess_iff: "timerLess a b \<longleftrightarrow> (wakeup b, t_uuid b) < (wakeup a, t_uuid a)"
  by (auto simp: timerLess_def less_prod_simp)

lemma set_pq_push [simp]: "set (pq_push h p q) = insert p (set q)"
  by (induction q) auto

lemma distinct_pq_push [simp]: "distinct (pq_push h p q) \<longleftrightarrow> p \<notin> set q \<and> distinct q"
  by (induction q) auto

lemma sorted_pq_push:
  "sorted (map (tkey h) q) \<Longrightarrow> sorted (map (tkey h) (pq_push h p q))"
  by (induction q) (auto simp: timerLess_iff tkey_def not_less)

lemma tkey_upd_other: "p \<notin> set q \<Longrightarrow> map (tkey (h(p := v))) q = map (tkey h) q"
  by (auto simp: tkey_def)

lemma tkey_canceled:
  "map (tkey (h(p := map_option (\<lambda>c. c\<lparr>canceled := b\<rparr>) (h p)))) q = map (tkey h) q"
  by (auto simp: tkey_def option.the_def split: option.split)

lemma initial_system_inv: "sys_inv {} initial_system"
  by (simp add: sys_inv_def initial_system_def)

lemma sendMessage_inv:
  assumes "sys_inv F s" and "sendMessage from to m d s = Inr (u, s')"
  shows "sys_inv F s' \<and> u \<notin> dom (containers s) \<and> u = currentUUID s + 1 \<and>
    currentUUID s' = u \<and> currentTime s' = currentTime s \<and> registeredModule s' = registeredModule s \<and>
    runnableReady s' = runnableReady s \<and>
    containers s' = (containers s)(u \<mapsto> \<lparr>t_from = from, t_to = to, canceled = False,
       wakeup = currentTime s + d, t_message = m, t_uuid = u\<rparr>) \<and>
    set (timerQueue s') = insert u (set (timerQueue s))"
proof -
  let ?c = "\<lparr>t_from = from, t_to = to, canceled = False,
       wakeup = currentTime s + d, t_message = m, t_uuid = u\<rparr>"
  from assms(2) have u: "u = currentUUID s + 1" "u \<notin> activeUUID s"
    and s': "s' = s\<lparr>currentUUID := u, activeUUID := insert u (activeUUID s),
        containers := (containers s)(u \<mapsto> ?c), activeTimer := (activeTimer s)(u \<mapsto> u),
        timerQueue := pq_push ((containers s)(u \<mapsto> ?c)) u (timerQueue s)\<rparr>"
    by (auto simp: sendMessage_def allocateUUID_def getCurrentTime_def Let_def split: if_splits)
  have fresh: "u \<notin> dom (containers s)"
    using u(2) assms(1) by (simp add: sys_inv_def)
  then have "u \<notin> set (timerQueue s)" "u \<notin> F"
    using assms(1) by (auto simp: sys_inv_def)
  then have "sys_inv F s'"
    using assms(1) by (auto simp: sys_inv_def s' sorted_pq_push tkey_upd_other)
  with fresh u s' show ?thesis by simp
qed

lemma sendMessage_effects:
  assumes "sys_inv F s" and "sendMessage src dst m t s = Inr (u, s')"
  shows "sys_inv F s'" "currentUUID s' = currentUUID s + 1" "currentTime s' = currentTime s" "registeredModule s' = registeredModule s"
    "runnableReady s' = runnableReady s"
    "containers s' = (containers s)(currentUUID s + 1 \<mapsto>
      \<lparr>t_from = src, t_to = dst, canceled = False, wakeup = currentTime s + t, t_message = m, t_uuid = currentUUID s + 1\<rparr>)"
  using sendMessage_inv [OF assms] by blast+

lemma sendMessage_ok:
  assumes "sys_inv F s" and "currentUUID s + 1 \<notin> dom (containers s)"
  shows "\<exists>s'. sendMessage from to m d s = Inr (currentUUID s + 1, s')"
  using assms by (simp add: sendMessage_def allocateUUID_def sys_inv_def Let_def)

lemma cancelMessage_inv:
  assumes "sys_inv F s"
  shows "sys_inv F (snd (cancelMessage u s)) \<and> fst (cancelMessage u s) = (u \<in> dom (containers s)) \<and>
    currentUUID (snd (cancelMessage u s)) = currentUUID s \<and>
    currentTime (snd (cancelMessage u s)) = currentTime s \<and>
    registeredModule (snd (cancelMessage u s)) = registeredModule s \<and>
    runnableReady (snd (cancelMessage u s)) = runnableReady s \<and>
    timerQueue (snd (cancelMessage u s)) = timerQueue s \<and>
    containers (snd (cancelMessage u s)) =
      (containers s)(u := map_option (\<lambda>c. c\<lparr>canceled := True\<rparr>) (containers s u))"
proof (cases "u \<in> dom (containers s)")
  case True
  then have act: "activeTimer s u = Some u"
    using assms by (simp add: sys_inv_def)
  have d: "dom ((containers s)(u := map_option (\<lambda>c. c\<lparr>canceled := True\<rparr>) (containers s u))) = dom (containers s)"
    using True by (auto split: if_splits)
  show ?thesis
    using assms True by (auto simp: cancelMessage_def act sys_inv_def tkey_canceled d simp del: fun_upd_apply)
      (auto split: if_splits)
next
  case False
  then have "activeTimer s u = None"
    using assms by (simp add: sys_inv_def)
  with False assms show ?thesis
    by (auto simp: cancelMessage_def)
qed

lemma retire_inv: "sys_inv (insert p F) s \<Longrightarrow> p \<notin> F \<Longrightarrow> sys_inv F (retire p s)"
  by (auto simp: sys_inv_def retire_def tkey_upd_other)

lemma pop_inv:
  assumes "sys_inv F s" and "timerQueue s = p # q"
  shows "sys_inv (insert p F) (s\<lparr>timerQueue := q, currentTime := t\<rparr>)"
  using assms by (auto simp: sys_inv_def)

end
