(* ===== verification/Event_Trace.thy ===== *)
theory Event_Trace
  imports Event_System
begin

text \<open>
  What the scheduler promises about whole runs. A locale states what it relies on from its
  clients (modules and applications touch the scheduler only through its operations); in
  it, every iteration of \<^verbatim>\<open>System::run\<close> is a step of a transition system labelled with the
  message handled and the calls made, and the order, the clock and the bookkeeping of
  messages follow for every run.
\<close>

section \<open>Labelled steps\<close>

datatype 'm label =
    Woke runnable "'m sys_op list"
  | Handled Time UUID bool "'m sys_op list"
    \<comment> \<open>due time, UUID, whether it had been cancelled, calls made by the callbacks\<close>

fun label_ops :: "'m label \<Rightarrow> 'm sys_op list" where
  "label_ops (Woke r ops) = ops"
| "label_ops (Handled t u b ops) = ops"

fun handled_key :: "'m label \<Rightarrow> (Time \<times> UUID) option" where
  "handled_key (Woke r ops) = None"
| "handled_key (Handled t u b ops) = Some (t, u)"

definition handled_keys :: "'m label list \<Rightarrow> (Time \<times> UUID) list" where
  "handled_keys tr = List.map_filter handled_key tr"

text \<open>A send at clock \<open>now\<close> whose due time fits in 64 bits.\<close>

fun op_fits :: "Time \<Rightarrow> 'm sys_op \<Rightarrow> bool" where
  "op_fits now (Send from to m d) = (unat now + unat d < 2 ^ 64)"
| "op_fits now _ = True"

fun is_send :: "'m sys_op \<Rightarrow> bool" where
  "is_send (Send from to m d) = True"
| "is_send _ = False"

definition num_sends :: "'m sys_op list \<Rightarrow> nat" where
  "num_sends ops = length (filter is_send ops)"

inductive sched ::
  "('m, 'w) callbacks \<Rightarrow> 'w \<times> 'm system \<Rightarrow> 'm label \<Rightarrow> 'w \<times> 'm system \<Rightarrow> bool"
  for cb :: "('m, 'w) callbacks" where
  woke: "r \<in> runnableReady s \<Longrightarrow> wake_one cb r (w, s) = Inr (w', s') \<Longrightarrow>
    exec_ops ops s = Inr s' \<Longrightarrow> sched cb (w, s) (Woke r ops) (w', s')"
| handled: "runnableReady s = {} \<Longrightarrow> timerQueue s = p # q \<Longrightarrow> containers s p = Some c \<Longrightarrow>
    handle_top cb (w, s) = Inr (w', s') \<Longrightarrow>
    exec_ops ops (s\<lparr>timerQueue := q, currentTime := wakeup c\<rparr>) = Inr s1 \<Longrightarrow> s' = retire p s1 \<Longrightarrow>
    sched cb (w, s) (Handled (wakeup c) p (canceled c) ops) (w', s')"

inductive_cases sched_wokeE: "sched cb (w, s) (Woke r ops) (w', s')"
inductive_cases sched_handledE: "sched cb (w, s) (Handled t u b ops) (w', s')"

inductive sched_star ::
  "('m, 'w) callbacks \<Rightarrow> 'w \<times> 'm system \<Rightarrow> 'm label list \<Rightarrow> 'w \<times> 'm system \<Rightarrow> bool"
  for cb :: "('m, 'w) callbacks" where
  refl: "sched_star cb st [] st"
| step: "sched cb st l st' \<Longrightarrow> sched_star cb st' tr st'' \<Longrightarrow> sched_star cb st (l # tr) st''"

inductive_cases sched_star_NilE: "sched_star cb st [] st'"
inductive_cases sched_star_ConsE: "sched_star cb st (l # tr) st'"

lemma sched_star_append:
  "sched_star cb st tr st' \<Longrightarrow> sched_star cb st' tr' st'' \<Longrightarrow> sched_star cb st (tr @ tr') st''"
  by (induction rule: sched_star.induct) (auto intro: sched_star.intros)

text \<open>Every call made along a trace is of an allowed kind.\<close>

definition trace_ok :: "('m sys_op \<Rightarrow> bool) \<Rightarrow> 'm label list \<Rightarrow> bool" where
  "trace_ok P tr \<longleftrightarrow> list_all (\<lambda>l. list_all P (label_ops l)) tr"

lemma trace_ok_append: "trace_ok P tr \<Longrightarrow> trace_ok P tr' \<Longrightarrow> trace_ok P (tr @ tr')"
  by (simp add: trace_ok_def)

lemma trace_ok_Cons: "list_all P (label_ops l) \<Longrightarrow> trace_ok P tr \<Longrightarrow> trace_ok P (l # tr)"
  by (simp add: trace_ok_def)

text \<open>Along a trace from a given clock, every send fits.\<close>

fun label_fits :: "Time \<Rightarrow> 'm label \<Rightarrow> bool" where
  "label_fits now (Woke r ops) = list_all (op_fits now) ops"
| "label_fits now (Handled t u b ops) = list_all (op_fits t) ops"

fun clock_after :: "Time \<Rightarrow> 'm label \<Rightarrow> Time" where
  "clock_after now (Woke r ops) = now"
| "clock_after now (Handled t u b ops) = t"

fun trace_fits :: "Time \<Rightarrow> 'm label list \<Rightarrow> bool" where
  "trace_fits now [] = True"
| "trace_fits now (l # tr) = (label_fits now l \<and> trace_fits (clock_after now l) tr)"

definition trace_sends :: "'m label list \<Rightarrow> nat" where
  "trace_sends tr = sum_list (map (num_sends \<circ> label_ops) tr)"

section \<open>One call\<close>

text \<open>\<open>evolves s s'\<close>: nothing that was scheduled is lost or altered, except that it may have
  been cancelled; the clock and the modules are the same.\<close>

definition evolves :: "'m system \<Rightarrow> 'm system \<Rightarrow> bool" where
  "evolves s s' \<longleftrightarrow>
     currentTime s' = currentTime s \<and> registeredModule s' = registeredModule s \<and>
     set (timerQueue s) \<subseteq> set (timerQueue s') \<and>
     (\<forall>p c. containers s p = Some c \<longrightarrow>
        (\<exists>b. (canceled c \<longrightarrow> b) \<and> containers s' p = Some (c\<lparr>canceled := b\<rparr>)))"

lemma evolves_refl [simp]: "evolves s s"
  by (auto simp: evolves_def intro!: exI [of _ "canceled c" for c])

lemma ready_irrelevant [simp]:
  "sys_inv F (s\<lparr>runnableReady := R\<rparr>) = sys_inv F s" "evolves s (s\<lparr>runnableReady := R\<rparr>)"
  by (auto simp: sys_inv_def evolves_def intro!: exI [of _ "canceled c" for c])

lemma evolvesD:
  "evolves s s' \<Longrightarrow> containers s p = Some c \<Longrightarrow>
     \<exists>b. (canceled c \<longrightarrow> b) \<and> containers s' p = Some (c\<lparr>canceled := b\<rparr>)"
  unfolding evolves_def by blast

lemma evolves_trans:
  assumes "evolves s s'" and "evolves s' s''"
  shows "evolves s s''"
proof -
  have "\<exists>b. (canceled c \<longrightarrow> b) \<and> containers s'' p = Some (c\<lparr>canceled := b\<rparr>)"
    if "containers s p = Some c" for p c
  proof -
    from assms(1) that obtain b where b: "canceled c \<longrightarrow> b" "containers s' p = Some (c\<lparr>canceled := b\<rparr>)"
      by (blast dest: evolvesD)
    with assms(2) obtain b' where "b \<longrightarrow> b'" "containers s'' p = Some (c\<lparr>canceled := b'\<rparr>)"
      using evolvesD [OF assms(2) b(2)] by auto
    with b show ?thesis by blast
  qed
  with assms show ?thesis by (auto simp: evolves_def)
qed

lemma exec_op_inv:
  assumes "sys_inv F s" and "exec_op x s = Inr s'"
  shows "sys_inv F s' \<and> evolves s s'"
proof (cases x)
  case (Send src dst m d)
  with assms(2) obtain u where u: "sendMessage src dst m d s = Inr (u, s')"
    by (auto simp: result_simps)
  from sendMessage_inv [OF assms(1) u] show ?thesis
    by (auto simp: evolves_def dom_def intro!: exI [of _ "canceled c" for c])
next
  case (Cancel u)
  with assms(2) have s': "s' = snd (cancelMessage u s)" by simp
  note inv = cancelMessage_inv [OF assms(1), of u]
  have "\<exists>b. (canceled c \<longrightarrow> b) \<and> containers s' p = Some (c\<lparr>canceled := b\<rparr>)"
    if "containers s p = Some c" for p c
    using inv that by (intro exI [of _ "canceled c \<or> p = u"]) (auto simp: s')
  with inv show ?thesis by (auto simp: s' evolves_def)
next
  case (AddReady r)
  with assms show ?thesis by (auto simp: addRunnable_def)
next
  case (DelReady r)
  with assms show ?thesis by (auto simp: delRunnable_def)
qed

lemma exec_ops_inv:
  assumes "sys_inv F s" and "exec_ops ops s = Inr s'"
  shows "sys_inv F s' \<and> evolves s s'"
  using assms
proof (induction ops arbitrary: s)
  case Nil
  then show ?case by simp
next
  case (Cons x ops)
  from Cons.prems(2) obtain s1 where s1: "exec_op x s = Inr s1" "exec_ops ops s1 = Inr s'"
    by (auto simp: result_simps)
  with exec_op_inv [OF Cons.prems(1) s1(1)] Cons.IH [of s1] show ?case
    by (blast intro: evolves_trans)
qed

section \<open>What a handler does to the scheduler\<close>

text \<open>\<open>emits P s s'\<close>: a sequence of calls, each one allowed by \<open>P\<close>, leads from \<open>s\<close> to \<open>s'\<close>.\<close>

definition emits :: "('m sys_op \<Rightarrow> bool) \<Rightarrow> 'm system \<Rightarrow> 'm system \<Rightarrow> bool" where
  "emits P s s' \<longleftrightarrow> (\<exists>ops. list_all P ops \<and> exec_ops ops s = Inr s')"

named_theorems emits_intros \<open>effects of handlers on the scheduler\<close>

lemma emits_refl [simp, emits_intros]: "emits P s s"
  unfolding emits_def by (rule exI [of _ "[]"]) simp

lemma emits_trans: "emits P s s1 \<Longrightarrow> emits P s1 s2 \<Longrightarrow> emits P s s2"
  unfolding emits_def by (metis bindE_Inr foldE_append list_all_append)

lemma emits_mono: "emits P s s' \<Longrightarrow> (\<And>x. P x \<Longrightarrow> Q x) \<Longrightarrow> emits Q s s'"
  unfolding emits_def by (metis list_all_iff)

lemma emits_op: "exec_op x s = Inr s' \<Longrightarrow> P x \<Longrightarrow> emits P s s'"
  unfolding emits_def by (rule exI [of _ "[x]"]) simp

lemma emits_addRunnable [emits_intros]: "P (AddReady r) \<Longrightarrow> emits P s (addRunnable r s)"
  by (rule emits_op [of "AddReady r"]) simp_all

lemma emits_delRunnable [emits_intros]: "P (DelReady r) \<Longrightarrow> emits P s (delRunnable r s)"
  by (rule emits_op [of "DelReady r"]) simp_all

lemma emits_ops: "emits P s s' \<Longrightarrow> \<exists>ops. exec_ops ops s = Inr s'"
  unfolding emits_def by blast

text \<open>A loop whose body emits such calls emits such calls.\<close>

lemma foldE_emits:
  assumes "foldE f xs st = Inr st'"
    and "\<And>x st st'. x \<in> set xs \<Longrightarrow> f x st = Inr st' \<Longrightarrow> emits P (sys st) (sys st')"
  shows "emits P (sys st) (sys st')"
  using assms
proof (induction xs arbitrary: st)
  case (Cons x xs)
  from Cons.prems(1) obtain st1 where st1: "f x st = Inr st1" "foldE f xs st1 = Inr st'"
    by (auto simp: result_simps)
  have "emits P (sys st) (sys st1)" by (rule Cons.prems(2) [OF _ st1(1)]) simp
  moreover have "emits P (sys st1) (sys st')"
    by (rule Cons.IH [OF st1(2)]) (rule Cons.prems(2), simp_all)
  ultimately show ?case by (rule emits_trans)
qed simp

lemma emits_inv: "emits P s s' \<Longrightarrow> sys_inv F s \<Longrightarrow> sys_inv F s' \<and> evolves s s'"
  unfolding emits_def by (blast dest: exec_ops_inv)

section \<open>What the scheduler relies on\<close>

text \<open>The iteration order of the hash set enumerates it.\<close>

definition enumerates :: "('a set \<Rightarrow> 'a list) \<Rightarrow> bool" where
  "enumerates ord \<longleftrightarrow> (\<forall>A. finite A \<longrightarrow> set (ord A) = A \<and> distinct (ord A))"

text \<open>A callback changes the system by calls of its operations only, each of a kind that
  \<open>ok\<close> allows; a woken runnable in particular does not make another runnable ready.\<close>

locale system_client =
  fixes cb :: "('m, 'w) callbacks" and ok :: "'m sys_op \<Rightarrow> bool"
  assumes received_emits: "cb_received cb to from m (w, s) = Inr (ret, w', s') \<Longrightarrow> emits ok s s'"
    and finished_emits: "cb_finished cb md to m resp (w, s) = Inr (w', s') \<Longrightarrow> emits ok s s'"
    and cancelled_emits: "cb_cancelled cb md to m (w, s) = Inr (w', s') \<Longrightarrow> emits ok s s'"
    and wake_emits: "cb_wake cb r (w, s) = Inr (st, w', s') \<Longrightarrow> emits ok s s'"
    and wake_ready: "cb_wake cb r (w, s) = Inr (st, w', s') \<Longrightarrow> runnableReady s' = runnableReady s"
    and del_ok: "ok (DelReady r)"
begin

lemma deliver_emits:
  assumes "deliver cb c (w, s) = Inr (w', s')"
  shows "emits ok s s'"
proof -
  from assms obtain ret w1 s1 w2 s2 where
    r: "cb_received cb (t_to c) (t_from c) (t_message c) (w, s) = Inr (ret, w1, s1)" and
    f: "cb_finished cb (t_from c) (t_to c) (t_message c) ret (w1, s1) = Inr (w2, s2)" and
    z: "(case ret of None \<Rightarrow> Inr (w2, s2)
         | Some m \<Rightarrow> bindE (require_module (t_to c) s2) (\<lambda>_. cb_finished cb (t_to c) (t_to c) m None (w2, s2)))
        = Inr (w', s')"
    by (auto simp: deliver_def result_simps cong: option.case_cong)
  from received_emits [OF r] finished_emits [OF f] have e: "emits ok s s2" by (rule emits_trans)
  show ?thesis
  proof (cases ret)
    case None
    with z e show ?thesis by auto
  next
    case (Some m)
    with z have "cb_finished cb (t_to c) (t_to c) m None (w2, s2) = Inr (w', s')"
      by (simp add: result_simps)
    with e show ?thesis by (blast intro: emits_trans finished_emits)
  qed
qed

lemma withdraw_emits:
  "withdraw cb c (w, s) = Inr (w', s') \<Longrightarrow> emits ok s s'"
  by (auto simp: withdraw_def result_simps dest: cancelled_emits)

lemma wake_oneE:
  assumes "wake_one cb r (w, s) = Inr (w', s')"
  obtains st s1 where "cb_wake cb r (w, s) = Inr (st, w', s1)"
    "s' = (if st \<noteq> READY then delRunnable r s1 else s1)"
  using assms by (auto simp: wake_one_def result_simps)

lemma wake_one_emits:
  assumes "wake_one cb r (w, s) = Inr (w', s')"
  shows "emits ok s s'"
proof -
  obtain st s1 where
    "cb_wake cb r (w, s) = Inr (st, w', s1)" "s' = (if st \<noteq> READY then delRunnable r s1 else s1)"
    using wake_oneE [OF assms] by blast
  then show ?thesis
    by (auto intro: emits_trans wake_emits emits_delRunnable del_ok)
qed

lemma wake_one_ready:
  assumes "wake_one cb r (w, s) = Inr (w', s')"
  shows "runnableReady s' \<subseteq> runnableReady s \<and> runnableReady s - {r} \<subseteq> runnableReady s'"
proof -
  obtain st s1 where s1: "cb_wake cb r (w, s) = Inr (st, w', s1)"
    "s' = (if st \<noteq> READY then delRunnable r s1 else s1)"
    using wake_oneE [OF assms] by blast
  from wake_ready [OF s1(1)] s1(2) show ?thesis by (auto simp: delRunnable_def)
qed

text \<open>So is every wake-up of a pass over the ready runnables.\<close>

lemma wake_pass_sched:
  assumes "foldE (wake_one cb) rs (w, s) = Inr st'" and "distinct rs" and "set rs \<subseteq> runnableReady s"
  shows "\<exists>tr. sched_star cb (w, s) tr st' \<and> trace_ok ok tr \<and> runnableReady (snd st') \<subseteq> runnableReady s"
  using assms
proof (induction rs arbitrary: w s)
  case Nil
  then show ?case by (auto simp: trace_ok_def intro: sched_star.refl)
next
  case (Cons r rs)
  from Cons.prems(1) obtain w1 s1 where one: "wake_one cb r (w, s) = Inr (w1, s1)"
    and rest: "foldE (wake_one cb) rs (w1, s1) = Inr st'"
    by (auto simp: result_simps)
  from wake_one_emits [OF one] obtain ops where ops: "list_all ok ops" "exec_ops ops s = Inr s1"
    by (auto simp: emits_def)
  then have step: "sched cb (w, s) (Woke r ops) (w1, s1)"
    using one Cons.prems(3) by (intro sched.woke) simp_all
  from wake_one_ready [OF one] have r1: "runnableReady s1 \<subseteq> runnableReady s"
    "set rs \<subseteq> runnableReady s1"
    using Cons.prems(2,3) by auto
  from Cons.IH [OF rest _ r1(2)] Cons.prems(2) obtain tr where
    "sched_star cb (w1, s1) tr st'" "trace_ok ok tr" "runnableReady (snd st') \<subseteq> runnableReady s1"
    by auto
  with step ops r1 show ?case
    by (intro exI [of _ "Woke r ops # tr"]) (auto simp: trace_ok_def intro: sched_star.step)
qed

text \<open>Handling the top of the queue is a step of the transition system.\<close>

lemma handle_top_sched:
  assumes "runnableReady s = {}" and "handle_top cb (w, s) = Inr (w', s')"
  shows "\<exists>l. sched cb (w, s) l (w', s') \<and> list_all ok (label_ops l)"
proof -
  from assms(2) obtain p q c s1 where
    q: "timerQueue s = p # q" and c: "containers s p = Some c" and s': "s' = retire p s1" and
    d: "(if \<not> canceled c then deliver cb c (w, s\<lparr>timerQueue := q, currentTime := wakeup c\<rparr>)
         else withdraw cb c (w, s\<lparr>timerQueue := q, currentTime := wakeup c\<rparr>)) = Inr (w', s1)"
    by (auto simp: handle_top_def Let_def result_simps split: list.splits option.splits)
  from d have "emits ok (s\<lparr>timerQueue := q, currentTime := wakeup c\<rparr>) s1"
    by (auto split: if_splits dest: deliver_emits withdraw_emits)
  then obtain ops where "list_all ok ops" "exec_ops ops (s\<lparr>timerQueue := q, currentTime := wakeup c\<rparr>) = Inr s1"
    by (auto simp: emits_def)
  with sched.handled [OF assms(1) q c assms(2) _ s'] show ?thesis
    by (metis label_ops.simps(2))
qed

lemma wake_all_sched:
  assumes "wake_all ord cb fuel (w, s) = Some (Inr st')" and "enumerates ord" and "finite (runnableReady s)"
  shows "(\<exists>tr. sched_star cb (w, s) tr st' \<and> trace_ok ok tr) \<and> runnableReady (snd st') = {}"
  using assms
proof (induction fuel arbitrary: w s)
  case 0
  then show ?case
    by (auto simp: wake_all.simps [of ord cb 0] trace_ok_def split: if_splits
        intro!: exI [of _ "[]"] sched_star.refl)
next
  case (Suc n)
  show ?case
  proof (cases "runnableReady s = {}")
    case True
    with Suc.prems show ?thesis
      by (auto simp: wake_all.simps [of ord cb "Suc n"] trace_ok_def intro!: exI [of _ "[]"] sched_star.refl)
  next
    case False
    with Suc.prems(1) obtain w1 s1 where
      pass: "foldE (wake_one cb) (ord (runnableReady s)) (w, s) = Inr (w1, s1)" and
      rest: "wake_all ord cb n (w1, s1) = Some (Inr st')"
      by (auto simp: wake_all.simps [of ord cb "Suc n"] split: sum.splits)
    obtain tr where tr: "sched_star cb (w, s) tr (w1, s1)" "trace_ok ok tr" "runnableReady s1 \<subseteq> runnableReady s"
      using wake_pass_sched [OF pass] Suc.prems(2,3) by (auto simp: enumerates_def)
    with Suc.prems(3) have "finite (runnableReady s1)" by (blast intro: finite_subset)
    from Suc.IH [OF rest Suc.prems(2) this] tr show ?thesis
      by (blast intro: sched_star_append trace_ok_append)
  qed
qed

end

text \<open>Whatever runs, the set of ready runnables stays finite.\<close>

lemma exec_ops_finite_ready:
  "exec_ops ops s = Inr s' \<Longrightarrow> finite (runnableReady s) \<Longrightarrow> finite (runnableReady s')"
proof (induction ops arbitrary: s)
  case (Cons x ops)
  from Cons.prems(1) obtain s1 where s1: "exec_op x s = Inr s1" "exec_ops ops s1 = Inr s'"
    by (auto simp: result_simps)
  then have "finite (runnableReady s1)"
    using Cons.prems(2)
    by (cases x) (auto simp: sendMessage_def allocateUUID_def Let_def cancelMessage_def
        addRunnable_def delRunnable_def result_simps split: option.splits if_splits)
  with Cons.IH s1 show ?case by blast
qed simp

lemma sched_finite_ready:
  "sched cb (w, s) l (w', s') \<Longrightarrow> finite (runnableReady s) \<Longrightarrow> finite (runnableReady s')"
  by (erule sched.cases) (auto simp: retire_def dest!: exec_ops_finite_ready)

lemma sched_star_finite_ready:
  "sched_star cb st tr st' \<Longrightarrow> finite (runnableReady (snd st)) \<Longrightarrow> finite (runnableReady (snd st'))"
proof (induction rule: sched_star.induct)
  case (step st l st' tr st'')
  then show ?case by (metis sched_finite_ready prod.collapse)
qed simp

context system_client
begin

lemma run_sched:
  assumes "run ord cb fuel till st = Some (Inr st')" and "enumerates ord"
    and "finite (runnableReady (snd st))"
  shows "(\<exists>tr. sched_star cb st tr st' \<and> trace_ok ok tr) \<and> runnableReady (snd st') = {} \<and>
    (timerQueue (snd st') = [] \<or> till \<noteq> 0 \<and> top_wakeup (snd st') > till)"
  using assms
proof (induction fuel arbitrary: st)
  case 0
  then show ?case by simp
next
  case (Suc n)
  obtain w s where st: "st = (w, s)" by (cases st)
  from Suc.prems(1) st obtain w1 s1 where
    wk: "wake_all ord cb n (w, s) = Some (Inr (w1, s1))" and
    rest: "(if timerQueue s1 = [] then Some (Inr (w1, s1))
          else if till \<noteq> 0 \<and> top_wakeup s1 > till then Some (Inr (w1, s1))
          else (case handle_top cb (w1, s1) of Inl e \<Rightarrow> Some (Inl e)
                | Inr st' \<Rightarrow> run ord cb n till st')) = Some (Inr st')"
    by (auto split: option.splits sum.splits)
  have W: "\<exists>tr. sched_star cb st tr (w1, s1) \<and> trace_ok ok tr" "runnableReady s1 = {}"
    using wake_all_sched [OF wk Suc.prems(2)] Suc.prems(3) st by auto
  show ?case
  proof (cases "timerQueue s1 = [] \<or> till \<noteq> 0 \<and> top_wakeup s1 > till")
    case True
    with rest have "st' = (w1, s1)" by (auto split: if_splits)
    with W True show ?thesis by auto
  next
    case False
    with rest obtain w2 s2 where top: "handle_top cb (w1, s1) = Inr (w2, s2)"
      and run: "run ord cb n till (w2, s2) = Some (Inr st')"
      by (auto split: if_splits sum.splits)
    from handle_top_sched [OF W(2) top] obtain l where
      l: "sched cb (w1, s1) l (w2, s2)" "list_all ok (label_ops l)" by blast
    have "finite (runnableReady s2)" using sched_finite_ready [OF l(1)] W(2) by simp
    with Suc.IH [OF run Suc.prems(2)] obtain tr where "sched_star cb (w2, s2) tr st'" "trace_ok ok tr"
      "runnableReady (snd st') = {}" "timerQueue (snd st') = [] \<or> till \<noteq> 0 \<and> top_wakeup (snd st') > till"
      by auto
    with W l show ?thesis
      by (blast intro: sched_star.step sched_star_append trace_ok_append trace_ok_Cons)
  qed
qed

end

section \<open>Steps keep the invariant and the order\<close>

lemma sched_inv:
  assumes "sched cb (w, s) l (w', s')" and "sys_inv {} s"
  shows "sys_inv {} s'"
  using assms(1)
proof cases
  case (woke r ops)
  with exec_ops_inv [OF assms(2)] show ?thesis by blast
next
  case (handled p q c ops s1)
  have "sys_inv {p} (s\<lparr>timerQueue := q, currentTime := wakeup c\<rparr>)"
    by (rule pop_inv [OF assms(2) handled(3)])
  with handled have "sys_inv {p} s1" by (blast dest: exec_ops_inv)
  then have "sys_inv {} (retire p s1)" by (intro retire_inv) simp_all
  with handled show ?thesis by simp
qed

lemma sched_star_inv: "sched_star cb st tr st' \<Longrightarrow> sys_inv {} (snd st) \<Longrightarrow> sys_inv {} (snd st')"
proof (induction rule: sched_star.induct)
  case (step st l st' tr st'')
  then show ?case by (metis sched_inv prod.collapse)
qed simp

text \<open>\<open>after k s\<close>: everything that is still to come is due after the event \<open>k\<close>.\<close>

definition after :: "Time \<times> UUID \<Rightarrow> 'm system \<Rightarrow> bool" where
  "after k s \<longleftrightarrow> fst k \<le> currentTime s \<and> snd k \<le> currentUUID s \<and>
     (\<forall>p \<in> set (timerQueue s). k < tkey (containers s) p) \<and>
     (\<forall>p \<in> set (timerQueue s). currentTime s \<le> wakeup (the (containers s p))) \<and>
     (\<forall>p \<in> dom (containers s). p \<le> currentUUID s)"

lemma sys_inv_uuid: "sys_inv F s \<Longrightarrow> containers s p = Some c \<Longrightarrow> t_uuid c = p"
  unfolding sys_inv_def by blast

lemma tkey_Some: "sys_inv F s \<Longrightarrow> containers s p = Some c \<Longrightarrow> tkey (containers s) p = (wakeup c, p)"
  by (simp add: tkey_def sys_inv_uuid)

lemma queue_in_dom: "sys_inv F s \<Longrightarrow> p \<in> set (timerQueue s) \<Longrightarrow> p \<in> dom (containers s)"
  by (auto simp: sys_inv_def)

lemma send_after:
  assumes "sys_inv F s" and "after k s" and u: "sendMessage src dst m d s = Inr (u, s')"
    and now: "currentTime s \<le> currentTime s + d" and lt: "currentUUID s < currentUUID s + 1"
  shows "after k s'"
  unfolding after_def
proof (intro conjI ballI)
  note S = sendMessage_inv [OF assms(1) u]
  show "fst k \<le> currentTime s'" using assms(2) S by (simp add: after_def)
  show "snd k \<le> currentUUID s'" using assms(2) S lt by (auto simp: after_def)
  have "fst k \<le> currentTime s + d" "snd k < u" using assms(2) now lt S by (auto simp: after_def)
  then have new: "k < tkey (containers s') u" using S by (cases k) (auto simp: tkey_def less_prod_simp)
  have old: "tkey (containers s') p = tkey (containers s) p" if "p \<noteq> u" for p using S that by (simp add: tkey_def)
  fix p assume p: "p \<in> set (timerQueue s')"
  then show "k < tkey (containers s') p" using assms(2) S new old by (cases "p = u") (auto simp: after_def)
  show "currentTime s' \<le> wakeup (the (containers s' p))" using p assms(2) S now by (cases "p = u") (auto simp: after_def)
next
  note S = sendMessage_inv [OF assms(1) u]
  fix p assume "p \<in> dom (containers s')"
  then have "p = u \<or> p \<le> currentUUID s" using assms(2) S unfolding after_def by auto
  then show "p \<le> currentUUID s'" using S lt by auto
qed

lemma cancel_after:
  assumes "sys_inv F s" and "after k s"
  shows "after k (snd (cancelMessage u s))" (is "after k ?s")
proof -
  note C = cancelMessage_inv [OF assms(1), of u]
  have key: "tkey (containers ?s) p = tkey (containers s) p" "wakeup (the (containers ?s p)) = wakeup (the (containers s p))"
    if "p \<in> dom (containers s)" for p using C that by (auto simp: tkey_def)
  have d: "dom (containers ?s) = dom (containers s)" using C by (auto split: if_splits)
  show ?thesis using assms(2) C key queue_in_dom [OF assms(1)] unfolding after_def d by auto
qed

lemma exec_op_after:
  assumes "sys_inv F s" and "after k s" and "exec_op x s = Inr s'"
    and "op_fits (currentTime s) x" and "unat (currentUUID s) + num_sends [x] < 2 ^ 64"
  shows "after k s' \<and> unat (currentUUID s') = unat (currentUUID s) + num_sends [x]"
proof (cases x)
  case (Send src dst m d)
  with assms(3) obtain u where u: "sendMessage src dst m d s = Inr (u, s')" by (auto simp: result_simps)
  from assms(5) Send have uu: "unat (currentUUID s + 1) = unat (currentUUID s) + 1" by (simp add: num_sends_def unat_word_ariths)
  from assms(4) Send have "currentTime s \<le> currentTime s + d" by (simp add: word_le_nat_alt unat_plus_no_wrap)
  from send_after [OF assms(1,2) u this] uu have "after k s'" by (simp add: word_less_nat_alt)
  then show ?thesis using sendMessage_inv [OF assms(1) u] uu Send by (simp add: num_sends_def)
next
  case (Cancel u)
  with assms(3) cancel_after [OF assms(1,2), of u] cancelMessage_inv [OF assms(1), of u] show ?thesis by (auto simp: num_sends_def)
next
  case (AddReady r)
  with assms show ?thesis by (auto simp: addRunnable_def after_def num_sends_def)
next
  case (DelReady r)
  with assms show ?thesis by (auto simp: delRunnable_def after_def num_sends_def)
qed

lemma exec_ops_after:
  assumes "sys_inv F s" and "after k s" and "exec_ops ops s = Inr s'"
    and "list_all (op_fits (currentTime s)) ops" and "unat (currentUUID s) + num_sends ops < 2 ^ 64"
  shows "after k s' \<and> unat (currentUUID s') = unat (currentUUID s) + num_sends ops"
  using assms
proof (induction ops arbitrary: s)
  case Nil
  then show ?case by (simp add: num_sends_def)
next
  case (Cons x ops)
  from Cons.prems(3) obtain s1 where s1: "exec_op x s = Inr s1" "exec_ops ops s1 = Inr s'"
    by (auto simp: result_simps)
  have n: "num_sends (x # ops) = num_sends [x] + num_sends ops" by (simp add: num_sends_def)
  from exec_op_after [OF Cons.prems(1,2) s1(1)] Cons.prems(4,5) n
  have a: "after k s1" "unat (currentUUID s1) = unat (currentUUID s) + num_sends [x]" by auto
  from exec_op_inv [OF Cons.prems(1) s1(1)]
  have i: "sys_inv F s1" "currentTime s1 = currentTime s" by (auto simp: evolves_def)
  from Cons.IH [OF i(1) a(1) s1(2)] Cons.prems(4,5) i(2) a(2) n show ?case by auto
qed

text \<open>One step: the event handled comes after \<open>k\<close>, and everything left comes after it.\<close>

lemma sched_after:
  assumes "sched cb (w, s) l (w', s')" and "sys_inv {} s" and "after k s"
    and "label_fits (currentTime s) l" and "unat (currentUUID s) + num_sends (label_ops l) < 2 ^ 64"
  shows "unat (currentUUID s') = unat (currentUUID s) + num_sends (label_ops l) \<and>
    currentTime s' = clock_after (currentTime s) l \<and> currentTime s \<le> currentTime s' \<and>
    (case handled_key l of None \<Rightarrow> after k s' | Some k' \<Rightarrow> k < k' \<and> after k' s')"
  using assms(1)
proof cases
  case (woke r ops)
  with exec_ops_after [OF assms(2,3)] exec_ops_inv [OF assms(2)] assms(4,5) show ?thesis
    by (auto simp: evolves_def)
next
  case (handled p q c ops s1)
  let ?s0 = "s\<lparr>timerQueue := q, currentTime := wakeup c\<rparr>"
  have key: "tkey (containers s) p = (wakeup c, p)" by (rule tkey_Some [OF assms(2) handled(4)])
  have i0: "sys_inv {p} ?s0" by (rule pop_inv [OF assms(2) handled(3)])
  have queue: "distinct (p # q)" "sorted (map (tkey (containers s)) (p # q))"
    using assms(2) handled(3) by (auto simp: sys_inv_def)
  have less: "(wakeup c, p) < tkey (containers s) x" if x: "x \<in> set q" for x
  proof -
    obtain d where d: "containers s x = Some d"
      using queue_in_dom [OF assms(2), of x] x handled(3) by auto
    with x queue key have "(wakeup c, p) \<le> (wakeup d, x)" "x \<noteq> p"
      using tkey_Some [OF assms(2) d] by auto
    then show ?thesis using tkey_Some [OF assms(2) d] by (auto simp: less_le)
  qed
  have p: "k < (wakeup c, p)" "currentTime s \<le> wakeup c" "p \<le> currentUUID s"
    using assms(3) handled(3,4) key by (auto simp: after_def)
  have a0: "after (wakeup c, p) ?s0"
    using less p assms(3) handled(3) by (auto simp: after_def tkey_def less_prod_simp less_le)
  from handled have ops: "exec_ops ops ?s0 = Inr s1" by simp
  have a1: "after (wakeup c, p) s1" "unat (currentUUID s1) = unat (currentUUID s) + num_sends ops"
    using exec_ops_after [OF i0 a0 ops] assms(4,5) handled(1) by auto
  have i1: "sys_inv {p} s1" "currentTime s1 = wakeup c"
    using exec_ops_inv [OF i0 ops] by (auto simp: evolves_def)
  have "p \<notin> set (timerQueue s1)" using i1 by (auto simp: sys_inv_def)
  then have "after (wakeup c, p) (retire p s1)"
    using a1 by (auto simp: after_def retire_def tkey_def)
  with handled p a1 i1 show ?thesis by (simp add: retire_def)
qed

lemma sched_star_sorted:
  assumes "sched_star cb st tr st'" and "sys_inv {} (snd st)" and "after k (snd st)"
    and "trace_fits (currentTime (snd st)) tr"
    and "unat (currentUUID (snd st)) + trace_sends tr < 2 ^ 64"
  shows "sorted_wrt (<) (k # handled_keys tr) \<and> currentTime (snd st) \<le> currentTime (snd st')"
  using assms
proof (induction arbitrary: k rule: sched_star.induct)
  case (refl st)
  then show ?case by (simp add: handled_keys_def map_filter_simps)
next
  case (step st l st' tr st'')
  obtain w s w' s' where st: "st = (w, s)" "st' = (w', s')" by (cases st, cases st')
  have n: "trace_sends (l # tr) = num_sends (label_ops l) + trace_sends tr"
    by (simp add: trace_sends_def)
  have S: "unat (currentUUID s') = unat (currentUUID s) + num_sends (label_ops l)"
    "currentTime s' = clock_after (currentTime s) l" "currentTime s \<le> currentTime s'"
    "case handled_key l of None \<Rightarrow> after k s' | Some k' \<Rightarrow> k < k' \<and> after k' s'"
    using sched_after [of cb w s l w' s' k] step.hyps(1) step.prems n st by auto
  have i: "sys_inv {} s'" using sched_inv step.hyps(1) step.prems(1) st by fastforce
  have IH: "sorted_wrt (<) (k' # handled_keys tr) \<and> currentTime s' \<le> currentTime (snd st'')"
    if "after k' s'" for k'
    using step.IH [of k'] that i step.prems n S st by simp
  show ?case
  proof (cases "handled_key l")
    case None
    then show ?thesis
      using IH [of k] S st by (auto simp: handled_keys_def map_filter_simps)
  next
    case (Some k')
    then have "k < k'" "after k' s'" using S by auto
    with IH [of k'] Some S st show ?thesis
      by (auto simp: handled_keys_def map_filter_simps)
  qed
qed

section \<open>What becomes of a queued message\<close>

fun no_cancel :: "'m sys_op \<Rightarrow> bool" where
  "no_cancel (Cancel u) = False"
| "no_cancel _ = True"

lemma exec_op_container:
  assumes "sys_inv F s" and "exec_op x s = Inr s'" and "no_cancel x" and "containers s p = Some c"
  shows "containers s' p = Some c"
proof (cases x)
  case (Send src dst m d)
  with assms(2) obtain u where "sendMessage src dst m d s = Inr (u, s')"
    by (auto simp: result_simps)
  from sendMessage_inv [OF assms(1) this] assms(4) show ?thesis by auto
qed (use assms in \<open>auto simp: addRunnable_def delRunnable_def\<close>)

lemma exec_ops_container:
  assumes "sys_inv F s" and "exec_ops ops s = Inr s'" and "list_all no_cancel ops" and "containers s p = Some c"
  shows "containers s' p = Some c"
  using assms
proof (induction ops arbitrary: s)
  case (Cons x ops)
  from Cons.prems(2) obtain s1 where s1: "exec_op x s = Inr s1" "exec_ops ops s1 = Inr s'"
    by (auto simp: result_simps)
  have "sys_inv F s1" "containers s1 p = Some c"
    using exec_op_inv [OF Cons.prems(1) s1(1)] exec_op_container [OF Cons.prems(1) s1(1) _ Cons.prems(4)]
      Cons.prems(3) by auto
  with Cons.IH s1(2) Cons.prems(3) show ?case by simp
qed simp

text \<open>A step handles a queued message, at its due time, or leaves it as it is.\<close>

lemma sched_fate:
  assumes "sched cb (w, s) l (w', s')" and "sys_inv {} s" and "list_all no_cancel (label_ops l)"
    and "p \<in> set (timerQueue s)" and "containers s p = Some c"
  shows "(\<exists>ops. l = Handled (wakeup c) p (canceled c) ops) \<or>
    p \<in> set (timerQueue s') \<and> containers s' p = Some c"
  using assms(1)
proof cases
  case (woke r ops)
  with exec_ops_container [OF assms(2) woke(4) _ assms(5)] exec_ops_inv [OF assms(2) woke(4)] assms(3,4)
  show ?thesis by (auto simp: evolves_def)
next
  case (handled p' q c' ops s1)
  have i0: "sys_inv {p'} (s\<lparr>timerQueue := q, currentTime := wakeup c'\<rparr>)"
    by (rule pop_inv [OF assms(2) handled(3)])
  show ?thesis
  proof (cases "p = p'")
    case True
    with handled assms(5) show ?thesis by auto
  next
    case False
    from exec_ops_container [OF i0 handled(6)] exec_ops_inv [OF i0 handled(6)] False assms(3,4,5) handled
    show ?thesis by (auto simp: evolves_def retire_def)
  qed
qed

lemma sched_star_fate:
  assumes "sched_star cb st tr st'" and "sys_inv {} (snd st)" and "trace_ok no_cancel tr"
    and "p \<in> set (timerQueue (snd st))" and "containers (snd st) p = Some c"
  shows "(\<exists>ops. Handled (wakeup c) p (canceled c) ops \<in> set tr) \<or>
    p \<in> set (timerQueue (snd st')) \<and> containers (snd st') p = Some c"
  using assms
proof (induction rule: sched_star.induct)
  case (step st l st' tr st'')
  obtain w s w' s' where st: "st = (w, s)" "st' = (w', s')" by (cases st, cases st')
  have ok: "list_all no_cancel (label_ops l)" "trace_ok no_cancel tr"
    using step.prems(2) by (simp_all add: trace_ok_def)
  have i: "sys_inv {} (snd st')" using sched_inv [of cb w s l w' s'] step.hyps(1) step.prems(1) st by simp
  from sched_fate [of cb w s l w' s' p c] step.hyps(1) step.prems st ok(1) consider
    ops where "l = Handled (wakeup c) p (canceled c) ops"
    | "p \<in> set (timerQueue (snd st'))" "containers (snd st') p = Some c"
    by auto
  then show ?case
  proof cases
    case 1
    then show ?thesis by auto
  next
    case 2
    with step.IH [OF i ok(2)] show ?thesis by auto
  qed
qed simp

text \<open>The state a simulation starts from: built by registering modules and by the calls of the
  system, before or between runs.\<close>

definition scheduler_ready :: "'m system \<Rightarrow> bool" where
  "scheduler_ready s \<longleftrightarrow> sys_inv {} s \<and> finite (runnableReady s) \<and> after (0, 0) s"

lemma initial_scheduler_ready: "scheduler_ready initial_system"
  using initial_system_inv by (simp add: scheduler_ready_def after_def initial_system_def)

lemma scheduler_ready_ops:
  assumes "scheduler_ready s" and "exec_ops ops s = Inr s'"
    and "list_all (op_fits (currentTime s)) ops" and "unat (currentUUID s) + num_sends ops < 2 ^ 64"
  shows "scheduler_ready s'"
  using assms exec_ops_inv [of "{}" s ops s'] exec_ops_after [of "{}" s "(0, 0)" ops s'] exec_ops_finite_ready
  unfolding scheduler_ready_def by blast

lemma top_wakeup_le:
  assumes "sys_inv F s" and "p \<in> set (timerQueue s)" and "containers s p = Some c"
  shows "top_wakeup s \<le> wakeup c"
proof -
  obtain q where q: "timerQueue s = hd (timerQueue s) # q" using assms(2) by (cases "timerQueue s") auto
  have "sorted (map (tkey (containers s)) (hd (timerQueue s) # q))"
    using assms(1) unfolding sys_inv_def by (subst q [symmetric]) simp
  moreover have "p = hd (timerQueue s) \<or> p \<in> set q" using assms(2) q by (metis set_ConsD)
  ultimately have "tkey (containers s) (hd (timerQueue s)) \<le> tkey (containers s) p" by auto
  then show ?thesis using assms(3) by (auto simp: tkey_def top_wakeup_def)
qed

section \<open>Cancellation\<close>



end
