(* ===== verification/Double_Real.thy ===== *)
theory Double_Real
  imports Complex_Main Kens_Prelude "HOL-Library.Log_Nat"
begin

text \<open>
  \<^verbatim>\<open>Real\<close> is \<^verbatim>\<open>double\<close>: a real number that every arithmetic operation rounds to 53
  significant bits, to nearest with ties to even. The values the simulator computes with
  (transmission delays, drop probabilities, queue positions) are far inside the exponent
  range, so overflow, subnormal numbers and signed zeros are left out. The transmission
  delay of \<^verbatim>\<open>Wire\<close> and \<^verbatim>\<open>Link\<close>, which goes through \<^verbatim>\<open>double\<close> and back to a 64-bit
  integer, is defined with these roundings and shown to be exact integer division.
\<close>

section \<open>Rounding\<close>

definition round_even :: "real \<Rightarrow> int" where
  "round_even r =
     (let f = \<lfloor>r\<rfloor>; d = r - of_int f
      in if d < 1 / 2 then f else if d > 1 / 2 then f + 1 else if even f then f else f + 1)"

text \<open>\<open>binexp x\<close> is the exponent of a positive number: \<open>2 powi e \<le> x < 2 powi (e + 1)\<close>.\<close>

definition binexp :: "real \<Rightarrow> int" where
  "binexp x =
     (if x \<ge> 1 then int (floorlog 2 (nat \<lfloor>x\<rfloor>)) - 1
      else - int (floorlog 2 (nat (\<lceil>1 / x\<rceil> - 1))))"

definition rnd_pos :: "real \<Rightarrow> real" where
  "rnd_pos x = (let u = 2 powi (binexp x - 52) in of_int (round_even (x / u)) * u)"

definition rnd :: "real \<Rightarrow> real" where
  "rnd x = (if x = 0 then 0 else if x > 0 then rnd_pos x else - rnd_pos (- x))"

definition fadd :: "real \<Rightarrow> real \<Rightarrow> real" where "fadd a b = rnd (a + b)"
definition fsub :: "real \<Rightarrow> real \<Rightarrow> real" where "fsub a b = rnd (a - b)"
definition fmul :: "real \<Rightarrow> real \<Rightarrow> real" where "fmul a b = rnd (a * b)"
definition fdiv :: "real \<Rightarrow> real \<Rightarrow> real" where "fdiv a b = rnd (a / b)"
definition fsqrt :: "real \<Rightarrow> real" where "fsqrt a = rnd (sqrt a)"

text \<open>Conversion of a non-negative \<^verbatim>\<open>double\<close> to a 64-bit unsigned integer.\<close>

definition real_to_u64 :: "real \<Rightarrow> u64 result" where
  "real_to_u64 x = (if 0 \<le> x \<and> x < 2 ^ 64 then Inr (of_int \<lfloor>x\<rfloor>) else Inl OutOfRange)"

definition trans_delay :: "nat \<Rightarrow> Size \<Rightarrow> Time result" where
  "trans_delay sz bps =
     (if bps \<noteq> 0
      then real_to_u64 (fdiv (fmul (fmul (rnd (of_nat sz)) 8) 1000000000) (rnd (of_nat (unat bps))))
      else Inr 0)"

section \<open>Properties of rounding\<close>

lemma round_even_of_int [simp]: "round_even (of_int n) = n"
  by (simp add: round_even_def)

lemma round_even_near: "\<bar>of_int (round_even r) - r\<bar> \<le> 1 / 2"
proof -
  have "0 \<le> r - of_int \<lfloor>r\<rfloor>" "r - of_int \<lfloor>r\<rfloor> < 1" by linarith+
  then show ?thesis unfolding round_even_def Let_def abs_le_iff by (simp, linarith?)
qed

lemma binexp_bounds_ge1:
  assumes "1 \<le> x"
  shows "2 powi binexp x \<le> x \<and> x < 2 powi (binexp x + 1) \<and> 0 \<le> binexp x"
proof -
  let ?n = "nat \<lfloor>x\<rfloor>"
  have n: "0 < ?n" using assms by linarith
  have fl: "2 ^ (floorlog 2 ?n - 1) \<le> ?n" "?n < 2 ^ floorlog 2 ?n"
    using floorlog_bounds [of ?n 2] n by auto
  have pos: "0 < floorlog 2 ?n" using n by (simp add: floorlog_def)
  have e: "binexp x = int (floorlog 2 ?n - 1)" "binexp x + 1 = int (floorlog 2 ?n)"
    using assms pos by (simp_all add: binexp_def)
  have "(2::real) ^ (floorlog 2 ?n - 1) \<le> of_nat ?n"
    using fl(1) by (metis of_nat_le_iff of_nat_numeral of_nat_power)
  also have "\<dots> \<le> x" using assms by simp
  finally have "2 powi binexp x \<le> x" by (simp add: e(1))
  moreover have "x < of_nat (?n + 1)" using assms by simp linarith
  moreover have "real (?n + 1) \<le> 2 ^ floorlog 2 ?n"
    using fl(2) by (metis Suc_eq_plus1 Suc_leI of_nat_le_iff of_nat_numeral of_nat_power)
  moreover have "2 powi (binexp x + 1) = (2 ^ floorlog 2 ?n :: real)"
    unfolding e(2) by simp
  ultimately show ?thesis using e(1) by (metis of_nat_0_le_iff order_less_le_trans)
qed

lemma binexp_bounds_lt1:
  assumes "0 < x" and "x < 1"
  shows "2 powi binexp x \<le> x \<and> x < 2 powi (binexp x + 1)"
proof -
  let ?y = "1 / x" and ?m = "nat (\<lceil>1 / x\<rceil> - 1)"
  have y: "1 < ?y" using assms by simp
  then have m: "0 < ?m" by linarith
  have fl: "2 ^ (floorlog 2 ?m - 1) \<le> ?m" "?m < 2 ^ floorlog 2 ?m"
    using floorlog_bounds [of ?m 2] m by auto
  have pos: "0 < floorlog 2 ?m" using m by (simp add: floorlog_def)
  have m_y: "real ?m < ?y" "?y \<le> real (?m + 1)" using y by linarith+
  have hi: "?y \<le> 2 ^ floorlog 2 ?m"
  proof -
    have "real (?m + 1) \<le> 2 ^ floorlog 2 ?m"
      using fl(2) by (metis Suc_eq_plus1 Suc_leI of_nat_le_iff of_nat_numeral of_nat_power)
    with m_y(2) show ?thesis by linarith
  qed
  have lo: "2 ^ (floorlog 2 ?m - 1) < ?y"
  proof -
    have "(2::real) ^ (floorlog 2 ?m - 1) \<le> of_nat ?m"
      using fl(1) by (metis of_nat_le_iff of_nat_numeral of_nat_power)
    with m_y(1) show ?thesis by linarith
  qed
  have e: "binexp x = - int (floorlog 2 ?m)" "binexp x + 1 = - int (floorlog 2 ?m - 1)"
    using assms pos by (simp_all add: binexp_def)
  have "2 powi binexp x = (1 / 2 ^ floorlog 2 ?m :: real)"
    unfolding e(1) by (simp add: power_int_minus inverse_eq_divide)
  moreover have "2 powi (binexp x + 1) = (1 / 2 ^ (floorlog 2 ?m - 1) :: real)"
    unfolding e(2) by (simp add: power_int_minus inverse_eq_divide)
  moreover have "1 / 2 ^ floorlog 2 ?m \<le> x" "x < 1 / 2 ^ (floorlog 2 ?m - 1)"
    using hi lo assms(1) by (simp_all add: field_simps)
  ultimately show ?thesis by simp
qed

lemma binexp_bounds:
  assumes "0 < x"
  shows "2 powi binexp x \<le> x \<and> x < 2 powi (binexp x + 1)"
  using binexp_bounds_ge1 [of x] binexp_bounds_lt1 [of x] assms by (cases "1 \<le> x") auto

text \<open>The relative error is at most \<open>2 powi - 53\<close>.\<close>

lemma rnd_error:
  assumes "0 < x"
  shows "\<bar>rnd x - x\<bar> \<le> x / 2 ^ 53"
proof -
  let ?u = "2 powi (binexp x - 52) :: real"
  have u: "0 < ?u" by simp
  have "rnd x - x = (of_int (round_even (x / ?u)) - x / ?u) * ?u"
    using assms u by (simp add: rnd_def rnd_pos_def Let_def left_diff_distrib)
  then have "\<bar>rnd x - x\<bar> = \<bar>of_int (round_even (x / ?u)) - x / ?u\<bar> * ?u"
    using u by (simp add: abs_mult)
  also have "\<dots> \<le> 1 / 2 * ?u"
    using round_even_near [of "x / ?u"] u by (intro mult_right_mono) simp_all
  also have "\<dots> = 2 powi binexp x / 2 ^ 53"
    by (simp add: power_int_diff)
  also have "\<dots> \<le> x / 2 ^ 53"
    using binexp_bounds [OF assms] by (intro divide_right_mono) simp_all
  finally show ?thesis .
qed

lemma rnd_int:
  assumes "n < 2 ^ 53"
  shows "rnd (of_nat n) = of_nat n"
proof (cases "n = 0")
  case True
  then show ?thesis by (simp add: rnd_def)
next
  case False
  let ?x = "of_nat n :: real" and ?e = "binexp (of_nat n)"
  from False have x: "1 \<le> ?x" by simp
  note b = binexp_bounds_ge1 [OF x]
  have "?e \<le> 52"
  proof (rule ccontr)
    assume "\<not> ?e \<le> 52"
    then have "(2::real) powi 53 \<le> 2 powi ?e" by (intro power_int_increasing) simp_all
    with b have "2 ^ 53 \<le> ?x" by simp
    moreover have "?x < 2 ^ 53" using assms by (metis of_nat_less_iff of_nat_numeral of_nat_power)
    ultimately show False by linarith
  qed
  with b obtain k where k: "52 - ?e = int k" by (metis zero_le_imp_eq_int diff_ge_0_iff_ge)
  then have u: "2 powi (?e - 52) = 1 / (2 ^ k :: real)"
    by (metis inverse_eq_divide minus_diff_eq power_int_minus power_int_of_nat)
  have "?x / 2 powi (?e - 52) = of_int (int n * 2 ^ k)"
    by (simp add: u)
  then have "round_even (?x / 2 powi (?e - 52)) = int n * 2 ^ k"
    by (metis round_even_of_int)
  with False show ?thesis
    by (simp add: rnd_def rnd_pos_def Let_def u)
qed

text \<open>Rounding is monotone, and does not move what is on the safe side of an integer.\<close>

lemma round_even_mono: "r \<le> s \<Longrightarrow> round_even r \<le> round_even s"
proof (cases "\<lfloor>r\<rfloor> = \<lfloor>s\<rfloor>")
  case True
  assume "r \<le> s"
  with True show ?thesis unfolding round_even_def Let_def by simp
next
  case False
  assume "r \<le> s"
  then have "\<lfloor>r\<rfloor> \<le> \<lfloor>s\<rfloor>" by (rule floor_mono)
  with False have "\<lfloor>r\<rfloor> + 1 \<le> \<lfloor>s\<rfloor>" by linarith
  moreover have "round_even r \<le> \<lfloor>r\<rfloor> + 1" "\<lfloor>s\<rfloor> \<le> round_even s"
    unfolding round_even_def Let_def by simp_all
  ultimately show ?thesis by linarith
qed

lemma rnd_pos_bounds:
  assumes "0 < x"
  shows "2 powi binexp x \<le> rnd_pos x \<and> rnd_pos x \<le> 2 powi (binexp x + 1)"
proof -
  let ?e = "binexp x" and ?u = "2 powi (binexp x - 52) :: real"
  have u: "0 < ?u" by simp
  have two: "2 powi ?e = 2 ^ 52 * ?u" "2 powi (?e + 1) = 2 ^ 53 * ?u"
    by (simp_all add: power_int_diff power_int_add)
  have "2 ^ 52 \<le> x / ?u" "x / ?u \<le> 2 ^ 53"
    using binexp_bounds [OF assms] u unfolding two by (simp_all add: field_simps)
  then have "round_even (of_int (2 ^ 52)) \<le> round_even (x / ?u)"
    "round_even (x / ?u) \<le> round_even (of_int (2 ^ 53))"
    by (intro round_even_mono; simp)+
  then have "2 ^ 52 \<le> round_even (x / ?u)" "round_even (x / ?u) \<le> 2 ^ 53"
    by (simp_all only: round_even_of_int)
  then have "(2::real) ^ 52 \<le> of_int (round_even (x / ?u))" "of_int (round_even (x / ?u)) \<le> (2::real) ^ 53"
    by simp_all
  then show ?thesis
    unfolding two rnd_pos_def Let_def using u by (simp add: mult_right_mono)
qed

lemma rnd_pos_mono:
  assumes "0 < x" and "x \<le> y"
  shows "rnd_pos x \<le> rnd_pos y"
proof -
  note bx = binexp_bounds [OF assms(1)] and b_y = binexp_bounds [of y]
  have "(2::real) powi binexp x < 2 powi (binexp y + 1)"
    using bx b_y assms by linarith
  then have e: "binexp x \<le> binexp y"
    by (metis not_le power_int_increasing one_le_numeral zless_imp_add1_zle)
  show ?thesis
  proof (cases "binexp x = binexp y")
    case True
    have "round_even (x / 2 powi (binexp y - 52)) \<le> round_even (y / 2 powi (binexp y - 52))"
      using assms(2) by (intro round_even_mono divide_right_mono) simp_all
    with True show ?thesis by (simp add: rnd_pos_def Let_def mult_right_mono)
  next
    case False
    with e have "(2::real) powi (binexp x + 1) \<le> 2 powi binexp y"
      by (intro power_int_increasing) simp_all
    with rnd_pos_bounds [OF assms(1)] rnd_pos_bounds [of y] assms show ?thesis by linarith
  qed
qed

lemma rnd_pos_gt_0: "0 < x \<Longrightarrow> 0 < rnd_pos x"
  using rnd_pos_bounds [of x] by (meson less_le_trans zero_less_numeral zero_less_power_int)

lemma rnd_0 [simp]: "rnd 0 = 0"
  by (simp add: rnd_def)

lemma rnd_nonneg: "0 \<le> x \<Longrightarrow> 0 \<le> rnd x"
  using rnd_pos_gt_0 [of x] by (auto simp: rnd_def)

lemma rnd_mono: "0 \<le> x \<Longrightarrow> x \<le> y \<Longrightarrow> rnd x \<le> rnd y"
  using rnd_pos_mono [of x y] rnd_nonneg [of y] by (auto simp: rnd_def)

text \<open>Rounding a quotient of two integers never carries it to the next integer.\<close>

lemma floor_rnd_quotient:
  assumes "x < 2 ^ 53" and "0 < b"
  shows "\<lfloor>rnd (of_nat x / of_nat b)\<rfloor> = int (x div b)"
proof (cases "b dvd x")
  case True
  then have "of_nat x / of_nat b = (of_nat (x div b) :: real)"
    by (simp add: real_of_nat_div)
  moreover have "x div b < 2 ^ 53" using assms(1) div_le_dividend [of x b] by (rule order.strict_trans1 [rotated])
  ultimately show ?thesis using rnd_int by simp
next
  case False
  let ?q = "of_nat x / of_nat b :: real" and ?n = "x div b"
  have x: "0 < x" using False by (cases x) auto
  have rem: "0 < x mod b" "x mod b < b" using False assms(2) by (simp_all add: mod_greater_zero_iff_not_dvd)
  have split: "real x = of_nat ?n * of_nat b + of_nat (x mod b)"
    by (metis div_mult_mod_eq of_nat_add of_nat_mult)
  have q: "?q = of_nat ?n + of_nat (x mod b) / of_nat b"
    using assms(2) split by (simp add: field_simps)
  have lo: "of_nat ?n + 1 / of_nat b \<le> ?q"
    unfolding q using rem(1) assms(2) by (simp add: divide_right_mono Suc_leI)
  have hi: "?q \<le> of_nat ?n + 1 - 1 / of_nat b"
  proof -
    have "real (x mod b) \<le> of_nat b - 1" using rem(2) by linarith
    then have "real (x mod b) / of_nat b \<le> (of_nat b - 1) / of_nat b"
      using assms(2) by (intro divide_right_mono) simp_all
    then show ?thesis unfolding q using assms(2) by (simp add: diff_divide_distrib)
  qed
  have "?q / 2 ^ 53 < 1 / of_nat b"
  proof -
    have "real x < 2 ^ 53" using assms(1) by (metis of_nat_less_iff of_nat_numeral of_nat_power)
    then show ?thesis using assms(2) by (simp add: field_simps)
  qed
  moreover have "\<bar>rnd ?q - ?q\<bar> \<le> ?q / 2 ^ 53"
    using x assms(2) by (intro rnd_error) simp
  ultimately have "of_nat ?n < rnd ?q" "rnd ?q < of_nat ?n + 1"
    using lo hi by linarith+
  then show ?thesis by (intro floor_unique) simp_all
qed

lemma trans_delay_eq:
  assumes "sz * 8000000000 < 2 ^ 53" and "bps \<noteq> 0" and "unat bps < 2 ^ 53"
  shows "trans_delay sz bps = Inr (of_nat (sz * 8000000000 div unat bps))"
proof -
  let ?x = "sz * 8000000000" and ?b = "unat bps"
  have b: "0 < ?b" using assms(2) by (simp add: unat_gt_0)
  have i: "rnd (of_nat sz) = of_nat sz" "rnd (of_nat (sz * 8)) = of_nat (sz * 8)"
    "rnd (of_nat ?x) = of_nat ?x" "rnd (of_nat ?b) = of_nat ?b"
    using assms by (intro rnd_int; simp)+
  have "fmul (fmul (rnd (of_nat sz)) 8) 1000000000 = of_nat ?x"
  proof -
    have m8: "fmul (of_nat sz) 8 = of_nat (sz * 8)" using i(2) by (simp add: fmul_def)
    have "(of_nat (sz * 8) :: real) * 1000000000 = of_nat ?x" by simp
    then show ?thesis using i(1,3) m8 by (simp only: fmul_def)
  qed
  then have d: "trans_delay sz bps = real_to_u64 (rnd (of_nat ?x / of_nat ?b))"
    using assms(2) i(4) by (simp add: trans_delay_def fdiv_def)
  have f: "\<lfloor>rnd (of_nat ?x / of_nat ?b)\<rfloor> = int (?x div ?b)"
    using assms(1) b by (rule floor_rnd_quotient)
  have "int (?x div ?b) < 2 ^ 64"
  proof -
    have "?x div ?b < 2 ^ 53" using assms(1) div_le_dividend [of ?x ?b] by linarith
    then have "?x div ?b < 2 ^ 64" by (rule less_trans) simp
    then show ?thesis by (metis of_nat_less_iff of_nat_numeral of_nat_power)
  qed
  then have "\<lfloor>rnd (of_nat ?x / of_nat ?b)\<rfloor> < 2 ^ 64" by (simp only: f)
  then have "rnd (of_nat ?x / of_nat ?b) < 2 ^ 64"
    by (simp only: floor_less_iff of_int_power of_int_numeral)
  moreover have "0 \<le> rnd (of_nat ?x / of_nat ?b)"
  proof -
    have "0 \<le> \<lfloor>rnd (of_nat ?x / of_nat ?b)\<rfloor>" by (simp only: f of_nat_0_le_iff)
    then show ?thesis by (simp only: zero_le_floor)
  qed
  ultimately show ?thesis by (simp only: d real_to_u64_def f) simp
qed

section \<open>Properties\<close>

text \<open>C34. The transmission delay, computed in \<^verbatim>\<open>double\<close> with a rounding at every operation and
  truncated to nanoseconds, is exactly \<open>size * 8 * 10 ^ 9 div bps\<close> for packets below a
  megabyte and speeds below \<open>2 ^ 53\<close> bits per second, and 0 for speed 0.\<close>

theorem trans_delay_exact:
  assumes "sz \<le> 1000000" and "unat bps < 2 ^ 53"
  shows "trans_delay sz bps =
    Inr (if bps = 0 then 0 else of_nat (sz * 8 * 10 ^ 9 div unat bps))"
proof (cases "bps = 0")
  case True
  then show ?thesis by (simp add: trans_delay_def)
next
  case False
  with assms show ?thesis
    using trans_delay_eq [of sz bps] by (simp add: mult.commute)
qed

theorem trans_delay_exact_witness:
  "(1514 :: nat) \<le> 1000000 \<and> trans_delay 1514 1000000000 = Inr 12112"
proof -
  have h: "(1514 :: nat) \<le> 1000000" "unat (1000000000 :: u64) < 2 ^ 53" by simp_all
  show ?thesis using h(1) trans_delay_exact [OF h] by simp
qed

end
