(* ===== verification/Random_Dist.thy ===== *)
theory Random_Dist
  imports Double_Real "HOL-Library.Stream"
begin

text \<open>
  \<^verbatim>\<open>E::RandomDistribution\<close> and its subclasses (\<^verbatim>\<open>src/E/E_RandomDistribution.cpp\<close>). The state
  of an engine is the stream of the canonical variates it will give, numbers of the
  half-open unit interval (\<open>canonical\<close>); a draw takes the head. Arithmetic is that of
  \<^verbatim>\<open>double\<close>. \<^verbatim>\<open>exp\<close> and \<^verbatim>\<open>log\<close>, which the C library only approximates, are parameters of
  \<^verbatim>\<open>ExpDistribution\<close>.
\<close>

section \<open>Definitions\<close>

type_synonym engine = "real stream"

definition canonical :: "engine \<Rightarrow> bool" where
  "canonical g = (\<forall>u \<in> sset g. 0 \<le> u \<and> u < 1)"

text \<open>\<^verbatim>\<open>std::uniform_real_distribution<Real>(a, b)(engine)\<close>.\<close>

definition uniform_real :: "real \<Rightarrow> real \<Rightarrow> engine \<Rightarrow> real \<times> engine" where
  "uniform_real a b g = (fadd (fmul (shd g) (fsub b a)) a, stl g)"

type_synonym distribution = "real \<Rightarrow> real \<Rightarrow> engine \<Rightarrow> real \<times> engine"

definition Uniform_next :: distribution where
  "Uniform_next lo hi g = uniform_real lo hi g"

definition Min_next :: distribution where
  "Min_next lo hi g = (lo, g)"

definition Max_next :: distribution where
  "Max_next lo hi g = (hi, g)"

definition Linear_next :: distribution where
  "Linear_next lo hi g =
     (let (uniform, g') = uniform_real 0 1 g
      in (fadd lo (fmul (fsub hi lo) (fsqrt uniform)), g'))"

definition Exp_next :: "(real \<Rightarrow> real) \<Rightarrow> (real \<Rightarrow> real) \<Rightarrow> real \<Rightarrow> distribution" where
  "Exp_next m_exp m_log averageLocation lo hi g =
     (let lambda = fdiv 1 (fmul (fsub hi lo) averageLocation);
          (d, g') = uniform_real (m_exp (- fdiv 1 averageLocation)) 1 g
      in (min (fadd lo (fdiv (- m_log d) lambda)) hi, g'))"

text \<open>\<^verbatim>\<open>RandomDistribution::distribute\<close>. A zero sum gives infinities in \<^verbatim>\<open>double\<close>, which are
  outside the numbers modelled.\<close>

fun draw_loop :: "distribution \<Rightarrow> nat \<Rightarrow> real \<Rightarrow> real list \<Rightarrow> real \<Rightarrow> engine \<Rightarrow> real list \<times> real \<times> engine" where
  "draw_loop next 0 tot temp acc g = (temp, acc, g)"
| "draw_loop next (Suc n) tot temp acc g =
     (let (val, g') = next 0 tot g
      in draw_loop next n tot (temp @ [val]) (fadd acc val) g')"

definition distribute :: "distribution \<Rightarrow> nat \<Rightarrow> real \<Rightarrow> engine \<Rightarrow> (real list \<times> engine) result" where
  "distribute next n tot g =
     (let (temp, acc, g') = draw_loop next n tot [] 0 g
      in if acc = 0 \<and> n \<noteq> 0 then Inl OutOfRange
         else (let regulation = fdiv tot acc
               in Inr (map (\<lambda>item. fmul item regulation) temp, g')))"

section \<open>Ranges\<close>

lemma canonical_shd: "canonical g \<Longrightarrow> 0 \<le> shd g \<and> shd g < 1"
  by (cases g) (auto simp: canonical_def)

lemma canonical_stl: "canonical g \<Longrightarrow> canonical (stl g)"
  by (cases g) (auto simp: canonical_def)

lemma rnd_1 [simp]: "rnd 1 = 1"
  using rnd_int [of 1] by simp

lemma fsub_int:
  "a \<le> b \<Longrightarrow> b < 2 ^ 53 \<Longrightarrow> fsub (of_nat b) (of_nat a) = of_nat b - of_nat a"
  using rnd_int [of "b - a"] by (simp add: fsub_def of_nat_diff)

text \<open>\<open>a + (b - a) * t\<close> with a factor of the unit interval stays in the interval, roundings
  included.\<close>

lemma interpolate_range:
  assumes "a \<le> b" and "b < 2 ^ 53" and "0 \<le> t" and "t \<le> 1"
  shows "of_nat a \<le> rnd (of_nat a + rnd ((of_nat b - of_nat a) * t)) \<and>
    rnd (of_nat a + rnd ((of_nat b - of_nat a) * t)) \<le> of_nat b"
proof -
  let ?p = "rnd ((of_nat b - of_nat a) * t)"
  have p0: "0 \<le> ?p" using assms(1,3) by (intro rnd_nonneg) simp
  have "(of_nat b - of_nat a) * t \<le> of_nat b - of_nat a"
    using assms(1,3,4) by (intro mult_left_le) simp_all
  then have "?p \<le> rnd (of_nat b - of_nat a)" using assms(1,3) by (intro rnd_mono) simp_all
  then have hi: "of_nat a + ?p \<le> of_nat b"
    using rnd_int [of "b - a"] assms(1,2) by (simp add: of_nat_diff)
  have "rnd (of_nat a) \<le> rnd (of_nat a + ?p)" using p0 by (intro rnd_mono) simp_all
  moreover have "rnd (of_nat a + ?p) \<le> rnd (of_nat b)" using p0 hi by (intro rnd_mono) simp_all
  ultimately show ?thesis using rnd_int [of a] rnd_int [of b] assms by simp
qed

lemma uniform_real_unit:
  assumes "canonical g"
  shows "uniform_real 0 1 g = (rnd (rnd (shd g)), stl g) \<and> 0 \<le> rnd (rnd (shd g)) \<and> rnd (rnd (shd g)) \<le> 1"
proof -
  note u = canonical_shd [OF assms]
  have "0 \<le> rnd (shd g)" "rnd (shd g) \<le> rnd 1"
    using u by (intro rnd_nonneg rnd_mono; simp)+
  moreover from this have "0 \<le> rnd (rnd (shd g))" "rnd (rnd (shd g)) \<le> rnd 1"
    using rnd_nonneg [of "rnd (shd g)"] rnd_mono [of "rnd (shd g)" 1] by simp_all
  ultimately show ?thesis by (simp add: uniform_real_def fadd_def fmul_def fsub_def)
qed

lemma Linear_range:
  assumes "canonical g" and "a \<le> b" and "b < 2 ^ 53"
  shows "\<exists>r. Linear_next (of_nat a) (of_nat b) g = (r, stl g) \<and> of_nat a \<le> r \<and> r \<le> of_nat b"
proof -
  let ?u = "rnd (rnd (shd g))"
  have u: "uniform_real 0 1 g = (?u, stl g)" "0 \<le> ?u" "?u \<le> 1"
    using uniform_real_unit [OF assms(1)] by auto
  have "0 \<le> rnd (sqrt ?u)" "rnd (sqrt ?u) \<le> rnd 1"
    using u(2,3) by (intro rnd_nonneg rnd_mono; simp)+
  then have "of_nat a \<le> rnd (of_nat a + rnd ((of_nat b - of_nat a) * rnd (sqrt ?u))) \<and>
      rnd (of_nat a + rnd ((of_nat b - of_nat a) * rnd (sqrt ?u))) \<le> of_nat b"
    using assms(2,3) by (intro interpolate_range) simp_all
  then show ?thesis
    using fsub_int [OF assms(2,3)] by (simp add: Linear_next_def u fadd_def fmul_def fsqrt_def)
qed

lemma Uniform_range:
  assumes "canonical g" and "a \<le> b" and "b < 2 ^ 53"
  shows "\<exists>r. Uniform_next (of_nat a) (of_nat b) g = (r, stl g) \<and> of_nat a \<le> r \<and> r \<le> of_nat b"
  using interpolate_range [OF assms(2,3), of "shd g"] canonical_shd [OF assms(1)]
  by (simp add: Uniform_next_def uniform_real_def fsub_int [OF assms(2,3)] fadd_def fmul_def
      add.commute mult.commute)

section \<open>Properties\<close>

text \<open>For integer bounds every draw of the uniform and of the linear distribution lies
  between the bounds, both included: the roundings of \<^verbatim>\<open>double\<close> never carry it outside.\<close>

theorem draws_in_range:
  assumes "canonical g" and "a \<le> b" and "b < 2 ^ 53"
  shows "of_nat a \<le> fst (Uniform_next (of_nat a) (of_nat b) g) \<and>
    fst (Uniform_next (of_nat a) (of_nat b) g) \<le> of_nat b \<and>
    of_nat a \<le> fst (Linear_next (of_nat a) (of_nat b) g) \<and>
    fst (Linear_next (of_nat a) (of_nat b) g) \<le> of_nat b"
  using Uniform_range [OF assms] Linear_range [OF assms] by auto

theorem draws_in_range_witness:
  "canonical (sconst 0) \<and> of_nat 5 \<le> fst (Linear_next (of_nat 5) (of_nat 10) (sconst 0))"
proof -
  have c: "canonical (sconst 0)" by (simp add: canonical_def)
  show ?thesis using c draws_in_range [OF c, of 5 10] by simp
qed

end
