(* ===== verification/Messages.thy ===== *)
theory Messages
  imports Event_Trace Packet_Buffer
begin

text \<open>
  The messages the modules of the network exchange through the scheduler: the subclasses of
  \<^verbatim>\<open>Module::MessageBase\<close> in \<^verbatim>\<open>E_Wire.hpp\<close>, \<^verbatim>\<open>E_Link.hpp\<close> and \<^verbatim>\<open>E_Host.hpp\<close>, the parameters of
  system calls, and \<^verbatim>\<open>Module::sendMessage\<close>. \<open>emits\<close> relates a scheduler state to the one a
  handler leaves, through calls of a given shape; it is how the component theories state
  what a handler may do to the scheduler.
\<close>

section \<open>Data\<close>

datatype wire_msg_type = PACKET_TO_PORT | PACKET_FROM_PORT

datatype system_call =
    SOCKET | CLOSE | READ | WRITE | CONNECT | LISTEN | ACCEPT | BIND | GETSOCKNAME | GETPEERNAME
  | NSLEEP | GETTIMEOFDAY

text \<open>The alternatives of the \<^verbatim>\<open>std::variant\<close> of a parameter, in the order of its declaration;
  pointers are addresses, 0 the null pointer.\<close>

datatype param_val =
    Ptr u64 | I8 int | I16 int | I32 int | I64 int | U8 u8 | U16 u16 | U32 u32 | U64 u64

record syscall_param =
  syscallNumber :: system_call
  params :: "param_val list"

text \<open>The values the code puts in a \<^verbatim>\<open>std::any\<close>.\<close>

datatype any_val = AnyUUID UUID | AnyIPv4 ipv4_t | AnySize Size | AnyInt int

datatype msg =
    WireMsg wire_msg_type packet
  | LinkMsg ModuleID     \<comment> \<open>\<^verbatim>\<open>CHECK_QUEUE\<close> for a wire\<close>
  | PacketPass "string option" "string option" packet
  | SyscallMsg int syscall_param
  | ReturnMsg int int
  | TimerMsg string any_val

type_synonym net = "msg system"

definition max_param :: nat where
  "max_param = 3"

definition get_param :: "syscall_param \<Rightarrow> nat \<Rightarrow> param_val result" where
  "get_param param i = indexE (params param) i"

text \<open>\<^verbatim>\<open>std::get<int>\<close>, \<^verbatim>\<open>std::get<uint64_t>\<close> and \<^verbatim>\<open>std::get<void *>\<close>.\<close>

fun get_int :: "param_val \<Rightarrow> int result" where
  "get_int (I32 v) = Inr v"
| "get_int _ = Inl BadCast"

fun get_u64 :: "param_val \<Rightarrow> u64 result" where
  "get_u64 (U64 v) = Inr v"
| "get_u64 _ = Inl BadCast"

fun get_ptr :: "param_val \<Rightarrow> u64 result" where
  "get_ptr (Ptr a) = Inr a"
| "get_ptr _ = Inl BadCast"

section \<open>Sending\<close>

text \<open>\<^verbatim>\<open>Module::sendMessage\<close> of module \<open>self\<close>, for the callers that ignore the UUID; a message to
  itself is one with \<open>to = self\<close>.\<close>

definition post :: "ModuleID \<Rightarrow> ModuleID \<Rightarrow> 'm \<Rightarrow> Time \<Rightarrow> 'm system \<Rightarrow> 'm system result" where
  "post self to m timeAfter s = bindE (sendMessage self to m timeAfter s) (\<lambda>(_, s'). Inr s')"

text \<open>\<^verbatim>\<open>messageFinished\<close> of every module of the network: the response must be the shared empty
  message, and \<^verbatim>\<open>dynamic_cast\<close> of any other response throws.\<close>

definition expect_empty_response :: "'m option \<Rightarrow> unit result" where
  "expect_empty_response response = (case response of None \<Rightarrow> Inr () | Some _ \<Rightarrow> Inl BadCast)"

section \<open>Effects of a send\<close>

lemma emits_post: "post self to m d s = Inr s' \<Longrightarrow> P (Send self to m d) \<Longrightarrow> emits P s s'"
  by (rule emits_op [of "Send self to m d"]) (simp_all add: post_def)

lemma emits_post2:
  "post self to m d s = Inr s1 \<Longrightarrow> post self' to' m' d' s1 = Inr s2 \<Longrightarrow>
   P (Send self to m d) \<Longrightarrow> P (Send self' to' m' d') \<Longrightarrow> emits P s s2"
  by (blast intro: emits_trans emits_post)

lemma post_effect:
  assumes "sys_inv F s" and "post self to m d s = Inr s'"
  shows "sys_inv F s' \<and> evolves s s' \<and> runnableReady s' = runnableReady s \<and>
    currentTime s' = currentTime s \<and> currentUUID s' = currentUUID s + 1 \<and>
    currentUUID s + 1 \<notin> dom (containers s) \<and>
    set (timerQueue s') = insert (currentUUID s + 1) (set (timerQueue s)) \<and>
    containers s' = (containers s)(currentUUID s + 1 \<mapsto>
      \<lparr>t_from = self, t_to = to, canceled = False, wakeup = currentTime s + d, t_message = m,
       t_uuid = currentUUID s + 1\<rparr>)"
proof -
  from assms(2) obtain u where u: "sendMessage self to m d s = Inr (u, s')"
    by (auto simp: post_def result_simps)
  have "evolves s s'"
    using exec_op_inv [OF assms(1), of "Send self to m d" s'] u by simp
  with sendMessage_inv [OF assms(1) u] show ?thesis by auto
qed

lemma post_ok:
  assumes "sys_inv F s" and "currentUUID s + 1 \<notin> dom (containers s)"
  shows "\<exists>s'. post self to m d s = Inr s'"
  using sendMessage_ok [OF assms, of self to m d] by (auto simp: post_def)

end
