(* ===== verification/Wire.thy ===== *)
theory Wire
  imports Messages Double_Real
begin

text \<open>
  \<^verbatim>\<open>E::Wire\<close> (\<^verbatim>\<open>src/Networking/E_Wire.cpp\<close>): a full-duplex cable between two modules with a
  transmission rate and a propagation delay. The two-element arrays are lists of length
  two. The specification is a single server per direction, over the natural numbers;
  the handler is shown to implement it through \<^verbatim>\<open>double\<close> and 64-bit arithmetic.
\<close>

section \<open>Definitions\<close>

record wire =
  connected :: "ModuleID list"
  w_nextAvailable :: "Time list"
  propagationDelay :: Time
  w_bps :: Size
  limit_speed :: bool

definition Wire_new :: "ModuleID \<Rightarrow> ModuleID \<Rightarrow> Time \<Rightarrow> Size \<Rightarrow> bool \<Rightarrow> 'm system \<Rightarrow> wire" where
  "Wire_new left right pd bps limit s =
     \<lparr>connected = [left, right], w_nextAvailable = [getCurrentTime s, getCurrentTime s],
      propagationDelay = pd, w_bps = bps, limit_speed = limit\<rparr>"

definition setSpeedLimit :: "bool \<Rightarrow> wire \<Rightarrow> wire" where
  "setSpeedLimit do_limit w = w\<lparr>limit_speed := do_limit\<rparr>"

definition setWireSpeed :: "Size \<Rightarrow> wire \<Rightarrow> wire" where
  "setWireSpeed bps w = w\<lparr>w_bps := bps\<rparr>"

definition Wire_getWireSpeed :: "wire \<Rightarrow> Size" where
  "Wire_getWireSpeed w = w_bps w"

definition setPropagationDelay :: "Time \<Rightarrow> wire \<Rightarrow> wire" where
  "setPropagationDelay delay w = w\<lparr>propagationDelay := delay\<rparr>"

text \<open>\<open>None\<close> is destination -1, or an end with nothing connected.\<close>

definition wire_destination :: "ModuleID \<Rightarrow> wire \<Rightarrow> nat option" where
  "wire_destination from w =
     (let destination = (if connected w ! 0 = from then Some 1
                         else if connected w ! 1 = from then Some 0 else None)
      in case destination of
           None \<Rightarrow> None
         | Some d \<Rightarrow> if connected w ! d = 0 then None else Some d)"

definition Wire_messageReceived ::
  "ModuleID \<Rightarrow> ModuleID \<Rightarrow> msg \<Rightarrow> wire \<times> net \<Rightarrow> (msg option \<times> wire \<times> net) result" where
  "Wire_messageReceived self from message st =
     (case st of (w, s) \<Rightarrow>
       (case message of
          WireMsg ty packet \<Rightarrow>
            bindE (assertE (ty = PACKET_TO_PORT)) (\<lambda>_.
              case wire_destination from w of
                None \<Rightarrow> Inr (None, w, s)
              | Some d \<Rightarrow>
                  bindE (trans_delay (getSize packet) (w_bps w)) (\<lambda>td.
                    let current_time = getCurrentTime s;
                        available_time = w_nextAvailable w ! d;
                        available_time = (if current_time > available_time then current_time
                                          else available_time) + td;
                        w' = w\<lparr>w_nextAvailable := (w_nextAvailable w)[d := available_time]\<rparr>
                    in bindE (post self (connected w ! d) (WireMsg PACKET_FROM_PORT packet)
                         (if limit_speed w then available_time + propagationDelay w - current_time
                          else propagationDelay w) s) (\<lambda>s'.
                       Inr (None, w', s'))))
        | _ \<Rightarrow> Inl BadCast))"

definition nextSendAvailable :: "ModuleID \<Rightarrow> wire \<Rightarrow> Time result" where
  "nextSendAvailable me w =
     (case wire_destination me w of
        None \<Rightarrow> Inl AssertFail
      | Some d \<Rightarrow> Inr (w_nextAvailable w ! d))"

definition Wire_messageFinished :: "ModuleID \<Rightarrow> 'm \<Rightarrow> 'm option \<Rightarrow> unit result" where
  "Wire_messageFinished to message response = expect_empty_response response"

definition Wire_messageCancelled :: "ModuleID \<Rightarrow> 'm \<Rightarrow> unit result" where
  "Wire_messageCancelled to message = Inr ()"

definition wire_wf :: "wire \<Rightarrow> bool" where
  "wire_wf w \<longleftrightarrow> length (connected w) = 2 \<and> length (w_nextAvailable w) = 2"

section \<open>Specification: one server per direction\<close>

text \<open>\<open>serve pd avail jobs\<close>: jobs (arrival time, service time) served in order; a job leaves
  the server when it is done and is delivered \<open>pd\<close> later.\<close>

fun serve :: "nat \<Rightarrow> nat \<Rightarrow> (nat \<times> nat) list \<Rightarrow> nat list" where
  "serve pd avail [] = []"
| "serve pd avail ((t, td) # jobs) =
     (max t avail + td + pd) # serve pd (max t avail + td) jobs"

text \<open>Packets that arrive at a wire from one end, at given clocks; the result lists the due
  times of the messages that deliver them.\<close>

fun wire_feed ::
  "ModuleID \<Rightarrow> ModuleID \<Rightarrow> (Time \<times> packet) list \<Rightarrow> wire \<times> net \<Rightarrow> (Time list \<times> wire \<times> net) result" where
  "wire_feed self from [] st = Inr ([], st)"
| "wire_feed self from ((t, p) # arrivals) (w, s) =
     bindE (Wire_messageReceived self from (WireMsg PACKET_TO_PORT p) (w, s\<lparr>currentTime := t\<rparr>))
       (\<lambda>(_, w', s').
          let due = wakeup (the (containers s' (currentUUID s')))
          in bindE (wire_feed self from arrivals (w', s')) (\<lambda>(dues, st'). Inr (due # dues, st')))"

section \<open>Facts\<close>

lemma wire_destination_range: "wire_destination from w = Some d \<Longrightarrow> d < 2 \<and> connected w ! d \<noteq> 0"
  by (auto simp: wire_destination_def Let_def split: if_splits option.splits)

lemma wire_destination_upd [simp]:
  "wire_destination from (w\<lparr>w_nextAvailable := x\<rparr>) = wire_destination from w"
  by (simp add: wire_destination_def)

lemma Wire_emits:
  "Wire_messageReceived self from m (w, s) = Inr (ret, w', s') \<Longrightarrow>
   ret = None \<and> emits (\<lambda>x. \<exists>dst p d. x = Send self dst (WireMsg PACKET_FROM_PORT p) d) s s'"
  by (auto simp: Wire_messageReceived_def Let_def result_simps split: msg.splits option.splits
      intro: emits_post)

lemma Wire_wf:
  "Wire_messageReceived self from m (w, s) = Inr (ret, w', s') \<Longrightarrow> wire_wf w \<Longrightarrow>
   wire_wf w' \<and> connected w' = connected w"
  by (auto simp: Wire_messageReceived_def Let_def wire_wf_def result_simps
      split: msg.splits option.splits)

text \<open>One packet: what is scheduled and how the state of the wire moves.\<close>

lemma Wire_forward:
  assumes "wire_wf w" and "wire_destination from w = Some d" and "sys_inv F s"
    and "currentUUID s + 1 \<notin> dom (containers s)"
    and "trans_delay (getSize p) (w_bps w) = Inr td"
  defines "avail \<equiv> max (currentTime s) (w_nextAvailable w ! d) + td"
  shows "\<exists>s'. Wire_messageReceived self from (WireMsg PACKET_TO_PORT p) (w, s) =
      Inr (None, w\<lparr>w_nextAvailable := (w_nextAvailable w)[d := avail]\<rparr>, s') \<and>
    sys_inv F s' \<and> currentUUID s' = currentUUID s + 1 \<and>
    dom (containers s') = insert (currentUUID s + 1) (dom (containers s)) \<and>
    containers s' (currentUUID s + 1) =
      Some \<lparr>t_from = self, t_to = connected w ! d, canceled = False,
        wakeup = (if limit_speed w then avail + propagationDelay w
                  else currentTime s + propagationDelay w),
        t_message = WireMsg PACKET_FROM_PORT p, t_uuid = currentUUID s + 1\<rparr>"
proof -
  let ?delay = "if limit_speed w then avail + propagationDelay w - currentTime s else propagationDelay w"
  obtain s' where s': "post self (connected w ! d) (WireMsg PACKET_FROM_PORT p) ?delay s = Inr s'"
    using post_ok [OF assms(3,4)] by blast
  have m: "(if currentTime s > w_nextAvailable w ! d then currentTime s else w_nextAvailable w ! d)
      = max (currentTime s) (w_nextAvailable w ! d)"
    by (auto simp: max_def)
  have "Wire_messageReceived self from (WireMsg PACKET_TO_PORT p) (w, s) =
      Inr (None, w\<lparr>w_nextAvailable := (w_nextAvailable w)[d := avail]\<rparr>, s')"
    using assms(2,5) s'
    by (cases "limit_speed w") (simp_all add: Wire_messageReceived_def Let_def getCurrentTime_def m avail_def)
  with post_effect [OF assms(3) s'] show ?thesis by auto
qed

text \<open>Reading \<open>max\<close>, \<open>+\<close> on words as numbers.\<close>

lemma unat_max: "unat (max a b) = max (unat a) (unat (b :: 'a::len word))"
  by (simp add: max_def word_le_nat_alt)

lemma length_serve [simp]: "length (serve pd avail jobs) = length jobs"
  by (induction pd avail jobs rule: serve.induct) auto

lemma serve_ge: "x \<in> set (serve pd avail jobs) \<Longrightarrow> avail + pd \<le> x"
  by (induction pd avail jobs rule: serve.induct) auto

lemma serve_after_arrival:
  "i < length jobs \<Longrightarrow> fst (jobs ! i) + snd (jobs ! i) + pd \<le> serve pd avail jobs ! i"
proof (induction pd avail jobs arbitrary: i rule: serve.induct)
  case (2 pd avail t td jobs)
  then show ?case by (cases i) auto
qed simp

lemma serve_head_spaced:
  "j < length jobs \<Longrightarrow> avail + snd (jobs ! j) + pd \<le> serve pd avail jobs ! j"
proof (induction pd avail jobs arbitrary: j rule: serve.induct)
  case (2 pd avail t td jobs)
  show ?case
  proof (cases j)
    case (Suc k)
    with 2 have "max t avail + td + snd (jobs ! k) + pd \<le> serve pd (max t avail + td) jobs ! k" by simp
    with Suc show ?thesis by simp
  qed simp
qed simp

lemma serve_spaced:
  "i < j \<Longrightarrow> j < length jobs \<Longrightarrow> serve pd avail jobs ! i + snd (jobs ! j) \<le> serve pd avail jobs ! j"
proof (induction pd avail jobs arbitrary: i j rule: serve.induct)
  case (2 pd avail t td jobs)
  then obtain j' where j: "j = Suc j'" "j' < length jobs" by (cases j) auto
  show ?case
  proof (cases i)
    case 0
    with serve_head_spaced [OF j(2), of "max t avail + td" pd] j show ?thesis by simp
  next
    case (Suc i')
    with 2 j show ?thesis by simp
  qed
qed simp

text \<open>The transmission time of a packet in nanoseconds.\<close>

definition tx_time :: "Size \<Rightarrow> packet \<Rightarrow> nat" where
  "tx_time bps p = (if bps = 0 then 0 else getSize p * 8000000000 div unat bps)"

lemma trans_delay_tx:
  assumes "getSize p \<le> 1000000" and "unat bps < 2 ^ 53"
  shows "trans_delay (getSize p) bps = Inr (of_nat (tx_time bps p)) \<and>
    unat (of_nat (tx_time bps p) :: u64) = tx_time bps p"
proof -
  have sz: "getSize p * 8000000000 < 2 ^ 53" using assms(1) by simp
  have tx: "tx_time bps p < 2 ^ 53"
  proof (cases "bps = 0")
    case False
    then have "tx_time bps p \<le> getSize p * 8000000000" by (simp add: tx_time_def)
    with sz show ?thesis by (rule le_less_trans [rotated])
  qed (simp add: tx_time_def)
  have "trans_delay (getSize p) bps = Inr (of_nat (tx_time bps p))"
  proof (cases "bps = 0")
    case True
    then show ?thesis by (simp add: tx_time_def trans_delay_def)
  next
    case False
    with trans_delay_eq [OF sz False assms(2)] show ?thesis by (simp add: tx_time_def)
  qed
  moreover have "unat (of_nat (tx_time bps p) :: u64) = tx_time bps p"
    using tx by (simp add: unsigned_of_nat take_bit_eq_mod)
  ultimately show ?thesis by simp
qed

definition wire_jobs :: "wire \<Rightarrow> (Time \<times> packet) list \<Rightarrow> (nat \<times> nat) list" where
  "wire_jobs w arrivals = map (\<lambda>(t, p). (unat t, tx_time (w_bps w) p)) arrivals"

text \<open>UUIDs still to come are fresh.\<close>

definition uuids_below :: "'m system \<Rightarrow> bool" where
  "uuids_below s \<longleftrightarrow> (\<forall>u \<in> dom (containers s). u \<le> currentUUID s)"

lemma uuids_below_fresh:
  assumes "uuids_below s" and "unat (currentUUID s) + 1 < 2 ^ 64"
  shows "currentUUID s + 1 \<notin> dom (containers s)"
proof
  assume "currentUUID s + 1 \<in> dom (containers s)"
  with assms(1) have "unat (currentUUID s + 1) \<le> unat (currentUUID s)"
    by (auto simp: uuids_below_def word_le_nat_alt)
  with assms(2) show False by (simp add: unat_plus_no_wrap)
qed

lemma sys_inv_clock [simp]: "sys_inv F (s\<lparr>currentTime := t\<rparr>) = sys_inv F s"
  by (simp add: sys_inv_def)

text \<open>The handler, packet after packet, computes the specification.\<close>

text \<open>One arrival, with the identifiers and times that follow.\<close>

lemma uuids_below_sent:
  assumes "uuids_below s" and "unat (currentUUID s) + Suc n < 2 ^ 64" and "currentUUID s1 = currentUUID s + 1"
    and "dom (containers s1) = insert (currentUUID s + 1) (dom (containers s))"
  shows "uuids_below s1" "unat (currentUUID s1) + n < 2 ^ 64"
proof -
  have u: "unat (currentUUID s + 1) = unat (currentUUID s) + 1" using assms(2) by (intro trans [OF unat_plus_no_wrap]) simp_all
  then have "currentUUID s \<le> currentUUID s + 1" by (simp add: word_le_nat_alt)
  with assms(1) show "uuids_below s1" unfolding uuids_below_def assms(3,4) by (blast intro: order_trans)
  show "unat (currentUUID s1) + n < 2 ^ 64" using u assms(2,3) by simp
qed

lemma due_no_wrap:
  fixes t now td pd :: u64
  assumes "max (unat t) (unat now) + unat td + unat pd < 2 ^ 64"
  shows "unat (max t now + td) = max (unat t) (unat now) + unat td" "unat (max t now + td + pd) = max (unat t) (unat now) + unat td + unat pd"
proof -
  show a: "unat (max t now + td) = max (unat t) (unat now) + unat td"
    using assms unat_plus_no_wrap [of "max t now" td] by (simp add: unat_max)
  show "unat (max t now + td + pd) = max (unat t) (unat now) + unat td + unat pd"
    using assms a unat_plus_no_wrap [of "max t now + td" pd] by simp
qed

lemma wire_feed_serve:
  assumes "wire_wf w" and "wire_destination from w = Some d" and "limit_speed w"
    and "sys_inv F s" and "uuids_below s" and "unat (currentUUID s) + length arrivals < 2 ^ 64"
    and "unat (w_bps w) < 2 ^ 53" and "\<forall>(t, p) \<in> set arrivals. getSize p \<le> 1000000"
    and "\<forall>x \<in> set (serve (unat (propagationDelay w)) (unat (w_nextAvailable w ! d)) (wire_jobs w arrivals)).
          x < 2 ^ 64"
  shows "\<exists>dues st'. wire_feed self from arrivals (w, s) = Inr (dues, st') \<and>
    map unat dues = serve (unat (propagationDelay w)) (unat (w_nextAvailable w ! d)) (wire_jobs w arrivals)"
  using assms
proof (induction arrivals arbitrary: w s)
  case Nil
  then show ?case by (simp add: wire_jobs_def)
next
  case (Cons a arrivals)
  obtain t p where a: "a = (t, p)" by (cases a)
  let ?s = "s\<lparr>currentTime := t\<rparr>" and ?td = "of_nat (tx_time (w_bps w) p) :: u64"
  let ?avail = "max t (w_nextAvailable w ! d) + ?td"
  let ?w = "w\<lparr>w_nextAvailable := (w_nextAvailable w)[d := ?avail]\<rparr>"
  let ?n = "max (unat t) (unat (w_nextAvailable w ! d)) + tx_time (w_bps w) p"
  have td: "trans_delay (getSize p) (w_bps w) = Inr ?td" "unat ?td = tx_time (w_bps w) p"
    using trans_delay_tx Cons.prems(7,8) a by auto
  have fresh: "currentUUID ?s + 1 \<notin> dom (containers ?s)" using uuids_below_fresh [of s] Cons.prems(5,6) by simp
  obtain s1 where one: "Wire_messageReceived self from (WireMsg PACKET_TO_PORT p) (w, ?s) = Inr (None, ?w, s1)"
    and i: "sys_inv F s1" "currentUUID s1 = currentUUID s + 1" "dom (containers s1) = insert (currentUUID s + 1) (dom (containers s))"
    and due: "wakeup (the (containers s1 (currentUUID s1))) = ?avail + propagationDelay w"
    using Wire_forward [OF Cons.prems(1,2) _ fresh td(1), of F self] Cons.prems(3,4) by auto
  have "max (unat t) (unat (w_nextAvailable w ! d)) + unat ?td + unat (propagationDelay w) < 2 ^ 64"
    using Cons.prems(9) unfolding td(2) by (simp add: a wire_jobs_def)
  note times = due_no_wrap [OF this, unfolded td(2)]
  have "d < length (w_nextAvailable w)" using Cons.prems(1,2) wire_destination_range [of "from" w d] by (simp add: wire_wf_def)
  then have nth: "w_nextAvailable ?w ! d = ?avail" by simp
  have jobs: "wire_jobs ?w arrivals = wire_jobs w arrivals" by (simp add: wire_jobs_def)
  have dest: "wire_destination from ?w = Some d" using Cons.prems(2) by simp
  have small: "\<forall>x \<in> set (serve (unat (propagationDelay ?w)) (unat (w_nextAvailable ?w ! d)) (wire_jobs ?w arrivals)). x < 2 ^ 64"
    unfolding nth times(1) jobs using Cons.prems(9) by (simp add: a wire_jobs_def)
  have "\<exists>dues st'. wire_feed self from arrivals (?w, s1) = Inr (dues, st') \<and>
      map unat dues = serve (unat (propagationDelay ?w)) (unat (w_nextAvailable ?w ! d)) (wire_jobs ?w arrivals)"
    by (rule Cons.IH [OF _ dest _ i(1) _ _ _ _ small])
      (use Cons.prems uuids_below_sent [OF Cons.prems(5) _ i(2,3)] in \<open>simp_all add: wire_wf_def\<close>)
  then obtain dues st' where rest: "wire_feed self from arrivals (?w, s1) = Inr (dues, st')"
    "map unat dues = serve (unat (propagationDelay w)) ?n (wire_jobs w arrivals)"
    unfolding nth times(1) jobs by auto
  have "wire_feed self from (a # arrivals) (w, s) = Inr ((?avail + propagationDelay w) # dues, st')"
    using one rest(1) due by (simp add: a)
  moreover have "map unat ((?avail + propagationDelay w) # dues) =
      serve (unat (propagationDelay w)) (unat (w_nextAvailable w ! d)) (wire_jobs w (a # arrivals))"
    using rest(2) times(2) by (simp add: a wire_jobs_def)
  ultimately show ?case by blast
qed

section \<open>Properties\<close>

text \<open>C29. A wire with its speed limit on is one first-come first-served server per
  direction: for packets of at most a megabyte and speeds below \<open>2 ^ 53\<close> bits per second, the
  handler, run on any sequence of arrivals from one end, schedules the deliveries at exactly
  the times the specification \<open>serve\<close> gives over the natural numbers.\<close>

theorem wire_refines_server:
  assumes "wire_wf w" and "wire_destination from w = Some d" and "limit_speed w"
    and "sys_inv F s" and "uuids_below s" and "unat (currentUUID s) + length arrivals < 2 ^ 64"
    and "unat (w_bps w) < 2 ^ 53" and "\<forall>(t, p) \<in> set arrivals. getSize p \<le> 1000000"
    and "\<forall>x \<in> set (serve (unat (propagationDelay w)) (unat (w_nextAvailable w ! d)) (wire_jobs w arrivals)).
          x < 2 ^ 64"
  shows "\<exists>dues st'. wire_feed self from arrivals (w, s) = Inr (dues, st') \<and>
    map unat dues = serve (unat (propagationDelay w)) (unat (w_nextAvailable w ! d)) (wire_jobs w arrivals)"
  using wire_feed_serve [OF assms] .

definition demo_wire :: wire where
  "demo_wire = Wire_new 5 6 1000 1000000000 True (initial_system :: net)"

definition demo_arrivals :: "(Time \<times> packet) list" where
  "demo_arrivals = [(10, \<lparr>buffer = replicate 125 0, packetID = 0\<rparr>),
                    (20, \<lparr>buffer = replicate 250 0, packetID = 1\<rparr>)]"

lemma demo_wire_hyps:
  "wire_wf demo_wire" "wire_destination 5 demo_wire = Some 1" "limit_speed demo_wire"
  "uuids_below (initial_system :: net)"
  "unat (currentUUID (initial_system :: net)) + length demo_arrivals < 2 ^ 64"
  "unat (w_bps demo_wire) < 2 ^ 53" "\<forall>(t, p) \<in> set demo_arrivals. getSize p \<le> 1000000"
  "serve (unat (propagationDelay demo_wire)) (unat (w_nextAvailable demo_wire ! 1))
     (wire_jobs demo_wire demo_arrivals) = [2010, 4010]"
  by (simp_all add: demo_wire_def demo_arrivals_def Wire_new_def wire_wf_def wire_destination_def
      getCurrentTime_def uuids_below_def initial_system_def getSize_def
      wire_jobs_def tx_time_def)

theorem wire_refines_server_witness:
  "\<exists>dues st'. wire_feed 7 5 demo_arrivals (demo_wire, initial_system) = Inr (dues, st') \<and>
     map unat dues = [2010, 4010]"
proof -
  have "\<forall>x \<in> set (serve (unat (propagationDelay demo_wire)) (unat (w_nextAvailable demo_wire ! 1))
      (wire_jobs demo_wire demo_arrivals)). x < 2 ^ 64"
    unfolding demo_wire_hyps(8) by simp
  from wire_refines_server [OF demo_wire_hyps(1-3) initial_system_inv demo_wire_hyps(4-7) this] show ?thesis
    unfolding demo_wire_hyps(8) .
qed

text \<open>Packets sent from one end leave a speed-limited wire in the order they entered it, a
  later one at least its own transmission time after an earlier one, and none before its
  transmission and propagation are over.\<close>

theorem wire_fifo:
  assumes "wire_wf w" and "wire_destination from w = Some d" and "limit_speed w"
    and "sys_inv F s" and "uuids_below s" and "unat (currentUUID s) + length arrivals < 2 ^ 64"
    and "unat (w_bps w) < 2 ^ 53" and "\<forall>(t, p) \<in> set arrivals. getSize p \<le> 1000000"
    and "\<forall>x \<in> set (serve (unat (propagationDelay w)) (unat (w_nextAvailable w ! d)) (wire_jobs w arrivals)).
          x < 2 ^ 64"
  shows "\<exists>dues st'. wire_feed self from arrivals (w, s) = Inr (dues, st') \<and>
    length dues = length arrivals \<and>
    (\<forall>i < length arrivals. unat (fst (arrivals ! i)) + tx_time (w_bps w) (snd (arrivals ! i)) +
       unat (propagationDelay w) \<le> unat (dues ! i)) \<and>
    (\<forall>i j. i < j \<longrightarrow> j < length arrivals \<longrightarrow>
       unat (dues ! i) + tx_time (w_bps w) (snd (arrivals ! j)) \<le> unat (dues ! j))"
proof -
  let ?jobs = "wire_jobs w arrivals"
  obtain dues st' where feed: "wire_feed self from arrivals (w, s) = Inr (dues, st')"
    and dues: "map unat dues = serve (unat (propagationDelay w)) (unat (w_nextAvailable w ! d)) ?jobs"
    using wire_feed_serve [OF assms] by blast
  have len: "length dues = length arrivals" "length ?jobs = length arrivals"
    using arg_cong [OF dues, of length] by (simp_all add: wire_jobs_def)
  have nth: "unat (dues ! i) = serve (unat (propagationDelay w)) (unat (w_nextAvailable w ! d)) ?jobs ! i"
    "?jobs ! i = (unat (fst (arrivals ! i)), tx_time (w_bps w) (snd (arrivals ! i)))"
    if "i < length arrivals" for i
    using that len arg_cong [OF dues, of "\<lambda>xs. xs ! i"]
    by (simp_all add: wire_jobs_def case_prod_beta)
  have "unat (fst (arrivals ! i)) + tx_time (w_bps w) (snd (arrivals ! i)) +
       unat (propagationDelay w) \<le> unat (dues ! i)" if "i < length arrivals" for i
    using serve_after_arrival [of i ?jobs] that len nth [OF that] by simp
  moreover have "unat (dues ! i) + tx_time (w_bps w) (snd (arrivals ! j)) \<le> unat (dues ! j)"
    if "i < j" "j < length arrivals" for i j
    using serve_spaced [of i j ?jobs] that len nth [of i] nth [of j] by simp
  ultimately show ?thesis using feed len(1) by blast
qed

theorem wire_fifo_witness:
  "\<exists>dues st'. wire_feed 7 5 demo_arrivals (demo_wire, initial_system) = Inr (dues, st') \<and>
     length dues = 2"
proof -
  have "\<forall>x \<in> set (serve (unat (propagationDelay demo_wire)) (unat (w_nextAvailable demo_wire ! 1))
      (wire_jobs demo_wire demo_arrivals)). x < 2 ^ 64"
    unfolding demo_wire_hyps(8) by simp
  from wire_fifo [OF demo_wire_hyps(1-3) initial_system_inv demo_wire_hyps(4-7) this, of 7] show ?thesis
    by (auto simp: demo_arrivals_def numeral_2_eq_2)
qed

text \<open>A packet handed to a wire by one of its two ends becomes one message with the same
  packet to the other end and nothing else: the sender's own end and the other direction's
  schedule are untouched. A sender that is not connected, or an open other end, loses the
  packet without any effect.\<close>

theorem wire_to_other_end:
  assumes "connected w = [a, b]" and "a \<noteq> b" and "b \<noteq> 0" and "length (w_nextAvailable w) = 2"
    and "sys_inv F s" and "currentUUID s + 1 \<notin> dom (containers s)"
    and "getSize p \<le> 1000000" and "unat (w_bps w) < 2 ^ 53"
  shows "(\<exists>w' s' c. Wire_messageReceived self a (WireMsg PACKET_TO_PORT p) (w, s) = Inr (None, w', s') \<and>
      containers s' = (containers s)(currentUUID s + 1 \<mapsto> c) \<and>
      t_to c = b \<and> t_message c = WireMsg PACKET_FROM_PORT p \<and> \<not> canceled c \<and>
      w_nextAvailable w' ! 0 = w_nextAvailable w ! 0) \<and>
    (\<forall>x. x \<notin> {a, b} \<longrightarrow>
      Wire_messageReceived self x (WireMsg PACKET_TO_PORT p) (w, s) = Inr (None, w, s))"
proof -
  have wf: "wire_wf w" using assms(1,4) by (simp add: wire_wf_def)
  have dest: "wire_destination a w = Some 1" using assms(1,3) by (simp add: wire_destination_def)
  obtain td where td: "trans_delay (getSize p) (w_bps w) = Inr td"
    using trans_delay_tx [OF assms(7,8)] by blast
  obtain w' s' where r: "Wire_messageReceived self a (WireMsg PACKET_TO_PORT p) (w, s) = Inr (None, w', s')"
    and w': "w_nextAvailable w' ! 0 = w_nextAvailable w ! 0"
    using Wire_forward [OF wf dest assms(5,6) td, of self] by auto
  from r dest td obtain d where "post self (connected w ! 1) (WireMsg PACKET_FROM_PORT p) d s = Inr s'"
    by (auto simp: Wire_messageReceived_def Let_def result_simps)
  note E = post_effect [OF assms(5) this]
  let ?c = "\<lparr>t_from = self, t_to = b, canceled = False, wakeup = currentTime s + d,
      t_message = WireMsg PACKET_FROM_PORT p, t_uuid = currentUUID s + 1\<rparr>"
  have "containers s' = (containers s)(currentUUID s + 1 \<mapsto> ?c)" using E assms(1) by simp
  with r w' have "\<exists>w' s' c. Wire_messageReceived self a (WireMsg PACKET_TO_PORT p) (w, s) = Inr (None, w', s') \<and>
      containers s' = (containers s)(currentUUID s + 1 \<mapsto> c) \<and>
      t_to c = b \<and> t_message c = WireMsg PACKET_FROM_PORT p \<and> \<not> canceled c \<and>
      w_nextAvailable w' ! 0 = w_nextAvailable w ! 0"
    by (intro exI [of _ w'] exI [of _ s'] exI [of _ ?c]) simp
  moreover have "Wire_messageReceived self x (WireMsg PACKET_TO_PORT p) (w, s) = Inr (None, w, s)"
    if "x \<notin> {a, b}" for x
  proof -
    from that assms(1) have "wire_destination x w = None" by (auto simp: wire_destination_def)
    then show ?thesis by (simp add: Wire_messageReceived_def)
  qed
  ultimately show ?thesis by blast
qed

theorem wire_to_other_end_witness:
  "\<exists>w' s' c. Wire_messageReceived 7 5 (WireMsg PACKET_TO_PORT \<lparr>buffer = [1, 2, 3], packetID = 0\<rparr>)
      (demo_wire, initial_system) = Inr (None, w', s') \<and>
    containers s' = [1 \<mapsto> c] \<and> t_to c = 6"
proof -
  have h: "connected demo_wire = [5, 6]" "(5 :: ModuleID) \<noteq> 6" "(6 :: ModuleID) \<noteq> 0"
    "length (w_nextAvailable demo_wire) = 2"
    "currentUUID (initial_system :: net) + 1 \<notin> dom (containers (initial_system :: net))"
    "getSize \<lparr>buffer = [1, 2, 3], packetID = 0\<rparr> \<le> 1000000" "unat (w_bps demo_wire) < 2 ^ 53"
    by (simp_all add: demo_wire_def Wire_new_def initial_system_def getSize_def)
  from wire_to_other_end [OF h(1-4) initial_system_inv h(5-7), of 7] show ?thesis
    by (fastforce simp: initial_system_def)
qed

end
