(* ===== verification/Link.thy ===== *)
theory Link
  imports Wire Random_Dist Network_Util Time_Util
begin

text \<open>
  \<^verbatim>\<open>E::Link\<close> (\<^verbatim>\<open>src/Networking/E_Link.cpp\<close>): output queues towards the attached wires, with
  a bound, random eviction from a full queue, self-addressed \<^verbatim>\<open>CHECK_QUEUE\<close> messages that
  drain a queue one packet per transmission time, and a capture file. The hash maps
  \<^verbatim>\<open>nextAvailable\<close> and \<^verbatim>\<open>outputQueue\<close> are read with \<^verbatim>\<open>operator[]\<close> only, which gives 0 and an
  empty list for a new key, so they are total functions. The pure virtual
  \<^verbatim>\<open>packetArrived\<close> is an argument of \<^verbatim>\<open>messageReceived\<close>.
\<close>

section \<open>Definitions\<close>

record link =
  l_ports :: "ModuleID list"
  l_nextAvailable :: "ModuleID \<Rightarrow> Time"
  outputQueue :: "ModuleID \<Rightarrow> packet list"
  l_bps :: Size
  max_queue_length :: Size
  pcap_enabled :: bool
  snaplen :: Size
  pcap_file :: bytes
  rand_dist :: engine

definition Link_new :: "engine \<Rightarrow> link" where
  "Link_new g = \<lparr>l_ports = [], l_nextAvailable = (\<lambda>_. 0), outputQueue = (\<lambda>_. []),
     l_bps = 1000000000, max_queue_length = 0, pcap_enabled = False, snaplen = 65535,
     pcap_file = [], rand_dist = g\<rparr>"

definition setLinkSpeed :: "Size \<Rightarrow> 'a link_scheme \<Rightarrow> 'a link_scheme" where
  "setLinkSpeed bps l = l\<lparr>l_bps := bps\<rparr>"

definition setQueueSize :: "Size \<Rightarrow> 'a link_scheme \<Rightarrow> 'a link_scheme" where
  "setQueueSize n l = l\<lparr>max_queue_length := n\<rparr>"

text \<open>\<^verbatim>\<open>NetworkModule::connectWire\<close>: the number of the new port.\<close>

definition link_connectWire :: "ModuleID \<Rightarrow> 'a link_scheme \<Rightarrow> int \<times> 'a link_scheme" where
  "link_connectWire moduleID l = (int (length (l_ports l)), l\<lparr>l_ports := l_ports l @ [moduleID]\<rparr>)"

text \<open>The capture file: fields of the two header structures in the byte order of the machine
  (little-endian).\<close>

definition le16 :: "u16 \<Rightarrow> bytes" where
  "le16 w = [ucast w, ucast (drop_bit 8 w)]"

definition pcap_file_header :: "u32 \<Rightarrow> bytes" where
  "pcap_file_header len =
     le32 0xa1b23c4d @ le16 2 @ le16 4 @ le32 0 @ le32 0 @ le32 len @ le32 1"

definition enablePCAPLogging :: "Size \<Rightarrow> 'a link_scheme \<Rightarrow> 'a link_scheme" where
  "enablePCAPLogging len l =
     (if \<not> pcap_enabled l
      then l\<lparr>pcap_enabled := True, snaplen := len, pcap_file := pcap_file_header (ucast len)\<rparr>
      else l)"

definition pcap_packet_header :: "Time \<Rightarrow> u32 \<Rightarrow> u32 \<Rightarrow> bytes" where
  "pcap_packet_header now incl_len orig_len =
     le32 (ucast (getTime now SEC)) @ le32 (ucast (getTime now NSEC mod 1000000000)) @
     le32 incl_len @ le32 orig_len"

definition pcap_record :: "Time \<Rightarrow> packet \<Rightarrow> 'a link_scheme \<Rightarrow> 'a link_scheme result" where
  "pcap_record now packet l =
     (if \<not> pcap_enabled l then Inr l
      else
        let incl_len = of_nat (min (unat (snaplen l)) (getSize packet)) :: u32;
            hdr = pcap_packet_header now incl_len (of_nat (getSize packet))
        in bindE (readData packet 0 (replicate (unat incl_len) (Some 0)) (unat incl_len))
             (\<lambda>(_, temp_buffer). Inr (l\<lparr>pcap_file := pcap_file l @ hdr @ map the temp_buffer\<rparr>)))"

text \<open>The eviction from a full queue.\<close>

definition link_evict :: "'a link_scheme \<Rightarrow> packet list \<Rightarrow> (packet list \<times> engine) result" where
  "link_evict l queue =
     (let min_drop = max_queue_length l div 2;
          max_drop = max_queue_length l;
          (rand, g) = Linear_next (rnd (of_nat (unat min_drop))) (rnd (of_nat (unat max_drop))) (rand_dist l)
      in bindE (real_to_u64 (of_int \<lfloor>rand\<rfloor>)) (\<lambda>index.
           let index = (if index \<ge> max_queue_length l then max_queue_length l - 1 else index)
           in Inr (if unat index < length queue
                   then take (unat index) queue @ drop (Suc (unat index)) queue else queue, g)))"

definition link_sendPacket ::
  "ModuleID \<Rightarrow> ModuleID \<Rightarrow> packet \<Rightarrow> 'a link_scheme \<times> net \<Rightarrow> ('a link_scheme \<times> net) result" where
  "link_sendPacket self port packet st =
     (case st of (l, s) \<Rightarrow>
       let queue = outputQueue l port;
           current_time = getCurrentTime s;
           avail_time = l_nextAvailable l port
       in bindE (if max_queue_length l \<noteq> 0 \<and> length queue \<ge> unat (max_queue_length l)
                 then link_evict l queue else Inr (queue, rand_dist l)) (\<lambda>(queue, g).
          bindE (assertE (max_queue_length l = 0 \<or> length queue < unat (max_queue_length l))) (\<lambda>_.
            let queue = queue @ [packet];
                l' = l\<lparr>outputQueue := (outputQueue l)(port := queue), rand_dist := g\<rparr>
            in if length queue = 1
               then bindE (post self self (LinkMsg port)
                      (if avail_time > current_time then avail_time - current_time else 0) s)
                      (\<lambda>s'. Inr (l', s'))
               else Inr (l', s))))"

text \<open>The branch of \<^verbatim>\<open>messageReceived\<close> for \<^verbatim>\<open>CHECK_QUEUE\<close>.\<close>

definition link_checkQueue ::
  "ModuleID \<Rightarrow> ModuleID \<Rightarrow> 'a link_scheme \<times> net \<Rightarrow> ('a link_scheme \<times> net) result" where
  "link_checkQueue self wireID st =
     (case st of (l, s) \<Rightarrow>
       let queue = outputQueue l wireID in
       bindE (assertE (length queue > 0)) (\<lambda>_.
         let current_time = getCurrentTime s;
             avail_time = l_nextAvailable l wireID
         in if current_time \<ge> avail_time then
              let packet = hd queue; queue = tl queue
              in bindE (trans_delay (getSize packet) (l_bps l)) (\<lambda>td.
                 let avail_time = current_time + td;
                     l1 = l\<lparr>outputQueue := (outputQueue l)(wireID := queue),
                            l_nextAvailable := (l_nextAvailable l)(wireID := avail_time)\<rparr>
                 in bindE (pcap_record current_time packet l1) (\<lambda>l2.
                    bindE (post self wireID (WireMsg PACKET_TO_PORT packet) td s) (\<lambda>s1.
                      if length queue > 0 then
                        (let wait_time = (if avail_time > current_time then avail_time - current_time else 0)
                         in bindE (assertE (wait_time = td)) (\<lambda>_.
                            bindE (post self self (LinkMsg wireID) wait_time s1) (\<lambda>s2. Inr (l2, s2))))
                      else Inr (l2, s1))))
            else Inr (l, s)))"

type_synonym 'l arrival_handler =
  "ModuleID \<Rightarrow> ModuleID \<Rightarrow> packet \<Rightarrow> 'l \<times> packet_ids \<times> net \<Rightarrow> ('l \<times> packet_ids \<times> net) result"

definition Link_messageReceived ::
  "'a link_scheme arrival_handler \<Rightarrow> ModuleID \<Rightarrow> ModuleID \<Rightarrow> msg \<Rightarrow>
     'a link_scheme \<times> packet_ids \<times> net \<Rightarrow> (msg option \<times> 'a link_scheme \<times> packet_ids \<times> net) result" where
  "Link_messageReceived packetArrived self from message st =
     (case message of
        WireMsg ty packet \<Rightarrow> bindE (packetArrived self from packet st) (\<lambda>st'. Inr (None, st'))
      | LinkMsg wireID \<Rightarrow>
          (case st of (l, ids, s) \<Rightarrow>
            bindE (link_checkQueue self wireID (l, s)) (\<lambda>(l', s'). Inr (None, l', ids, s')))
      | _ \<Rightarrow> Inr (None, st))"

definition Link_messageFinished :: "ModuleID \<Rightarrow> 'm \<Rightarrow> 'm option \<Rightarrow> unit result" where
  "Link_messageFinished to message response = expect_empty_response response"

definition Link_messageCancelled :: "ModuleID \<Rightarrow> 'm \<Rightarrow> unit result" where
  "Link_messageCancelled to message = Inr ()"

section \<open>Effects on the scheduler\<close>

fun link_op :: "ModuleID \<Rightarrow> msg sys_op \<Rightarrow> bool" where
  "link_op self (Send src dst m d) =
     (src = self \<and> ((\<exists>p. m = WireMsg PACKET_TO_PORT p) \<or> dst = self \<and> (\<exists>w. m = LinkMsg w)))"
| "link_op self _ = False"

lemma link_sendPacket_emits:
  "link_sendPacket self port p (l, s) = Inr (l', s') \<Longrightarrow> emits (link_op self) s s'"
  by (auto simp: link_sendPacket_def Let_def result_simps split: if_splits intro: emits_post)

text \<open>What a successful \<^verbatim>\<open>CHECK_QUEUE\<close> does.\<close>

lemma link_checkQueueE:
  assumes "link_checkQueue self w (l, s) = Inr (l', s')"
  obtains (early) "outputQueue l w \<noteq> []" "currentTime s < l_nextAvailable l w" "l' = l" "s' = s"
  | (last) td where "tl (outputQueue l w) = []" "outputQueue l w \<noteq> []" "l_nextAvailable l w \<le> currentTime s"
      "trans_delay (getSize (hd (outputQueue l w))) (l_bps l) = Inr td"
      "pcap_record (currentTime s) (hd (outputQueue l w))
         (l\<lparr>outputQueue := (outputQueue l)(w := []),
            l_nextAvailable := (l_nextAvailable l)(w := currentTime s + td)\<rparr>) = Inr l'"
      "post self w (WireMsg PACKET_TO_PORT (hd (outputQueue l w))) td s = Inr s'"
  | (more) td s1 where "tl (outputQueue l w) \<noteq> []" "l_nextAvailable l w \<le> currentTime s"
      "trans_delay (getSize (hd (outputQueue l w))) (l_bps l) = Inr td"
      "pcap_record (currentTime s) (hd (outputQueue l w))
         (l\<lparr>outputQueue := (outputQueue l)(w := tl (outputQueue l w)),
            l_nextAvailable := (l_nextAvailable l)(w := currentTime s + td)\<rparr>) = Inr l'"
      "post self w (WireMsg PACKET_TO_PORT (hd (outputQueue l w))) td s = Inr s1"
      "td = (if currentTime s + td > currentTime s then currentTime s + td - currentTime s else 0)"
      "post self self (LinkMsg w) td s1 = Inr s'"
proof (cases "currentTime s < l_nextAvailable l w")
  case True
  then have "\<not> l_nextAvailable l w \<le> currentTime s" by simp
  with assms have "outputQueue l w \<noteq> []" "l' = l" "s' = s"
    by (auto simp: link_checkQueue_def Let_def getCurrentTime_def result_simps)
  with True show ?thesis by (intro early)
next
  case False
  then have le: "l_nextAvailable l w \<le> currentTime s" by simp
  let ?q = "outputQueue l w" and ?now = "currentTime s"
  from assms le obtain td s1 where "?q \<noteq> []" "trans_delay (getSize (hd ?q)) (l_bps l) = Inr td"
    "pcap_record ?now (hd ?q) (l\<lparr>outputQueue := (outputQueue l)(w := tl ?q),
        l_nextAvailable := (l_nextAvailable l)(w := ?now + td)\<rparr>) = Inr l'"
    "post self w (WireMsg PACKET_TO_PORT (hd ?q)) td s = Inr s1"
    "if tl ?q \<noteq> []
     then td = (if ?now + td > ?now then ?now + td - ?now else 0) \<and> post self self (LinkMsg w) td s1 = Inr s'
     else s' = s1"
    by (auto simp: link_checkQueue_def Let_def getCurrentTime_def result_simps
        simp del: length_tl add_diff_cancel_left' split: if_split_asm)
  with le show ?thesis by (cases "tl ?q = []") (auto intro: last more)
qed

lemma link_checkQueue_emits:
  "link_checkQueue self w (l, s) = Inr (l', s') \<Longrightarrow> emits (link_op self) s s'"
  by (erule link_checkQueueE) (simp, erule emits_post, simp, erule (1) emits_post2, simp_all)

lemma pcap_record_fields:
  "pcap_record now p l = Inr l' \<Longrightarrow>
   outputQueue l' = outputQueue l \<and> l_nextAvailable l' = l_nextAvailable l \<and> l_bps l' = l_bps l \<and>
   max_queue_length l' = max_queue_length l \<and> rand_dist l' = rand_dist l \<and> l_ports l' = l_ports l"
  by (auto simp: pcap_record_def Let_def result_simps split: if_splits)

section \<open>The invariant of a link\<close>

text \<open>The \<^verbatim>\<open>CHECK_QUEUE\<close> messages for wire \<open>w\<close> that module \<open>self\<close> has pending.\<close>

definition checks :: "ModuleID \<Rightarrow> ModuleID \<Rightarrow> net \<Rightarrow> UUID set" where
  "checks self w s = {p \<in> set (timerQueue s).
     \<exists>c. containers s p = Some c \<and> t_to c = self \<and> t_message c = LinkMsg w}"

text \<open>A non-empty queue has exactly one pending check, not before the wire is free; an empty
  queue has none.\<close>

definition link_port_ok :: "ModuleID \<Rightarrow> ModuleID \<Rightarrow> 'a link_scheme \<Rightarrow> net \<Rightarrow> bool" where
  "link_port_ok self w l s \<longleftrightarrow>
     (if outputQueue l w = [] then checks self w s = {}
      else \<exists>p c. checks self w s = {p} \<and> containers s p = Some c \<and> \<not> canceled c \<and>
             l_nextAvailable l w \<le> wakeup c)"

definition link_bounded :: "'a link_scheme \<Rightarrow> bool" where
  "link_bounded l \<longleftrightarrow> max_queue_length l \<noteq> 1 \<and> unat (max_queue_length l) < 2 ^ 53 \<and>
     canonical (rand_dist l) \<and>
     (max_queue_length l \<noteq> 0 \<longrightarrow> (\<forall>w. length (outputQueue l w) \<le> unat (max_queue_length l)))"

definition link_inv :: "ModuleID \<Rightarrow> 'a link_scheme \<Rightarrow> net \<Rightarrow> bool" where
  "link_inv self l s \<longleftrightarrow> link_bounded l \<and> (\<forall>w. link_port_ok self w l s)"

lemma checks_post:
  assumes "sys_inv F s" and "post src dst m d s = Inr s'"
  shows "checks self w s' =
    (if dst = self \<and> m = LinkMsg w then insert (currentUUID s + 1) (checks self w s) else checks self w s)"
proof -
  note E = post_effect [OF assms]
  have "currentUUID s + 1 \<notin> set (timerQueue s)"
    using E queue_in_dom [OF assms(1)] by auto
  with E show ?thesis by (auto simp: checks_def)
qed

lemma checks_other_container:
  assumes "sys_inv F s" and "post src dst m d s = Inr s'" and "p \<in> checks self w s"
  shows "containers s' p = containers s p"
proof -
  have "p \<in> dom (containers s)" using assms(3) by (auto simp: checks_def)
  with post_effect [OF assms(1,2)] show ?thesis by auto
qed

lemma port_ok_post_other:
  assumes "sys_inv F s" and "post src dst m d s = Inr s'" and "\<not> (dst = self \<and> m = LinkMsg w)"
  shows "link_port_ok self w l s' = link_port_ok self w l s"
proof -
  have c: "checks self w s' = checks self w s" using checks_post [OF assms(1,2)] assms(3) by auto
  have "containers s' p = containers s p" if "checks self w s = {p}" for p
    using checks_other_container [OF assms(1,2)] that by blast
  then show ?thesis unfolding link_port_ok_def c by (simp cong: conj_cong)
qed

text \<open>Eviction from a queue at its bound removes one packet of the back half and keeps the
  order of the others.\<close>

lemma link_evict_spec:
  assumes "canonical (rand_dist l)" and "max_queue_length l \<noteq> 0" and "unat (max_queue_length l) < 2 ^ 53"
    and "unat (max_queue_length l) \<le> length q"
  shows "\<exists>i. link_evict l q = Inr (take i q @ drop (Suc i) q, stl (rand_dist l)) \<and>
    unat (max_queue_length l) div 2 \<le> i \<and> i < unat (max_queue_length l)"
proof -
  let ?m = "unat (max_queue_length l)"
  have d: "unat (max_queue_length l div 2) = ?m div 2" by (simp add: unat_div)
  have r: "rnd (of_nat (?m div 2)) = of_nat (?m div 2)" "rnd (of_nat ?m) = of_nat ?m"
    using assms(3) by (intro rnd_int; simp)+
  obtain x where x: "Linear_next (of_nat (?m div 2)) (of_nat ?m) (rand_dist l) = (x, stl (rand_dist l))"
    "of_nat (?m div 2) \<le> x" "x \<le> of_nat ?m"
    using Linear_range [OF assms(1) _ assms(3), of "?m div 2"] by auto
  have x0: "0 \<le> x" using x(2) by (rule order_trans [rotated]) simp
  let ?k = "nat \<lfloor>x\<rfloor>"
  have k: "?m div 2 \<le> ?k" "?k \<le> ?m" "\<lfloor>x\<rfloor> = int ?k" using x(2,3) by (linarith+)
  have "of_int \<lfloor>x\<rfloor> \<le> (of_nat ?m :: real)" using x(3) by linarith
  also have "\<dots> < 2 ^ 64"
  proof -
    have "?m < 2 ^ 64" using assms(3) by simp
    then show ?thesis by (metis of_nat_less_iff of_nat_numeral of_nat_power)
  qed
  finally have conv: "real_to_u64 (of_int \<lfloor>x\<rfloor>) = Inr (of_nat ?k)"
    using k(3) x0 by (simp add: real_to_u64_def)
  have uk: "unat (of_nat ?k :: u64) = ?k"
    using k(2) assms(3) by (simp add: unsigned_of_nat take_bit_eq_mod)
  have m1: "unat (max_queue_length l - 1) = ?m - 1"
    using assms(2) by (simp add: unat_minus_one)
  let ?i = "if ?m \<le> ?k then ?m - 1 else ?k"
  have "0 < ?m" using assms(2) by (simp add: unat_gt_0)
  then have i: "?i < ?m" "?m div 2 \<le> ?i" using k by auto
  have i3: "?i < length q" using i(1) assms(4) by (rule order_less_le_trans)
  have "link_evict l q = Inr (take ?i q @ drop (Suc ?i) q, stl (rand_dist l))"
    using i3 by (simp add: link_evict_def Let_def d r x(1) conv word_le_nat_alt uk m1 del: of_nat_unat)
  with i show ?thesis by blast
qed

text \<open>What \<^verbatim>\<open>sendPacket\<close> does to a bounded queue: append, after an eviction when it is full.\<close>

definition enqueued :: "'a link_scheme \<Rightarrow> packet list \<Rightarrow> packet \<Rightarrow> packet list \<Rightarrow> bool" where
  "enqueued l q p q' \<longleftrightarrow>
     (if max_queue_length l \<noteq> 0 \<and> length q = unat (max_queue_length l)
      then \<exists>i. unat (max_queue_length l) div 2 \<le> i \<and> i < length q \<and>
             q' = take i q @ drop (Suc i) q @ [p]
      else q' = q @ [p])"

lemma enqueue_step:
  assumes "link_bounded l"
  shows "\<exists>q' g. (if max_queue_length l \<noteq> 0 \<and> length (outputQueue l w) \<ge> unat (max_queue_length l)
      then link_evict l (outputQueue l w) else Inr (outputQueue l w, rand_dist l)) = Inr (q', g) \<and>
    canonical g \<and> (max_queue_length l = 0 \<or> length q' < unat (max_queue_length l)) \<and>
    enqueued l (outputQueue l w) p (q' @ [p]) \<and> (q' = [] \<longleftrightarrow> outputQueue l w = [])"
proof (cases "max_queue_length l \<noteq> 0 \<and> length (outputQueue l w) \<ge> unat (max_queue_length l)")
  case True
  let ?q = "outputQueue l w" and ?m = "unat (max_queue_length l)"
  have len: "length ?q = ?m" using True assms unfolding link_bounded_def by (intro le_antisym) auto
  have m2: "1 < ?m"
  proof -
    have "?m \<noteq> unat (0 :: u64)" "?m \<noteq> unat (1 :: u64)"
      using True assms unfolding link_bounded_def by (auto simp: word_unat_eq_iff)
    then show ?thesis by simp
  qed
  obtain i where i: "link_evict l ?q = Inr (take i ?q @ drop (Suc i) ?q, stl (rand_dist l))"
    "?m div 2 \<le> i" "i < length ?q"
    using link_evict_spec [of l ?q] len True assms by (auto simp: link_bounded_def)
  let ?r = "take i ?q @ drop (Suc i) ?q"
  have r: "length ?r = ?m - 1" using i(3) len by simp
  then have ne: "?r \<noteq> []" "?q \<noteq> []" "length ?r < ?m" using len m2 by auto
  have can: "canonical (stl (rand_dist l))" using assms by (simp add: link_bounded_def canonical_stl)
  have enq: "enqueued l ?q p (?r @ [p])"
    using True len i(2,3) by (auto simp: enqueued_def)
  have "(if max_queue_length l \<noteq> 0 \<and> length ?q \<ge> ?m then link_evict l ?q else Inr (?q, rand_dist l))
      = Inr (?r, stl (rand_dist l))"
    using True i(1) by simp
  with ne can enq show ?thesis by blast
next
  case False
  with assms show ?thesis by (auto simp: link_bounded_def enqueued_def)
qed

lemma enqueued_bound:
  assumes "max_queue_length l = 0 \<or> length q' < unat (max_queue_length l)" and "link_bounded l"
  shows "link_bounded (l\<lparr>outputQueue := (outputQueue l)(w := q' @ [p]), rand_dist := g\<rparr>) = canonical g"
  using assms by (auto simp: link_bounded_def)

text \<open>The effect of a \<^verbatim>\<open>sendPacket\<close> that returns, and that it returns while UUIDs last.\<close>

lemma link_sendPacket_eq:
  assumes "link_bounded l"
  shows "\<exists>q' g d. link_sendPacket self w p (l, s) =
      (if outputQueue l w = []
       then bindE (post self self (LinkMsg w) d s)
              (\<lambda>s'. Inr (l\<lparr>outputQueue := (outputQueue l)(w := q'), rand_dist := g\<rparr>, s'))
       else Inr (l\<lparr>outputQueue := (outputQueue l)(w := q'), rand_dist := g\<rparr>, s)) \<and>
    l_nextAvailable l w \<le> currentTime s + d \<and> enqueued l (outputQueue l w) p q' \<and>
    link_bounded (l\<lparr>outputQueue := (outputQueue l)(w := q'), rand_dist := g\<rparr>)"
proof -
  obtain q g where step: "(if max_queue_length l \<noteq> 0 \<and> length (outputQueue l w) \<ge> unat (max_queue_length l)
      then link_evict l (outputQueue l w) else Inr (outputQueue l w, rand_dist l)) = Inr (q, g)"
    and q: "canonical g" "max_queue_length l = 0 \<or> length q < unat (max_queue_length l)"
      "enqueued l (outputQueue l w) p (q @ [p])" "q = [] \<longleftrightarrow> outputQueue l w = []"
    using enqueue_step [OF assms, of w p] by blast
  let ?l = "l\<lparr>outputQueue := (outputQueue l)(w := q @ [p]), rand_dist := g\<rparr>"
  let ?d = "if l_nextAvailable l w > currentTime s then l_nextAvailable l w - currentTime s else 0"
  have "link_sendPacket self w p (l, s) =
      (if outputQueue l w = [] then bindE (post self self (LinkMsg w) ?d s) (\<lambda>s'. Inr (?l, s')) else Inr (?l, s))"
    using q(2,4) by (simp add: link_sendPacket_def Let_def step getCurrentTime_def)
  moreover have "l_nextAvailable l w \<le> currentTime s + ?d" by (auto simp: not_less)
  ultimately show ?thesis using q enqueued_bound [OF q(2) assms, where w = w and p = p and g = g] by blast
qed

lemma uuids_below_post:
  assumes "sys_inv F s" and "post src dst m d s = Inr s'" and "uuids_below s"
    and "unat (currentUUID s) + 1 < 2 ^ 64"
  shows "uuids_below s' \<and> unat (currentUUID s') = unat (currentUUID s) + 1"
proof -
  note E = post_effect [OF assms(1,2)]
  have u: "unat (currentUUID s + 1) = unat (currentUUID s) + 1"
    using assms(4) by (intro trans [OF unat_plus_no_wrap]) simp_all
  then have "currentUUID s \<le> currentUUID s + 1" by (simp add: word_le_nat_alt)
  moreover have "dom (containers s') = insert (currentUUID s + 1) (dom (containers s))" using E by auto
  ultimately have "uuids_below s'"
    using assms(3) E unfolding uuids_below_def by (metis insertE order_refl order_trans)
  with u E show ?thesis by simp
qed

text \<open>A check posted for a queue that had none is the only one, and comes when the wire is free.\<close>

lemma port_ok_post_check:
  assumes "sys_inv F s" and "post src self (LinkMsg w) d s = Inr s'" and "checks self w s = {}"
    and "outputQueue l w \<noteq> []" and "l_nextAvailable l w \<le> currentTime s + d"
  shows "link_port_ok self w l s'"
  using post_effect [OF assms(1,2)] checks_post [OF assms(1,2), of self w] assms(3-5)
  by (simp add: link_port_ok_def)

lemma port_ok_cong:
  "outputQueue l' w = outputQueue l w \<Longrightarrow> l_nextAvailable l' w = l_nextAvailable l w \<Longrightarrow>
   link_port_ok self w l' s = link_port_ok self w l s"
  by (simp add: link_port_ok_def)

lemma link_sendPacket_keeps:
  assumes "link_inv self l s" and "sys_inv F s" and "link_sendPacket self w p (l, s) = Inr (l', s')"
  shows "\<exists>q' g. l' = l\<lparr>outputQueue := (outputQueue l)(w := q'), rand_dist := g\<rparr> \<and>
    enqueued l (outputQueue l w) p q' \<and> link_inv self l' s' \<and> sys_inv F s' \<and>
    currentTime s' = currentTime s"
proof -
  have bl: "link_bounded l" and ok: "link_port_ok self v l s" for v
    using assms(1) by (simp_all add: link_inv_def)
  obtain q' g d where send: "link_sendPacket self w p (l, s) =
      (if outputQueue l w = []
       then bindE (post self self (LinkMsg w) d s)
              (\<lambda>s'. Inr (l\<lparr>outputQueue := (outputQueue l)(w := q'), rand_dist := g\<rparr>, s'))
       else Inr (l\<lparr>outputQueue := (outputQueue l)(w := q'), rand_dist := g\<rparr>, s))"
    and d: "l_nextAvailable l w \<le> currentTime s + d" and q: "enqueued l (outputQueue l w) p q'"
    and b: "link_bounded (l\<lparr>outputQueue := (outputQueue l)(w := q'), rand_dist := g\<rparr>)"
    using link_sendPacket_eq [OF bl] by blast
  let ?l = "l\<lparr>outputQueue := (outputQueue l)(w := q'), rand_dist := g\<rparr>"
  have l': "l' = ?l" using assms(3) send by (auto simp: result_simps split: if_splits)
  have ne: "q' \<noteq> []" using q by (auto simp: enqueued_def split: if_splits)
  show ?thesis
  proof (cases "outputQueue l w = []")
    case False
    with assms(3) send have [simp]: "s' = s" by simp
    have "link_port_ok self v ?l s'" for v
      using ok [of v] False ne by (cases "v = w") (auto simp: link_port_ok_def)
    with l' q b assms(2) show ?thesis by (auto simp: link_inv_def)
  next
    case True
    with assms(3) send have post: "post self self (LinkMsg w) d s = Inr s'" by (auto simp: result_simps)
    have "link_port_ok self v ?l s'" for v
    proof (cases "v = w")
      case True
      have "checks self w s = {}" using ok [of w] \<open>outputQueue l w = []\<close> by (simp add: link_port_ok_def)
      with True show ?thesis using port_ok_post_check [OF assms(2) post, where l = ?l] ne d by simp
    next
      case False
      then show ?thesis
        using ok [of v] port_ok_post_other [OF assms(2) post, of self v l] port_ok_cong [of ?l v l] by simp
    qed
    then have "link_inv self ?l s'" using b by (simp add: link_inv_def)
    with l' q post_effect [OF assms(2) post] show ?thesis by auto
  qed
qed

lemma link_sendPacket_inv:
  assumes "link_inv self l s" and "sys_inv F s" and "uuids_below s" and "unat (currentUUID s) + 1 < 2 ^ 64"
  shows "\<exists>q' g s'. link_sendPacket self w p (l, s) =
      Inr (l\<lparr>outputQueue := (outputQueue l)(w := q'), rand_dist := g\<rparr>, s') \<and>
    link_inv self (l\<lparr>outputQueue := (outputQueue l)(w := q'), rand_dist := g\<rparr>) s' \<and>
    enqueued l (outputQueue l w) p q' \<and> sys_inv F s' \<and> uuids_below s' \<and>
    unat (currentUUID s') \<le> unat (currentUUID s) + 1 \<and> currentTime s' = currentTime s"
proof -
  have bl: "link_bounded l" using assms(1) by (simp add: link_inv_def)
  obtain q' g d where send: "link_sendPacket self w p (l, s) =
      (if outputQueue l w = []
       then bindE (post self self (LinkMsg w) d s)
              (\<lambda>s'. Inr (l\<lparr>outputQueue := (outputQueue l)(w := q'), rand_dist := g\<rparr>, s'))
       else Inr (l\<lparr>outputQueue := (outputQueue l)(w := q'), rand_dist := g\<rparr>, s))"
    and q: "enqueued l (outputQueue l w) p q'"
    using link_sendPacket_eq [OF bl] by blast
  obtain s1 where s1: "post self self (LinkMsg w) d s = Inr s1"
    using post_ok [OF assms(2) uuids_below_fresh [OF assms(3,4)]] by blast
  let ?s = "if outputQueue l w = [] then s1 else s"
  have r: "link_sendPacket self w p (l, s) =
      Inr (l\<lparr>outputQueue := (outputQueue l)(w := q'), rand_dist := g\<rparr>, ?s)"
    using send s1 by simp
  have "uuids_below ?s" "unat (currentUUID ?s) \<le> unat (currentUUID s) + 1"
    using uuids_below_post [OF assms(2) s1 assms(3,4)] assms(3) by simp_all
  with r q link_sendPacket_keeps [OF assms(1,2) r] show ?thesis by blast
qed

text \<open>The handler of \<^verbatim>\<open>CHECK_QUEUE\<close>, entered with its message taken off the queue of events.\<close>

definition check_due :: "ModuleID \<Rightarrow> ModuleID \<Rightarrow> 'a link_scheme \<Rightarrow> net \<Rightarrow> bool" where
  "check_due self w l s \<longleftrightarrow> link_bounded l \<and> (\<forall>v. v \<noteq> w \<longrightarrow> link_port_ok self v l s) \<and>
     checks self w s = {} \<and> outputQueue l w \<noteq> [] \<and> l_nextAvailable l w \<le> currentTime s"

lemma link_checkQueue_inv:
  assumes "check_due self w l s" and "sys_inv F s" and "link_checkQueue self w (l, s) = Inr (l', s')"
  shows "link_inv self l' s'"
  using assms(3)
proof (cases rule: link_checkQueueE)
  case early
  with assms(1) have False by (auto simp: check_due_def)
  then show ?thesis ..
next
  case (last td)
  note F = pcap_record_fields [OF last(5)] and E = post_effect [OF assms(2) last(6)]
  have "link_bounded l'" using F assms(1) by (auto simp: check_due_def link_bounded_def)
  moreover have "link_port_ok self v l' s'" for v
  proof (cases "v = w")
    case True
    with F assms(1) checks_post [OF assms(2) last(6), of self w] show ?thesis
      by (simp add: link_port_ok_def check_due_def)
  next
    case False
    with F assms(1) port_ok_post_other [OF assms(2) last(6), of self v l] port_ok_cong [of l' v l] show ?thesis
      by (simp add: check_due_def)
  qed
  ultimately show ?thesis by (simp add: link_inv_def)
next
  case (more td s1)
  note F = pcap_record_fields [OF more(4)] and E = post_effect [OF assms(2) more(5)]
  have i1: "sys_inv F s1" using E by blast
  have "link_bounded l'" using F assms(1) by (auto simp: check_due_def link_bounded_def intro: le_trans [OF diff_le_self])
  moreover have "link_port_ok self v l' s'" for v
  proof (cases "v = w")
    case True
    have "checks self w s1 = {}"
      using assms(1) checks_post [OF assms(2) more(5), of self w] by (simp add: check_due_def)
    then show ?thesis
      using True F E more(1) port_ok_post_check [OF i1 more(7), where l = l'] by simp
  next
    case False
    with F assms(1) port_ok_post_other [OF i1 more(7), of self v l]
      port_ok_post_other [OF assms(2) more(5), of self v l] port_ok_cong [of l' v l] show ?thesis
      by (simp add: check_due_def)
  qed
  ultimately show ?thesis by (simp add: link_inv_def)
qed

text \<open>The capture never reads outside the packet, and the drain of a queue never stops.\<close>

lemma pcap_record_ok:
  assumes "getSize p < 2 ^ 32"
  shows "\<exists>l'. pcap_record now p l = Inr l'"
proof (cases "pcap_enabled l")
  case True
  let ?n = "unat (of_nat (min (unat (snaplen l)) (getSize p)) :: u32)"
  have "?n \<le> getSize p"
    using assms by (auto simp: unsigned_of_nat take_bit_eq_mod intro: le_trans [OF mod_less_eq_dividend])
  then have "\<exists>x. readData p 0 (replicate ?n (Some 0)) ?n = Inr x"
    by (auto simp: readData_def Let_def getSize_def)
  with True show ?thesis by (auto simp: pcap_record_def Let_def)
qed (simp add: pcap_record_def)

lemma link_checkQueue_ok:
  assumes "check_due self w l s" and "sys_inv F s" and "uuids_below s"
    and "unat (currentUUID s) + 2 < 2 ^ 64"
    and "getSize (hd (outputQueue l w)) \<le> 1000000" and "unat (l_bps l) < 2 ^ 53"
    and "unat (currentTime s) + tx_time (l_bps l) (hd (outputQueue l w)) < 2 ^ 64"
  shows "\<exists>l' s'. link_checkQueue self w (l, s) = Inr (l', s') \<and> outputQueue l' w = tl (outputQueue l w)"
proof -
  let ?p = "hd (outputQueue l w)" and ?q = "tl (outputQueue l w)"
  let ?td = "of_nat (tx_time (l_bps l) ?p) :: u64"
  have td: "trans_delay (getSize ?p) (l_bps l) = Inr ?td" "unat ?td = tx_time (l_bps l) ?p"
    using trans_delay_tx [OF assms(5,6)] by auto
  let ?l = "l\<lparr>outputQueue := (outputQueue l)(w := ?q), l_nextAvailable := (l_nextAvailable l)(w := currentTime s + ?td)\<rparr>"
  obtain l2 where l2: "pcap_record (currentTime s) ?p ?l = Inr l2"
    using pcap_record_ok [of ?p] assms(5) by fastforce
  obtain s1 where s1: "post self w (WireMsg PACKET_TO_PORT ?p) ?td s = Inr s1"
    using post_ok [OF assms(2) uuids_below_fresh [OF assms(3)]] assms(4) by fastforce
  have i1: "sys_inv F s1" "uuids_below s1" "unat (currentUUID s1) + 1 < 2 ^ 64"
    using post_effect [OF assms(2) s1] uuids_below_post [OF assms(2) s1 assms(3)] assms(4) by auto
  obtain s2 where s2: "post self self (LinkMsg w) ?td s1 = Inr s2"
    using post_ok [OF i1(1) uuids_below_fresh [OF i1(2,3)]] by blast
  have "unat (currentTime s + ?td) = unat (currentTime s) + unat ?td"
    using assms(7) td(2) by (intro unat_plus_no_wrap) simp
  then have wait: "(if currentTime s + ?td > currentTime s then currentTime s + ?td - currentTime s else 0) = ?td"
    using td(2) by (auto simp: word_less_nat_alt)
  have due: "outputQueue l w \<noteq> []" "l_nextAvailable l w \<le> currentTime s"
    using assms(1) by (simp_all add: check_due_def)
  have "link_checkQueue self w (l, s) = (if ?q \<noteq> [] then Inr (l2, s2) else Inr (l2, s1))"
    unfolding link_checkQueue_def Let_def getCurrentTime_def prod.case
    using due td(1) l2 s1 s2 by (simp add: wait del: length_tl add_diff_cancel_left')
  then show ?thesis using pcap_record_fields [OF l2] by auto
qed

text \<open>The reader's view of the capture file: little-endian numbers.\<close>

definition le_num :: "bytes \<Rightarrow> nat" where
  "le_num bs = foldr (\<lambda>b n. unat b + 256 * n) bs 0"

lemma base256:
  "256 * c + r3 = b \<Longrightarrow> 256 * b + r2 = a \<Longrightarrow> 256 * a + r1 = m \<Longrightarrow>
   r1 + 256 * (r2 + 256 * (r3 + 256 * c)) = (m :: nat)"
  by simp

lemma le_num_le32 [simp]: "le_num (le32 w) = unat w"
proof -
  have b: "unat (ucast (drop_bit k w) :: u8) = unat w div 2 ^ k mod 256" for k
  proof -
    have "unat (drop_bit k w) = unat w div 2 ^ k"
      unfolding unat_drop_bit_eq by (rule drop_bit_eq_div)
    then show ?thesis by (simp add: unsigned_ucast_eq take_bit_eq_mod)
  qed
  have b0: "unat (ucast w :: u8) = unat w mod 256"
    by (simp add: unsigned_ucast_eq take_bit_eq_mod)
  have n: "m mod 256 + 256 * (m div 256 mod 256 + 256 * (m div 65536 mod 256 + 256 * (m div 16777216 mod 256))) = m"
    if "m < 4294967296" for m :: nat
  proof -
    let ?a = "m div 256" let ?b = "?a div 256" let ?c = "?b div 256"
    have d: "m div 65536 = ?b" "m div 16777216 = ?c" by (simp_all flip: div_mult2_eq)
    have "?c < 256" using that by (simp add: less_mult_imp_div_less flip: div_mult2_eq)
    then have c: "?c mod 256 = ?c" by (rule mod_less)
    show ?thesis
      unfolding d c by (rule base256) (rule mult_div_mod_eq)+
  qed
  have "unat w div 16777216 < 256"
    using unat_less_u32 [of w] by (simp add: less_mult_imp_div_less)
  then show ?thesis
    using n [OF unat_less_u32 [of w]] by (simp add: le_num_def le32_def b b0)
qed

lemma length_le32 [simp]: "length (le32 w) = 4"
  by (simp add: le32_def)

section \<open>Properties\<close>

text \<open>C10. Handing a packet to a link in a consistent state never trips an assertion and leaves
  the link consistent: the packet is last in its queue; a queue below its bound loses
  nothing; a full queue loses exactly one packet, of its back half, and keeps the order of
  the others; and every non-empty queue has exactly one \<^verbatim>\<open>CHECK_QUEUE\<close> pending, due when the
  wire is free. The bound must not be 1.\<close>

theorem link_sendPacket_safe:
  assumes "link_inv self l s" and "sys_inv F s" and "uuids_below s" and "unat (currentUUID s) + 1 < 2 ^ 64"
  shows "\<exists>q' g s'. link_sendPacket self w p (l, s) =
      Inr (l\<lparr>outputQueue := (outputQueue l)(w := q'), rand_dist := g\<rparr>, s') \<and>
    link_inv self (l\<lparr>outputQueue := (outputQueue l)(w := q'), rand_dist := g\<rparr>) s' \<and>
    (if max_queue_length l \<noteq> 0 \<and> length (outputQueue l w) = unat (max_queue_length l)
     then \<exists>i. unat (max_queue_length l) div 2 \<le> i \<and> i < length (outputQueue l w) \<and>
            q' = take i (outputQueue l w) @ drop (Suc i) (outputQueue l w) @ [p]
     else q' = outputQueue l w @ [p])"
  using link_sendPacket_inv [OF assms, of w p] unfolding enqueued_def by blast

lemma fresh_link_inv:
  "link_bounded l \<Longrightarrow> \<forall>w. outputQueue l w = [] \<Longrightarrow> timerQueue s = [] \<Longrightarrow> link_inv self l s"
  by (simp add: link_inv_def link_port_ok_def checks_def)

lemma demo_link_inv: "link_inv 9 (setQueueSize 4 (Link_new (sconst 0))) initial_system"
  by (rule fresh_link_inv)
    (simp_all add: link_bounded_def setQueueSize_def Link_new_def canonical_def initial_system_def)

lemma initial_uuids:
  "uuids_below (initial_system :: net)" "unat (currentUUID (initial_system :: net)) + 2 < 2 ^ 64"
  "unat (currentUUID (initial_system :: net)) + 1 < 2 ^ 64"
  by (simp_all add: uuids_below_def initial_system_def)

theorem link_sendPacket_safe_witness:
  "\<exists>q' g s'. link_sendPacket 9 3 \<lparr>buffer = [1], packetID = 0\<rparr>
      (setQueueSize 4 (Link_new (sconst 0)), initial_system) =
      Inr (setQueueSize 4 (Link_new (sconst 0))\<lparr>outputQueue := (\<lambda>_. [])(3 := q'), rand_dist := g\<rparr>, s') \<and>
    q' = [\<lparr>buffer = [1], packetID = 0\<rparr>]"
  using link_sendPacket_safe [OF demo_link_inv initial_system_inv initial_uuids(1,3),
      of 3 "\<lparr>buffer = [1], packetID = 0\<rparr>"]
  by (auto simp: setQueueSize_def Link_new_def)


definition demo_busy_link :: link where
  "demo_busy_link = (Link_new (sconst 0))\<lparr>outputQueue := (\<lambda>_. [])(3 := [\<lparr>buffer = [1], packetID = 0\<rparr>])\<rparr>"


text \<open>C38. With a queue bound of 1 the one-check discipline breaks: a second packet evicts the
  first and is alone in the queue again, so a second \<^verbatim>\<open>CHECK_QUEUE\<close> is scheduled. The first
  check empties the queue and the second one fails its assertion.\<close>

theorem link_queue_of_one_fails:
  assumes "canonical (rand_dist l)" and "max_queue_length l = 1" and "outputQueue l w = []"
    and "checks self w s = {}" and "sys_inv F s" and "uuids_below s" and "unat (currentUUID s) + 2 < 2 ^ 64"
  shows "\<exists>l1 s1 l2 s2. link_sendPacket self w p1 (l, s) = Inr (l1, s1) \<and>
    link_sendPacket self w p2 (l1, s1) = Inr (l2, s2) \<and>
    outputQueue l2 w = [p2] \<and> card (checks self w s2) = 2 \<and>
    (\<forall>s3 l4 s4 s5. l_nextAvailable l2 w \<le> currentTime s3 \<longrightarrow>
       link_checkQueue self w (l2, s3) = Inr (l4, s4) \<longrightarrow>
       link_checkQueue self w (l4, s5) = Inl AssertFail)"
proof -
  let ?d = "\<lambda>s. if l_nextAvailable l w > currentTime s then l_nextAvailable l w - currentTime s else 0"
  let ?l1 = "l\<lparr>outputQueue := (outputQueue l)(w := [p1]), rand_dist := rand_dist l\<rparr>"
  let ?l2 = "?l1\<lparr>outputQueue := (outputQueue ?l1)(w := [p2]), rand_dist := stl (rand_dist l)\<rparr>"
  have u1: "unat (currentUUID s) + 1 < 2 ^ 64" using assms(7) by simp
  obtain s1 where s1: "post self self (LinkMsg w) (?d s) s = Inr s1"
    using post_ok [OF assms(5) uuids_below_fresh [OF assms(6) u1]] by blast
  have i1: "sys_inv F s1" "uuids_below s1" "unat (currentUUID s1) + 1 < 2 ^ 64"
    "currentUUID s1 = currentUUID s + 1"
    using post_effect [OF assms(5) s1] uuids_below_post [OF assms(5) s1 assms(6) u1] assms(7) by auto
  obtain s2 where s2: "post self self (LinkMsg w) (?d s1) s1 = Inr s2"
    using post_ok [OF i1(1) uuids_below_fresh [OF i1(2,3)]] by blast
  have first: "link_sendPacket self w p1 (l, s) = Inr (?l1, s1)"
    using s1 assms(2,3) by (auto simp: link_sendPacket_def Let_def getCurrentTime_def split: if_splits)
  have "link_evict ?l1 [p1] = Inr ([], stl (rand_dist l))"
    using link_evict_spec [of ?l1 "[p1]"] assms(1,2) by auto
  then have second: "link_sendPacket self w p2 (?l1, s1) = Inr (?l2, s2)"
    using s2 assms(2) by (auto simp: link_sendPacket_def Let_def getCurrentTime_def split: if_splits)
  have "checks self w s2 = {currentUUID s1 + 1, currentUUID s + 1}"
    using checks_post [OF assms(5) s1, of self w] checks_post [OF i1(1) s2, of self w] assms(4) by auto
  moreover have "currentUUID s1 + 1 \<noteq> currentUUID s + 1" using i1(4) by simp
  ultimately have two: "card (checks self w s2) = 2" by simp
  have "link_checkQueue self w (l4, s5) = Inl AssertFail"
    if "l_nextAvailable ?l2 w \<le> currentTime s3" and r: "link_checkQueue self w (?l2, s3) = Inr (l4, s4)"
    for s3 l4 s4 s5
  proof -
    from r have "outputQueue l4 w = []"
      using that(1) by (cases rule: link_checkQueueE) (auto dest: pcap_record_fields)
    then show ?thesis by (simp add: link_checkQueue_def Let_def)
  qed
  then show ?thesis using first second two by (intro exI conjI allI impI) auto
qed

theorem link_queue_of_one_fails_witness:
  "\<exists>l1 s1 l2 s2.
    link_sendPacket 9 3 \<lparr>buffer = [1], packetID = 0\<rparr> (setQueueSize 1 (Link_new (sconst 0)), initial_system)
      = Inr (l1, s1) \<and>
    link_sendPacket 9 3 \<lparr>buffer = [2], packetID = 1\<rparr> (l1, s1) = Inr (l2, s2) \<and> card (checks 9 3 s2) = 2"
proof -
  have h: "canonical (rand_dist (setQueueSize 1 (Link_new (sconst 0))))"
    "max_queue_length (setQueueSize 1 (Link_new (sconst 0))) = 1"
    "outputQueue (setQueueSize 1 (Link_new (sconst 0))) 3 = []" "checks 9 3 initial_system = {}"
    by (simp_all add: setQueueSize_def Link_new_def canonical_def checks_def initial_system_def)
  from link_queue_of_one_fails [OF h initial_system_inv initial_uuids(1,2),
      of "\<lparr>buffer = [1], packetID = 0\<rparr>" "\<lparr>buffer = [2], packetID = 1\<rparr>"] show ?thesis
    by blast
qed

text \<open>Lowering the bound with \<^verbatim>\<open>setQueueSize\<close> below the length a queue already has makes the
  next packet for that queue fail: one packet is evicted, which is not enough for the
  assertion behind it.\<close>

theorem setQueueSize_below_length_fails:
  assumes "canonical (rand_dist l)" and "n \<noteq> 0" and "unat n < 2 ^ 53"
    and "unat n < length (outputQueue l w)"
  shows "link_sendPacket self w p (setQueueSize n l, s) = Inl AssertFail"
proof -
  let ?l = "setQueueSize n l" and ?q = "outputQueue l w"
  have f: "rand_dist ?l = rand_dist l" "max_queue_length ?l = n" "outputQueue ?l = outputQueue l"
    by (simp_all add: setQueueSize_def)
  obtain i where i: "link_evict ?l ?q = Inr (take i ?q @ drop (Suc i) ?q, stl (rand_dist l))" "i < unat n"
    using link_evict_spec [of ?l ?q] assms f by auto
  have "length (take i ?q @ drop (Suc i) ?q) = length ?q - 1" using i(2) assms(4) by simp
  then have "\<not> length (take i ?q @ drop (Suc i) ?q) < unat n" using assms(4) by linarith
  then show ?thesis
    using i(1) assms(2,4) by (simp add: link_sendPacket_def Let_def f)
qed

theorem setQueueSize_below_length_fails_witness:
  "link_sendPacket 9 3 \<lparr>buffer = [7], packetID = 2\<rparr>
     (setQueueSize 2 (demo_busy_link\<lparr>outputQueue :=
        \<lambda>_. [\<lparr>buffer = [1], packetID = 0\<rparr>, \<lparr>buffer = [2], packetID = 1\<rparr>, \<lparr>buffer = [3], packetID = 3\<rparr>]\<rparr>),
      initial_system) = Inl AssertFail"
proof (rule setQueueSize_below_length_fails)
  show "canonical (rand_dist (demo_busy_link\<lparr>outputQueue :=
        \<lambda>_. [\<lparr>buffer = [1], packetID = 0\<rparr>, \<lparr>buffer = [2], packetID = 1\<rparr>, \<lparr>buffer = [3], packetID = 3\<rparr>]\<rparr>))"
    by (simp add: demo_busy_link_def Link_new_def canonical_def)
qed simp_all

text \<open>The capture of a packet can be read back: its record holds the clock (as seconds and
  nanoseconds), the two lengths, and the first \<^verbatim>\<open>snaplen\<close> bytes of the packet.\<close>

theorem pcap_record_readable:
  assumes "pcap_enabled l" and "getSize p < 2 ^ 32" and "unat now < 2 ^ 32 * 1000000000"
  shows "\<exists>r. pcap_record now p l = Inr (l\<lparr>pcap_file := pcap_file l @ r\<rparr>) \<and>
    le_num (take 4 r) * 1000000000 + le_num (take 4 (drop 4 r)) = unat now \<and>
    le_num (take 4 (drop 8 r)) = min (unat (snaplen l)) (getSize p) \<and>
    le_num (take 4 (drop 12 r)) = getSize p \<and>
    drop 16 r = take (min (unat (snaplen l)) (getSize p)) (buffer p)"
proof -
  let ?n = "min (unat (snaplen l)) (getSize p)"
  let ?hdr = "pcap_packet_header now (of_nat ?n) (of_nat (getSize p))"
  have n: "unat (of_nat ?n :: u32) = ?n" "unat (of_nat (getSize p) :: u32) = getSize p"
    using assms(2) by (simp_all add: unsigned_of_nat take_bit_eq_mod)
  have "readData p 0 (replicate ?n (Some 0)) ?n = Inr (?n, map Some (take ?n (buffer p)))"
    by (auto simp: readData_def Let_def getSize_def overwrite_def)
  then have rec: "pcap_record now p l = Inr (l\<lparr>pcap_file := pcap_file l @ (?hdr @ take ?n (buffer p))\<rparr>)"
    using assms(1) n(1) by (simp add: pcap_record_def Let_def comp_def)
  have mult: "getMultiplier SEC = 1000000000" "getMultiplier NSEC = 1"
    by (simp_all add: getMultiplier_def multiplier_labels_def)
  have "unat now div 1000000000 < 4294967296"
    using assms(3) by (simp add: less_mult_imp_div_less)
  then have sec: "unat (ucast (getTime now SEC) :: u32) = unat now div 1000000000"
    by (simp add: getTime_def mult unat_div unsigned_ucast_eq take_bit_eq_mod)
  have "unat now mod 1000000000 < 4294967296"
    by (rule less_trans [OF mod_less_divisor]) simp_all
  then have nsec: "unat (ucast (getTime now NSEC mod 1000000000) :: u32) = unat now mod 1000000000"
    by (simp add: getTime_def mult unat_mod unsigned_ucast_eq take_bit_eq_mod)
  show ?thesis
    by (rule exI [of _ "?hdr @ take ?n (buffer p)"])
      (simp add: rec pcap_packet_header_def sec nsec n)
qed

theorem pcap_record_readable_witness:
  "\<exists>r. pcap_record 3000000007 \<lparr>buffer = [1, 2, 3], packetID = 0\<rparr> (enablePCAPLogging 2 (Link_new (sconst 0))) =
      Inr ((enablePCAPLogging 2 (Link_new (sconst 0)))\<lparr>pcap_file := pcap_file_header 2 @ r\<rparr>) \<and>
    drop 16 r = [1, 2]"
proof -
  let ?l = "enablePCAPLogging 2 (Link_new (sconst 0))"
  have h: "pcap_enabled ?l" "getSize \<lparr>buffer = [1, 2, 3], packetID = 0\<rparr> < 2 ^ 32"
    "unat (3000000007 :: Time) < 2 ^ 32 * 1000000000"
    by (simp_all add: enablePCAPLogging_def Link_new_def getSize_def)
  have f: "pcap_file ?l = pcap_file_header 2" "unat (snaplen ?l) = 2"
    by (simp_all add: enablePCAPLogging_def Link_new_def)
  from pcap_record_readable [OF h] show ?thesis
    unfolding f by (auto simp: getSize_def)
qed

end
