(* ===== verification/Hub_Switch.thy ===== *)
theory Hub_Switch
  imports Link
begin

text \<open>
  \<^verbatim>\<open>E::Hub\<close> and \<^verbatim>\<open>E::Switch\<close> (\<^verbatim>\<open>src/Networking/E_Hub.cpp\<close>, \<^verbatim>\<open>E_Switch.cpp\<close>): the two links. What a
  link relies on from its \<^verbatim>\<open>packetArrived\<close> is a locale, interpreted on both; the destination
  ports of a frame are specified by \<open>switch_targets\<close>.
\<close>

section \<open>Definitions\<close>

text \<open>\<^verbatim>\<open>Packet newPacket = packet.clone(); this->sendPacket(port, std::move(newPacket));\<close>\<close>

definition clone_and_send ::
  "ModuleID \<Rightarrow> packet \<Rightarrow> ModuleID \<Rightarrow> 'a link_scheme \<times> packet_ids \<times> net \<Rightarrow> ('a link_scheme \<times> packet_ids \<times> net) result" where
  "clone_and_send self packet port st =
     (case st of (l, ids, s) \<Rightarrow>
       bindE (clone packet ids) (\<lambda>(newPacket, ids').
       bindE (link_sendPacket self port newPacket (l, s)) (\<lambda>(l', s').
         Inr (l', ids', s'))))"

definition Hub_packetArrived :: "link arrival_handler" where
  "Hub_packetArrived self inWireID packet st =
     foldE (\<lambda>port st. if inWireID \<noteq> port then clone_and_send self packet port st else Inr st)
       (l_ports (fst st)) st"

record switch = link +
  mac_table :: "ModuleID \<rightharpoonup> u64 set"
  dist :: engine
  unreliable :: bool
  drop_base :: real
  drop_base_diff :: real
  drop_base_limit :: real
  drop_base_final :: real

definition Switch_new :: "engine \<Rightarrow> engine \<Rightarrow> bool \<Rightarrow> switch" where
  "Switch_new g g' unrel = link.extend (Link_new g)
     \<lparr>mac_table = Map.empty, dist = g', unreliable = unrel, drop_base = 1,
      drop_base_diff = rnd (1 / 10), drop_base_limit = rnd (15 / 100), drop_base_final = rnd (1 / 100)\<rparr>"

definition addMACEntry :: "int \<Rightarrow> mac_t \<Rightarrow> switch \<Rightarrow> switch result" where
  "addMACEntry port mac sw =
     (let mac_int = arrayToUINT64 mac in
      if port < 0 then Inl OutOfBounds
      else bindE (indexE (l_ports sw) (nat port)) (\<lambda>wireID.
        let entry = (case mac_table sw wireID of None \<Rightarrow> {} | Some ms \<Rightarrow> ms)
        in Inr (sw\<lparr>mac_table := (mac_table sw)(wireID \<mapsto> insert mac_int entry)\<rparr>)))"

text \<open>The decision of an unreliable switch to damage a frame.\<close>

definition switch_drop :: "switch \<Rightarrow> bool \<times> switch" where
  "switch_drop sw =
     (if unreliable sw then
        (let (val, g) = Uniform_next 0 1 (dist sw);
             base = (if drop_base sw < drop_base_limit sw then drop_base_final sw
                     else fsub (drop_base sw) (drop_base_diff sw))
         in (val < base, sw\<lparr>dist := g, drop_base := base\<rparr>))
      else (False, sw))"

text \<open>\<^verbatim>\<open>0xEEEEEEEE\<close>, \<^verbatim>\<open>0xEEEEEEEF\<close>, \<^verbatim>\<open>0xEEEE\<close> and \<^verbatim>\<open>0xEEEF\<close> in the byte order of the machine.\<close>

definition corrupt :: "packet \<Rightarrow> packet result" where
  "corrupt p =
     (if getSize p \<ge> 14 + 20 + 20 + 4 then
        bindE (get_bytes p (14 + 20 + 20) 4) (\<lambda>data.
          put_bytes p (14 + 20 + 20)
            (if data \<noteq> le32 0xEEEEEEEE then le32 0xEEEEEEEE else le32 0xEEEEEEEF))
      else if getSize p \<ge> 14 + 20 + 20 then
        bindE (get_bytes p (14 + 20 + 16) 2) (\<lambda>checksum.
          put_bytes p (14 + 20 + 16)
            (if checksum \<noteq> le16 0xEEEE then le16 0xEEEE else le16 0xEEEF))
      else Inr p)"

definition mac_broadcast :: mac_t where
  "mac_broadcast = [0xFF, 0xFF, 0xFF, 0xFF, 0xFF, 0xFF]"

definition mac_known :: "switch \<Rightarrow> ModuleID \<Rightarrow> u64 \<Rightarrow> bool" where
  "mac_known sw wireID mac_int =
     (case mac_table sw wireID of None \<Rightarrow> False | Some ms \<Rightarrow> mac_int \<in> ms)"

definition switch_step ::
  "ModuleID \<Rightarrow> ModuleID \<Rightarrow> packet \<Rightarrow> u64 \<Rightarrow> ModuleID \<Rightarrow> bool \<times> switch \<times> packet_ids \<times> net
     \<Rightarrow> (bool \<times> switch \<times> packet_ids \<times> net) result" where
  "switch_step self inWireID packet mac_int wireID st =
     (case st of (found, sw, ids, s) \<Rightarrow>
       if inWireID \<noteq> wireID \<and> (mac_int = arrayToUINT64 mac_broadcast \<or> mac_known sw wireID mac_int)
       then
         (let (drop, sw1) = switch_drop sw in
          bindE (clone packet ids) (\<lambda>(newPacket, ids').
          bindE (if drop then corrupt newPacket else Inr newPacket) (\<lambda>newPacket.
          bindE (link_sendPacket self wireID newPacket (sw1, s)) (\<lambda>(sw2, s').
            Inr (True, sw2, ids', s')))))
       else Inr (found, sw, ids, s))"

definition Switch_packetArrived :: "switch arrival_handler" where
  "Switch_packetArrived self inWireID packet st =
     (case st of (sw, ids, s) \<Rightarrow>
       bindE (get_bytes packet 0 6) (\<lambda>mac.
       bindE (foldE (switch_step self inWireID packet (arrayToUINT64 mac)) (l_ports sw) (False, sw, ids, s))
         (\<lambda>(found, st').
            if \<not> found then
              foldE (\<lambda>wireID st. if inWireID \<noteq> wireID then clone_and_send self packet wireID st else Inr st)
                (l_ports (fst st')) st'
            else Inr st')))"

text \<open>Specification: the ports a frame leaves by.\<close>

definition switch_targets :: "switch \<Rightarrow> ModuleID \<Rightarrow> mac_t \<Rightarrow> ModuleID list" where
  "switch_targets sw inWireID mac =
     (let others = filter (\<lambda>w. w \<noteq> inWireID) (l_ports sw);
          known = filter (\<lambda>w. mac = mac_broadcast \<or> mac_known sw w (arrayToUINT64 mac)) others
      in if known = [] then others else known)"

section \<open>What a link relies on from its packet handler\<close>

text \<open>It touches the scheduler by the calls of a link only, and keeps the queues consistent.\<close>

locale link_forwarder =
  fixes packetArrived :: "'a link_scheme arrival_handler"
  assumes arrival_emits: "packetArrived self i p (l, ids, s) = Inr (l', ids', s') \<Longrightarrow>
      emits (link_op self) s s'"
    and arrival_keeps: "packetArrived self i p (l, ids, s) = Inr (l', ids', s') \<Longrightarrow>
      link_inv self l s \<Longrightarrow> sys_inv F s \<Longrightarrow> link_inv self l' s'"
begin

lemma received_emits:
  "Link_messageReceived packetArrived self from m (l, ids, s) = Inr (ret, l', ids', s') \<Longrightarrow>
   ret = None \<and> emits (link_op self) s s'"
  by (auto simp: Link_messageReceived_def result_simps split: msg.splits
      dest: arrival_emits link_checkQueue_emits)

lemma received_keeps:
  assumes "Link_messageReceived packetArrived self from m (l, ids, s) = Inr (ret, l', ids', s')"
    and "sys_inv F s"
    and "case m of LinkMsg w \<Rightarrow> check_due self w l s | _ \<Rightarrow> link_inv self l s"
  shows "link_inv self l' s'"
  using assms
  by (auto simp: Link_messageReceived_def result_simps split: msg.splits
      dest: arrival_keeps link_checkQueue_inv)

end

section \<open>The hub and the switch are such handlers\<close>

lemma clone_and_send_step:
  assumes "clone_and_send self p w (l, ids, s) = Inr (l', ids', s')"
  shows "emits (link_op self) s s' \<and> (\<forall>F. link_inv self l s \<longrightarrow> sys_inv F s \<longrightarrow> link_inv self l' s')"
proof -
  from assms obtain np where send: "link_sendPacket self w np (l, s) = Inr (l', s')"
    by (auto simp: clone_and_send_def result_simps)
  from link_sendPacket_emits [OF send] link_sendPacket_keeps [OF _ _ send] show ?thesis by blast
qed

text \<open>Every loop of the two handlers is a fold of such steps.\<close>

definition link_steps :: "ModuleID \<Rightarrow> 'a link_scheme \<times> net \<Rightarrow> 'a link_scheme \<times> net \<Rightarrow> bool" where
  "link_steps self st st' \<longleftrightarrow> emits (link_op self) (snd st) (snd st') \<and>
     (\<forall>F. link_inv self (fst st) (snd st) \<longrightarrow> sys_inv F (snd st) \<longrightarrow> link_inv self (fst st') (snd st'))"

lemma link_steps_refl [simp]: "link_steps self st st"
  by (simp add: link_steps_def)

lemma link_steps_trans:
  "link_steps self st st' \<Longrightarrow> link_steps self st' st'' \<Longrightarrow> link_steps self st st''"
  unfolding link_steps_def by (blast intro: emits_trans dest: emits_inv)

lemma foldE_link_steps:
  assumes "foldE f xs st = Inr st'"
    and "\<And>x st st'. f x st = Inr st' \<Longrightarrow> link_steps self (pr st) (pr st')"
  shows "link_steps self (pr st) (pr st')"
  using assms(1)
proof (induction xs arbitrary: st)
  case (Cons x xs)
  then obtain st1 where "f x st = Inr st1" "foldE f xs st1 = Inr st'" by (auto simp: result_simps)
  with Cons.IH assms(2) show ?case by (blast intro: link_steps_trans)
qed simp

lemma clone_and_send_steps:
  "clone_and_send self p w (l, ids, s) = Inr (l', ids', s') \<Longrightarrow> link_steps self (l, s) (l', s')"
  using clone_and_send_step by (fastforce simp: link_steps_def)

lemma flood_steps:
  assumes "foldE (\<lambda>w st. if i \<noteq> w then clone_and_send self p w st else Inr st) ws st = Inr st'"
  shows "link_steps self (fst st, snd (snd st)) (fst st', snd (snd st'))"
  by (rule foldE_link_steps [OF assms, of self "\<lambda>st. (fst st, snd (snd st))"])
    (auto split: if_splits dest: clone_and_send_steps)

lemma Hub_steps:
  "Hub_packetArrived self i p (l, ids, s) = Inr (l', ids', s') \<Longrightarrow> link_steps self (l, s) (l', s')"
  unfolding Hub_packetArrived_def by (drule flood_steps) simp

lemma switch_drop_link:
  "switch_drop sw = (b, sw') \<Longrightarrow> link_inv self sw' s = link_inv self sw s \<and> l_ports sw' = l_ports sw \<and>
     mac_table sw' = mac_table sw"
  by (auto simp: switch_drop_def Let_def link_inv_def link_bounded_def link_port_ok_def
      split: if_splits prod.splits)

lemma switch_step_steps:
  assumes "switch_step self i p mac w (found, sw, ids, s) = Inr (found', sw', ids', s')"
  shows "link_steps self (sw, s) (sw', s')"
proof (cases "i \<noteq> w \<and> (mac = arrayToUINT64 mac_broadcast \<or> mac_known sw w mac)")
  case True
  with assms obtain b sw1 np where d: "switch_drop sw = (b, sw1)"
    and send: "link_sendPacket self w np (sw1, s) = Inr (sw', s')"
    by (auto simp: switch_step_def Let_def result_simps split: prod.splits)
  from link_sendPacket_emits [OF send] link_sendPacket_keeps [OF _ _ send] switch_drop_link [OF d]
  show ?thesis by (fastforce simp: link_steps_def)
next
  case False
  with assms have "sw' = sw" "s' = s" by (auto simp: switch_step_def)
  then show ?thesis by simp
qed

lemma Switch_steps:
  assumes "Switch_packetArrived self i p (sw, ids, s) = Inr (sw', ids', s')"
  shows "link_steps self (sw, s) (sw', s')"
proof -
  from assms obtain mac found st1 where
    loop: "foldE (switch_step self i p mac) (l_ports sw) (False, sw, ids, s) = Inr (found, st1)" and
    rest: "(if \<not> found then
              foldE (\<lambda>w st. if i \<noteq> w then clone_and_send self p w st else Inr st) (l_ports (fst st1)) st1
            else Inr st1) = Inr (sw', ids', s')"
    by (auto simp: Switch_packetArrived_def result_simps)
  have "link_steps self (sw, s) (fst st1, snd (snd st1))"
    using foldE_link_steps [OF loop, of self "\<lambda>(_, l, _, s). (l, s)"]
    by (fastforce dest: switch_step_steps simp: case_prod_beta)
  moreover have "link_steps self (fst st1, snd (snd st1)) (sw', s')"
    using rest by (cases found) (auto dest: flood_steps)
  ultimately show ?thesis by (rule link_steps_trans)
qed

interpretation hub: link_forwarder Hub_packetArrived
  by unfold_locales (auto dest!: Hub_steps simp: link_steps_def)

interpretation switch: link_forwarder Switch_packetArrived
  by unfold_locales (auto dest!: Switch_steps simp: link_steps_def)

section \<open>Where frames go\<close>

definition ids_room :: "nat \<Rightarrow> packet_ids \<Rightarrow> bool" where
  "ids_room n ids \<longleftrightarrow> (\<forall>u \<in> packetUUIDSet ids. u < packetUUIDStart ids) \<and>
     unat (packetUUIDStart ids) + n < 2 ^ 64"

lemma clone_ok:
  assumes "ids_room (Suc n) ids"
  shows "\<exists>np ids'. clone p ids = Inr (np, ids') \<and> buffer np = buffer p \<and> ids_room n ids'"
proof -
  let ?u = "packetUUIDStart ids"
  have fresh: "?u \<notin> packetUUIDSet ids" using assms by (auto simp: ids_room_def)
  have u: "unat (?u + 1) = unat ?u + 1"
    using assms by (intro trans [OF unat_plus_no_wrap]) (simp_all add: ids_room_def)
  then have lt: "?u < ?u + 1" by (simp add: word_less_nat_alt)
  let ?ids = "ids\<lparr>packetUUIDStart := ?u + 1, packetUUIDSet := insert ?u (packetUUIDSet ids)\<rparr>"
  have "clone p ids = Inr (\<lparr>buffer = buffer p, packetID = ?u\<rparr>, ?ids)"
    using fresh by (simp add: clone_def Packet_new_def allocatePacketUUID_def)
  moreover have "ids_room n ?ids"
    using assms u lt by (auto simp: ids_room_def dest: less_trans)
  ultimately show ?thesis by fastforce
qed

text \<open>An unbounded link that is consistent, with room for \<open>n\<close> more messages and clones.\<close>

definition roomy :: "ModuleID \<Rightarrow> nat \<Rightarrow> UUID set \<Rightarrow> 'a link_scheme \<times> packet_ids \<times> net \<Rightarrow> bool" where
  "roomy self n F st \<longleftrightarrow> (case st of (l, ids, s) \<Rightarrow>
     link_inv self l s \<and> max_queue_length l = 0 \<and> sys_inv F s \<and> uuids_below s \<and>
     unat (currentUUID s) + n < 2 ^ 64 \<and> ids_room n ids)"

lemma send_roomy:
  assumes "roomy self (Suc n) F (l, ids, s)" and "ids_room n ids'"
  shows "\<exists>l' s'. link_sendPacket self w p (l, s) = Inr (l', s') \<and> roomy self n F (l', ids', s') \<and>
    outputQueue l' = (outputQueue l)(w := outputQueue l w @ [p]) \<and>
    (\<exists>q g. l' = l\<lparr>outputQueue := q, rand_dist := g\<rparr>)"
proof -
  from assms(1) have "link_inv self l s" "sys_inv F s" "uuids_below s" "unat (currentUUID s) + 1 < 2 ^ 64"
    "max_queue_length l = 0" "unat (currentUUID s) + Suc n < 2 ^ 64"
    by (auto simp: roomy_def)
  with link_sendPacket_inv [OF this(1-4), of w p] assms(2) show ?thesis
    by (fastforce simp: roomy_def enqueued_def)
qed

lemma clone_and_send_roomy:
  assumes "roomy self (Suc n) F (l, ids, s)"
  shows "\<exists>l' ids' s' np. clone_and_send self p w (l, ids, s) = Inr (l', ids', s') \<and>
    roomy self n F (l', ids', s') \<and> buffer np = buffer p \<and>
    outputQueue l' = (outputQueue l)(w := outputQueue l w @ [np]) \<and>
    (\<exists>q g. l' = l\<lparr>outputQueue := q, rand_dist := g\<rparr>)"
proof -
  obtain np ids' where c: "clone p ids = Inr (np, ids')" "buffer np = buffer p" "ids_room n ids'"
    using clone_ok assms by (fastforce simp: roomy_def)
  from send_roomy [OF assms c(3), of w np] c show ?thesis
    by (fastforce simp: clone_and_send_def)
qed

text \<open>Sending to a list of distinct ports adds one copy of the frame to each of their queues.\<close>

lemma send_each:
  assumes "roomy self (n + length ws) F (l, ids, s)" and "distinct ws"
  shows "\<exists>l' ids' s'. foldE (clone_and_send self p) ws (l, ids, s) = Inr (l', ids', s') \<and>
    roomy self n F (l', ids', s') \<and> (\<exists>q g. l' = l\<lparr>outputQueue := q, rand_dist := g\<rparr>) \<and>
    (\<forall>w. map buffer (outputQueue l' w) =
       map buffer (outputQueue l w) @ (if w \<in> set ws then [buffer p] else []))"
  using assms
proof (induction ws arbitrary: l ids s)
  case Nil
  then show ?case by (auto intro!: exI [of _ "outputQueue l"] exI [of _ "rand_dist l"])
next
  case (Cons w ws)
  from Cons.prems(1) have "roomy self (Suc (n + length ws)) F (l, ids, s)" by simp
  from clone_and_send_roomy [OF this, of p w] obtain l1 ids1 s1 np where
    one: "clone_and_send self p w (l, ids, s) = Inr (l1, ids1, s1)" "roomy self (n + length ws) F (l1, ids1, s1)"
      "buffer np = buffer p" "outputQueue l1 = (outputQueue l)(w := outputQueue l w @ [np])"
      "\<exists>q g. l1 = l\<lparr>outputQueue := q, rand_dist := g\<rparr>"
    by blast
  have dis: "distinct ws" using Cons.prems(2) by simp
  from Cons.IH [OF one(2) dis] obtain l2 ids2 s2 where
    rest: "foldE (clone_and_send self p) ws (l1, ids1, s1) = Inr (l2, ids2, s2)"
      "roomy self n F (l2, ids2, s2)" "\<exists>q g. l2 = l1\<lparr>outputQueue := q, rand_dist := g\<rparr>"
      "\<forall>w. map buffer (outputQueue l2 w) =
         map buffer (outputQueue l1 w) @ (if w \<in> set ws then [buffer p] else [])"
    by blast
  have "map buffer (outputQueue l2 v) =
      map buffer (outputQueue l v) @ (if v \<in> set (w # ws) then [buffer p] else [])" for v
    using rest(4) one(3,4) Cons.prems(2) by auto
  moreover have "\<exists>q g. l2 = l\<lparr>outputQueue := q, rand_dist := g\<rparr>"
  proof -
    from one(5) obtain q g where "l1 = l\<lparr>outputQueue := q, rand_dist := g\<rparr>" by blast
    moreover from rest(3) obtain q' g' where "l2 = l1\<lparr>outputQueue := q', rand_dist := g'\<rparr>" by blast
    ultimately have "l2 = l\<lparr>outputQueue := q', rand_dist := g'\<rparr>" by simp
    then show ?thesis by blast
  qed
  ultimately show ?case using one(1) rest(1,2) by auto
qed

lemma foldE_filter:
  "foldE (\<lambda>x st. if P x then f x st else Inr st) xs st = foldE f (filter P xs) st"
  by (induction xs arbitrary: st) (auto simp: bindE_def split: sum.splits)

lemma Hub_eq:
  "Hub_packetArrived self i p st = foldE (clone_and_send self p) (filter (\<lambda>w. w \<noteq> i) (l_ports (fst st))) st"
  by (simp add: Hub_packetArrived_def foldE_filter eq_commute [of i])

text \<open>The first loop of a reliable switch.\<close>

lemma switch_loop:
  assumes "\<not> unreliable sw"
  shows "foldE (switch_step self i p mac) ws (found, sw, ids, s) =
    (let known = filter (\<lambda>w. w \<noteq> i \<and> (mac = arrayToUINT64 mac_broadcast \<or> mac_known sw w mac)) ws
     in bindE (foldE (clone_and_send self p) known (sw, ids, s)) (\<lambda>st. Inr (found \<or> known \<noteq> [], st)))"
  using assms
proof (induction ws arbitrary: found sw ids s)
  case (Cons w ws)
  let ?P = "\<lambda>w. w \<noteq> i \<and> (mac = arrayToUINT64 mac_broadcast \<or> mac_known sw w mac)"
  show ?case
  proof (cases "?P w")
    case False
    then have "switch_step self i p mac w (found, sw, ids, s) = Inr (found, sw, ids, s)"
      by (auto simp: switch_step_def)
    with False Cons show ?thesis by auto
  next
    case True
    have step: "switch_step self i p mac w (found, sw, ids, s) =
        bindE (clone_and_send self p w (sw, ids, s)) (\<lambda>st. Inr (True, st))"
      using True Cons.prems
      by (auto simp: switch_step_def switch_drop_def clone_and_send_def bindE_def split: sum.splits prod.splits)
    show ?thesis
    proof (cases "clone_and_send self p w (sw, ids, s)")
      case (Inl e)
      then show ?thesis using True step by (simp add: Let_def)
    next
      case (Inr st1)
      obtain sw1 ids1 s1 where st1: "st1 = (sw1, ids1, s1)" by (cases st1)
      from Inr st1 have same: "unreliable sw1 = unreliable sw" "mac_table sw1 = mac_table sw"
        by (auto simp: clone_and_send_def result_simps link_sendPacket_def Let_def split: if_splits)
      then have "mac_known sw1 = mac_known sw" by (intro ext) (simp add: mac_known_def)
      with Cons.IH [of sw1 True ids1 s1] Cons.prems same True step Inr st1 show ?thesis
        by (simp add: Let_def)
    qed
  qed
qed simp

lemma roomy_mono: "roomy self n F st \<Longrightarrow> m \<le> n \<Longrightarrow> roomy self m F st"
  by (auto simp: roomy_def ids_room_def)

lemma Switch_eq:
  assumes "\<not> unreliable sw" and "6 \<le> getSize p"
  shows "Switch_packetArrived self i p (sw, ids, s) =
    foldE (clone_and_send self p) (switch_targets sw i (take 6 (buffer p))) (sw, ids, s)"
proof -
  let ?mac = "take 6 (buffer p)" and ?others = "filter (\<lambda>w. w \<noteq> i) (l_ports sw)"
  have len: "length ?mac = 6" "length mac_broadcast = 6"
    using assms(2) by (simp_all add: getSize_def mac_broadcast_def)
  have inj: "arrayToUINT64 ?mac = arrayToUINT64 mac_broadcast \<longleftrightarrow> ?mac = mac_broadcast"
    using arrayToUINT64_inj [of ?mac mac_broadcast] len by auto
  let ?known = "filter (\<lambda>w. ?mac = mac_broadcast \<or> mac_known sw w (arrayToUINT64 ?mac)) ?others"
  have known: "filter (\<lambda>w. w \<noteq> i \<and> (arrayToUINT64 ?mac = arrayToUINT64 mac_broadcast \<or>
      mac_known sw w (arrayToUINT64 ?mac))) (l_ports sw) = ?known"
    by (simp add: inj conj_commute)
  have get: "get_bytes p 0 6 = Inr ?mac" using assms(2) by (simp add: get_bytes_ok getSize_def)
  have flood: "foldE (\<lambda>w st. if i \<noteq> w then clone_and_send self p w st else Inr st) ws st
      = foldE (clone_and_send self p) (filter (\<lambda>w. w \<noteq> i) ws) st" for ws st
    by (simp add: foldE_filter eq_commute [of i])
  show ?thesis
  proof (cases "?known = []")
    case True
    then show ?thesis
      by (simp add: Switch_packetArrived_def get switch_loop [OF assms(1)] known Let_def switch_targets_def flood)
  next
    case False
    then show ?thesis
      by (cases "foldE (clone_and_send self p) ?known (sw, ids, s)")
        (simp_all add: Switch_packetArrived_def get switch_loop [OF assms(1)] known Let_def switch_targets_def)
  qed
qed

section \<open>Properties\<close>

text \<open>C15. A reliable switch with unbounded queues sends one unchanged copy of a frame out of
  each of its target ports and nothing anywhere else, and stays consistent: the ports whose
  table has the destination address, every port for a broadcast, every port for an unknown
  address, and never the port the frame came in by.\<close>

theorem switch_forwards:
  assumes "roomy self (length (l_ports sw)) F (sw, ids, s)" and "\<not> unreliable sw"
    and "distinct (l_ports sw)" and "6 \<le> getSize p"
  shows "\<exists>sw' ids' s'. Switch_packetArrived self i p (sw, ids, s) = Inr (sw', ids', s') \<and>
    link_inv self sw' s' \<and> i \<notin> set (switch_targets sw i (take 6 (buffer p))) \<and>
    (\<forall>w. map buffer (outputQueue sw' w) = map buffer (outputQueue sw w) @
       (if w \<in> set (switch_targets sw i (take 6 (buffer p))) then [buffer p] else []))"
proof -
  let ?ts = "switch_targets sw i (take 6 (buffer p))"
  have ts: "distinct ?ts" "length ?ts \<le> length (l_ports sw)" "i \<notin> set ?ts"
    using assms(3) by (auto simp: switch_targets_def Let_def intro: le_trans [OF length_filter_le])
  have "roomy self (0 + length ?ts) F (sw, ids, s)"
    using roomy_mono [OF assms(1) ts(2)] by simp
  from send_each [OF this ts(1), of p] Switch_eq [OF assms(2,4)] ts(3) show ?thesis
    by (fastforce simp: roomy_def)
qed

definition demo_switch :: switch where
  "demo_switch = (Switch_new (sconst 0) (sconst 0) False)\<lparr>l_ports := [3, 4, 5]\<rparr>"

lemma demo_switch_roomy: "roomy 9 (length (l_ports demo_switch)) {} (demo_switch, initial_ids, initial_system)"
  unfolding roomy_def prod.case
  by (intro conjI fresh_link_inv initial_system_inv initial_uuids(1))
    (simp_all add: demo_switch_def Switch_new_def Link_new_def link_bounded_def canonical_def
      initial_system_def ids_room_def initial_ids_def link.defs)

theorem switch_forwards_witness:
  "\<exists>sw' ids' s'. Switch_packetArrived 9 4 \<lparr>buffer = mac_broadcast @ [1, 2], packetID = 0\<rparr>
      (demo_switch, initial_ids, initial_system) = Inr (sw', ids', s') \<and>
    map buffer (outputQueue sw' 3) = [mac_broadcast @ [1, 2]] \<and> outputQueue sw' 4 = []"
proof -
  let ?p = "\<lparr>buffer = mac_broadcast @ [1, 2], packetID = 0\<rparr>"
  have h: "\<not> unreliable demo_switch" "distinct (l_ports demo_switch)" "6 \<le> getSize ?p"
    by (simp_all add: demo_switch_def Switch_new_def Link_new_def link.defs getSize_def mac_broadcast_def)
  have t: "switch_targets demo_switch 4 (take 6 (buffer ?p)) = [3, 5]"
    by (simp add: switch_targets_def demo_switch_def Switch_new_def Link_new_def link.defs mac_broadcast_def)
  have q: "outputQueue demo_switch w = []" for w
    by (simp add: demo_switch_def Switch_new_def Link_new_def link.defs)
  from switch_forwards [OF demo_switch_roomy h, of 4] obtain sw' ids' s' where
    "Switch_packetArrived 9 4 ?p (demo_switch, initial_ids, initial_system) = Inr (sw', ids', s')"
    "\<forall>w. map buffer (outputQueue sw' w) = (if w \<in> set [3, 5] then [buffer ?p] else [])"
    unfolding t q by (simp only: list.map append_Nil) blast
  moreover from this(2) have "map buffer (outputQueue sw' 3) = [buffer ?p]" "outputQueue sw' 4 = []"
    by (simp, simp flip: map_is_Nil_conv [of buffer])
  ultimately show ?thesis by auto
qed

text \<open>A hub with unbounded queues sends one unchanged copy of a packet out of every port
  but the one it came in by.\<close>

theorem hub_floods:
  assumes "roomy self (length (l_ports l)) F (l, ids, s)" and "distinct (l_ports l)"
  shows "\<exists>l' ids' s'. Hub_packetArrived self i p (l, ids, s) = Inr (l', ids', s') \<and> link_inv self l' s' \<and>
    (\<forall>w. map buffer (outputQueue l' w) = map buffer (outputQueue l w) @
       (if w \<in> set (l_ports l) \<and> w \<noteq> i then [buffer p] else []))"
proof -
  let ?ts = "filter (\<lambda>w. w \<noteq> i) (l_ports l)"
  have "roomy self (0 + length ?ts) F (l, ids, s)"
    using roomy_mono [OF assms(1)] by simp
  from send_each [OF this, of p] assms(2) show ?thesis
    by (fastforce simp: Hub_eq roomy_def)
qed

theorem hub_floods_witness:
  "\<exists>l' ids' s'. Hub_packetArrived 9 4 \<lparr>buffer = [1, 2], packetID = 0\<rparr>
      ((Link_new (sconst 0))\<lparr>l_ports := [3, 4]\<rparr>, initial_ids, initial_system) = Inr (l', ids', s') \<and>
    map buffer (outputQueue l' 3) = [[1, 2]] \<and> outputQueue l' 4 = []"
proof -
  let ?l = "(Link_new (sconst 0))\<lparr>l_ports := [3, 4]\<rparr>"
  have r: "roomy 9 (length (l_ports ?l)) {} (?l, initial_ids, initial_system)"
    unfolding roomy_def prod.case
    by (intro conjI fresh_link_inv initial_system_inv initial_uuids(1))
      (simp_all add: Link_new_def link_bounded_def canonical_def initial_system_def ids_room_def initial_ids_def)
  have q: "outputQueue ?l w = []" "l_ports ?l = [3, 4]" for w
    by (simp_all add: Link_new_def)
  have "distinct (l_ports ?l)" by simp
  from hub_floods [OF r this, of 4 "\<lparr>buffer = [1, 2], packetID = 0\<rparr>"] obtain l' ids' s' where
    "Hub_packetArrived 9 4 \<lparr>buffer = [1, 2], packetID = 0\<rparr> (?l, initial_ids, initial_system) = Inr (l', ids', s')"
    "\<forall>w. map buffer (outputQueue l' w) = (if w \<in> set [3, 4] \<and> w \<noteq> 4 then [[1, 2]] else [])"
    unfolding q by auto
  moreover from this(2) have "map buffer (outputQueue l' 3) = [[1, 2]]" "outputQueue l' 4 = []"
    by (simp, simp flip: map_is_Nil_conv [of buffer])
  ultimately show ?thesis by (intro exI [of _ l'] exI [of _ ids'] exI [of _ s']) simp
qed



end
