(* ===== verification/Host_Base.thy ===== *)
theory Host_Base
  imports Messages Routing_Info Time_Util
begin

text \<open>
  \<^verbatim>\<open>E::Host\<close> (\<^verbatim>\<open>src/Networking/E_Host.cpp\<close>), first part: the state of a host, its processes and
  applications, and the services its modules and applications call. The classes that can be
  registered in a host are those of the repository, so the three maps of polymorphic
  pointers hold values of datatypes. A process is a pointer to its application; the
  applications live in a store. The body of \<^verbatim>\<open>E_Main\<close> is code of the user: a possibly infinite
  tree of system calls.
\<close>

section \<open>Applications\<close>

text \<open>The \<^verbatim>\<open>struct timeval\<close> objects of the applications, by address: seconds and microseconds.\<close>

type_synonym memory = "u64 \<rightharpoonup> u64 \<times> u64"

text \<open>\<open>Invoke param k\<close>: the next system call, and what follows for its result, the clock and the
  memory at that time.\<close>

codatatype prog = Exit int | Invoke syscall_param "int \<Rightarrow> Time \<Rightarrow> memory \<Rightarrow> prog"

datatype resume = AtMain prog | InSyscall "int \<Rightarrow> Time \<Rightarrow> memory \<Rightarrow> prog"

record app =
  app_host :: ModuleID
  app_pid :: int
  app_state :: runnable_state
  syscallRet :: int
  resume_at :: resume

record env =
  apps :: "runnable \<rightharpoonup> app"
  mem :: memory

definition SystemCallApplication_new :: "ModuleID \<Rightarrow> prog \<Rightarrow> app" where
  "SystemCallApplication_new h p =
     \<lparr>app_host = h, app_pid = -1, app_state = CREATED, syscallRet = 0, resume_at = AtMain p\<rparr>"

section \<open>The state of a host\<close>

datatype host_module = EthernetMod | IPv4Mod u16 | TCPMod | RIPMod | PWOSPFMod

datatype syscall_iface = DefaultIface | TCPIface

datatype timer_module = DefaultTimer | TCPTimer | RIPTimer | PWOSPFTimer

type_synonym namespace = "int \<times> int"

record process_info =
  application :: runnable
  fdToDomain :: "(int \<times> namespace) list"

record host =
  pidStart :: int
  syscallIDStart :: UUID
  running :: bool
  h_ports :: "ModuleID list"
  interfaceMap :: "namespace \<rightharpoonup> syscall_iface"
  hostModuleMap :: "string \<rightharpoonup> host_module"
  timerModuleMap :: "string \<rightharpoonup> timer_module"
  processInfoMap :: "int \<rightharpoonup> process_info"
  syscallMap :: "UUID \<rightharpoonup> int"
  routing :: routing_info

type_synonym hctx = "host \<times> env \<times> net"

definition MAX_FD :: int where "MAX_FD = 65536"
definition MAX_PID :: int where "MAX_PID = 65536"
definition AF_INET :: int where "AF_INET = 2"
definition IPPROTO_TCP :: int where "IPPROTO_TCP = 6"
definition EINVAL :: int where "EINVAL = 22"

text \<open>\<^verbatim>\<open>addHostModule<T>\<close>: the class decides in which maps the new object is entered, and each
  entry must be new.\<close>

datatype host_class = EthernetC | IPv4C | TCPAssignmentC | RIPAssignmentC | PWOSPFAssignmentC | DefaultSystemCallC

fun class_host_module :: "host_class \<Rightarrow> (string \<times> host_module) option" where
  "class_host_module EthernetC = Some (''Ethernet'', EthernetMod)"
| "class_host_module IPv4C = Some (''IPv4'', IPv4Mod 0)"
| "class_host_module TCPAssignmentC = Some (''TCP'', TCPMod)"
| "class_host_module RIPAssignmentC = Some (''UDP'', RIPMod)"
| "class_host_module PWOSPFAssignmentC = Some (''OSPF'', PWOSPFMod)"
| "class_host_module DefaultSystemCallC = None"

fun class_timer_module :: "host_class \<Rightarrow> (string \<times> timer_module) option" where
  "class_timer_module TCPAssignmentC = Some (''TCP'', TCPTimer)"
| "class_timer_module RIPAssignmentC = Some (''UDP'', RIPTimer)"
| "class_timer_module PWOSPFAssignmentC = Some (''OSPF'', PWOSPFTimer)"
| "class_timer_module DefaultSystemCallC = Some (''DefaultSyscall'', DefaultTimer)"
| "class_timer_module _ = None"

fun class_interface :: "host_class \<Rightarrow> (namespace \<times> syscall_iface) option" where
  "class_interface TCPAssignmentC = Some ((AF_INET, IPPROTO_TCP), TCPIface)"
| "class_interface DefaultSystemCallC = Some ((0, 0), DefaultIface)"
| "class_interface _ = None"

definition insert_new :: "('k \<times> 'v) option \<Rightarrow> ('k \<rightharpoonup> 'v) \<Rightarrow> ('k \<rightharpoonup> 'v) result" where
  "insert_new entry m =
     (case entry of None \<Rightarrow> Inr m
      | Some (k, v) \<Rightarrow> bindE (assertE (m k = None)) (\<lambda>_. Inr (m(k \<mapsto> v))))"

definition addHostModule :: "host_class \<Rightarrow> host \<Rightarrow> host result" where
  "addHostModule c h =
     bindE (insert_new (class_host_module c) (hostModuleMap h)) (\<lambda>hm.
     bindE (insert_new (class_timer_module c) (timerModuleMap h)) (\<lambda>tm.
     bindE (insert_new (class_interface c) (interfaceMap h)) (\<lambda>im.
       Inr (h\<lparr>hostModuleMap := hm, timerModuleMap := tm, interfaceMap := im\<rparr>))))"

definition Host_new :: "host result" where
  "Host_new =
     addHostModule DefaultSystemCallC
       \<lparr>pidStart = 0, syscallIDStart = 0, running = True, h_ports = [], interfaceMap = Map.empty,
        hostModuleMap = Map.empty, timerModuleMap = Map.empty, processInfoMap = Map.empty,
        syscallMap = Map.empty, routing = empty_routing\<rparr>"

definition host_connectWire :: "ModuleID \<Rightarrow> host \<Rightarrow> int \<times> host" where
  "host_connectWire moduleID h = (int (length (h_ports h)), h\<lparr>h_ports := h_ports h @ [moduleID]\<rparr>)"

section \<open>Packets\<close>

definition Host_sendPacket :: "ModuleID \<Rightarrow> nat \<Rightarrow> packet \<Rightarrow> hctx \<Rightarrow> hctx result" where
  "Host_sendPacket self portIndex packet st =
     (case st of (h, e, s) \<Rightarrow>
       bindE (assertE (portIndex < length (h_ports h))) (\<lambda>_.
         if running h = False then Inr (h, e, s)
         else bindE (post self (h_ports h ! portIndex) (WireMsg PACKET_TO_PORT packet) 0 s) (\<lambda>s'.
           Inr (h, e, s'))))"

text \<open>The loop that looks for the port with a source address; port 0 when there is none.\<close>

fun pick_port :: "routing_info \<Rightarrow> mac_t \<Rightarrow> nat list \<Rightarrow> nat result" where
  "pick_port ri my_mac [] = Inr 0"
| "pick_port ri my_mac (k # ks) =
     (case getMACAddr ri (int k) of
        None \<Rightarrow> Inl BadOptional
      | Some port_mac \<Rightarrow> if my_mac = port_mac then Inr k else pick_port ri my_mac ks)"

definition sendPacketToModule :: "ModuleID \<Rightarrow> string option \<Rightarrow> string \<Rightarrow> packet \<Rightarrow> hctx \<Rightarrow> hctx result" where
  "sendPacketToModule self fromModule toModule packet st =
     (case st of (h, e, s) \<Rightarrow>
       if toModule = ''Host'' then
         bindE (get_bytes packet 6 6) (\<lambda>my_mac.
         bindE (pick_port (routing h) my_mac [0..<length (h_ports h)]) (\<lambda>selected_port.
           Host_sendPacket self selected_port packet (h, e, s)))
       else if hostModuleMap h toModule = None then Inr (h, e, s)
       else bindE (post self self (PacketPass fromModule (Some toModule) packet) 0 s) (\<lambda>s'.
         Inr (h, e, s')))"

section \<open>Timers and system calls\<close>

definition host_addTimer :: "ModuleID \<Rightarrow> string \<Rightarrow> any_val \<Rightarrow> Time \<Rightarrow> net \<Rightarrow> (UUID \<times> net) result" where
  "host_addTimer self fromModule payload timeAfter s =
     sendMessage self self (TimerMsg fromModule payload) timeAfter s"

definition host_cancelTimer :: "UUID \<Rightarrow> net \<Rightarrow> net" where
  "host_cancelTimer key s = snd (cancelMessage key s)"

definition issueSystemCall :: "ModuleID \<Rightarrow> int \<Rightarrow> syscall_param \<Rightarrow> net \<Rightarrow> (UUID \<times> net) result" where
  "issueSystemCall self pid param s = sendMessage self self (SyscallMsg pid param) 0 s"

definition exitProcess :: "ModuleID \<Rightarrow> int \<Rightarrow> int \<Rightarrow> net \<Rightarrow> net result" where
  "exitProcess self pid returnValue s = post self self (ReturnMsg pid returnValue) 0 s"

text \<open>\<^verbatim>\<open>SystemCallApplication::returnSyscall\<close> (with \<^verbatim>\<open>Runnable::ready\<close>) and
  \<^verbatim>\<open>System::addRunnable\<close> with its assertion.\<close>

definition app_returnSyscall :: "int \<Rightarrow> runnable \<Rightarrow> env \<Rightarrow> env result" where
  "app_returnSyscall retVal r e =
     (case apps e r of
        None \<Rightarrow> Inl NullDeref
      | Some a \<Rightarrow>
          bindE (assertE (app_state a = WAITING)) (\<lambda>_.
            Inr (e\<lparr>apps := (apps e)(r \<mapsto> a\<lparr>syscallRet := retVal, app_state := READY\<rparr>)\<rparr>)))"

definition env_addRunnable :: "runnable \<Rightarrow> env \<Rightarrow> net \<Rightarrow> net result" where
  "env_addRunnable r e s =
     (case apps e r of
        None \<Rightarrow> Inl NullDeref
      | Some a \<Rightarrow> bindE (assertE (app_state a = READY)) (\<lambda>_. Inr (addRunnable r s)))"

definition returnSystemCall :: "UUID \<Rightarrow> int \<Rightarrow> hctx \<Rightarrow> hctx result" where
  "returnSystemCall syscallUUID val st =
     (case st of (h, e, s) \<Rightarrow>
       (case syscallMap h syscallUUID of
          None \<Rightarrow> Inr (h, e, s)
        | Some pid \<Rightarrow>
            (case processInfoMap h pid of
               None \<Rightarrow> Inl NullDeref
             | Some info \<Rightarrow>
                 bindE (app_returnSyscall val (application info) e) (\<lambda>e'.
                 bindE (env_addRunnable (application info) e' s) (\<lambda>s'.
                   Inr (h\<lparr>syscallMap := (syscallMap h)(syscallUUID := None)\<rparr>, e', s'))))))"

definition cleanUp :: "(UUID set \<Rightarrow> UUID list) \<Rightarrow> hctx \<Rightarrow> (int \<times> hctx) result" where
  "cleanUp ord st =
     (case st of (h, e, s) \<Rightarrow>
       let syscall_to_wakeup = ord (dom (syscallMap h))
       in bindE (foldE (\<lambda>u. returnSystemCall u (- 1)) syscall_to_wakeup (h\<lparr>running := False\<rparr>, e, s)) (\<lambda>st'.
            Inr (int (length syscall_to_wakeup), st')))"

section \<open>File descriptors and processes\<close>

text \<open>The iteration over the ordered map of descriptors.\<close>

fun next_fd :: "int \<Rightarrow> (int \<times> 'a) list \<Rightarrow> int" where
  "next_fd current [] = current"
| "next_fd current ((fd, v) # rest) = (if fd = current then next_fd (current + 1) rest else current)"

fun omap_insert :: "int \<Rightarrow> 'a \<Rightarrow> (int \<times> 'a) list \<Rightarrow> (int \<times> 'a) list" where
  "omap_insert k v [] = [(k, v)]"
| "omap_insert k v ((k', v') # rest) =
     (if k < k' then (k, v) # (k', v') # rest
      else if k = k' then (k', v') # rest
      else (k', v') # omap_insert k v rest)"

definition createFileDescriptor :: "int \<Rightarrow> int \<Rightarrow> int \<Rightarrow> host \<Rightarrow> (int \<times> host) result" where
  "createFileDescriptor domain protocol processID h =
     (case processInfoMap h processID of
        None \<Rightarrow> Inl AssertFail
      | Some info \<Rightarrow>
          let current = next_fd 3 (fdToDomain info)
          in if current \<ge> MAX_FD then Inr (- 1, h)
             else Inr (current, h\<lparr>processInfoMap := (processInfoMap h)(processID \<mapsto>
                    info\<lparr>fdToDomain := omap_insert current (domain, protocol) (fdToDomain info)\<rparr>)\<rparr>))"

definition removeFileDescriptor :: "int \<Rightarrow> int \<Rightarrow> host \<Rightarrow> host" where
  "removeFileDescriptor processID fd h =
     (case processInfoMap h processID of
        None \<Rightarrow> h
      | Some info \<Rightarrow> h\<lparr>processInfoMap := (processInfoMap h)(processID \<mapsto>
          info\<lparr>fdToDomain := filter (\<lambda>(k, _). k \<noteq> fd) (fdToDomain info)\<rparr>)\<rparr>)"

text \<open>The probe of \<^verbatim>\<open>registerProcess\<close>; the outer \<open>None\<close> is a probe that has not ended within the
  fuel.\<close>

fun pid_probe :: "nat \<Rightarrow> (int \<Rightarrow> bool) \<Rightarrow> int \<Rightarrow> int \<Rightarrow> int option option" where
  "pid_probe 0 used start current = None"
| "pid_probe (Suc n) used start current =
     (if \<not> used current then Some (Some current)
      else let current = (current + 1) mod MAX_FD
           in if start \<noteq> current then pid_probe n used start current else Some None)"

definition registerProcess :: "runnable \<Rightarrow> host \<times> env \<Rightarrow> (int \<times> host \<times> env) result option" where
  "registerProcess app_ptr st =
     (case st of (h, e) \<Rightarrow>
       (case pid_probe (nat MAX_FD) (\<lambda>p. processInfoMap h p \<noteq> None) (pidStart h) (pidStart h) of
          None \<Rightarrow> None
        | Some None \<Rightarrow> Some (Inr (- 1, h, e))
        | Some (Some current) \<Rightarrow>
            Some (case apps e app_ptr of
                    None \<Rightarrow> Inl NullDeref
                  | Some a \<Rightarrow>
                      Inr (current,
                        h\<lparr>processInfoMap := (processInfoMap h)(current \<mapsto> \<lparr>application = app_ptr, fdToDomain = []\<rparr>),
                          pidStart := (current + 1) mod MAX_PID\<rparr>,
                        e\<lparr>apps := (apps e)(app_ptr \<mapsto> a\<lparr>app_pid := current\<rparr>)\<rparr>))))"

text \<open>\<^verbatim>\<open>launchApplication\<close>; \<^verbatim>\<open>initialize\<close> is \<^verbatim>\<open>Runnable::start\<close>, which returns with the application
  ready.\<close>

definition launchApplication :: "int \<Rightarrow> hctx \<Rightarrow> hctx result" where
  "launchApplication pid st =
     (case st of (h, e, s) \<Rightarrow>
       (case processInfoMap h pid of
          None \<Rightarrow> Inl AssertFail
        | Some info \<Rightarrow>
            (case apps e (application info) of
               None \<Rightarrow> Inl NullDeref
             | Some a \<Rightarrow>
                 bindE (assertE (app_pid a = pid)) (\<lambda>_.
                 bindE (assertE (app_state a = CREATED)) (\<lambda>_.
                   let e' = e\<lparr>apps := (apps e)(application info \<mapsto> a\<lparr>app_state := READY\<rparr>)\<rparr>
                   in bindE (env_addRunnable (application info) e' s) (\<lambda>s'. Inr (h, e', s')))))))"

end
