(* ===== verification/Protocols.thy ===== *)
theory Protocols
  imports Host_Base Network_Util
begin

text \<open>
  The modules registered in a host: \<^verbatim>\<open>Ethernet\<close> (\<^verbatim>\<open>src/Networking/Ethernet/E_Ethernet.cpp\<close>), \<^verbatim>\<open>IPv4\<close>
  (\<^verbatim>\<open>src/Networking/IPv4/E_IPv4.cpp\<close>), the default system calls (\<^verbatim>\<open>Host::DefaultSystemCall\<close>) and the
  assignment modules \<^verbatim>\<open>TCPAssignment\<close>, \<^verbatim>\<open>RIPAssignment\<close>, \<^verbatim>\<open>PWOSPFAssignment\<close>, whose bodies in
  the repository are empty.
\<close>

section \<open>Ethernet\<close>

definition ip_broadcasts :: "ipv4_t set" where
  "ip_broadcasts = {[255, 255, 255, 255], [224, 0, 0, 5], [224, 0, 0, 6]}"

text \<open>\<^verbatim>\<open>HostModule::sendPacket\<close> of the module called \<open>name\<close>.\<close>

definition module_sendPacket :: "ModuleID \<Rightarrow> string \<Rightarrow> string \<Rightarrow> packet \<Rightarrow> hctx \<Rightarrow> hctx result" where
  "module_sendPacket self name toModule packet st = sendPacketToModule self (Some name) toModule packet st"

definition Ethernet_packetArrived :: "ModuleID \<Rightarrow> string \<Rightarrow> packet \<Rightarrow> hctx \<Rightarrow> hctx result" where
  "Ethernet_packetArrived self fromModule packet st =
     (let ri = routing (fst st) in
      if fromModule = ''Host'' then
        bindE (get_bytes packet 12 1) (\<lambda>first_byte.
        bindE (get_bytes packet 13 1) (\<lambda>second_byte.
          if first_byte = [0x08] \<and> second_byte = [0x00]
          then module_sendPacket self ''Ethernet'' ''IPv4'' packet st
          else if first_byte = [0x86] \<and> second_byte = [0xDD]
          then module_sendPacket self ''Ethernet'' ''IPv6'' packet st
          else Inl AssertFail))
      else if fromModule = ''IPv4'' then
        bindE (put_bytes packet 12 [0x08]) (\<lambda>packet.
        bindE (put_bytes packet 13 [0x00]) (\<lambda>packet.
        bindE (get_bytes packet 30 4) (\<lambda>dst_ip.
          if dst_ip \<in> ip_broadcasts then
            bindE (get_bytes packet 26 4) (\<lambda>src_ip.
            bindE (getRoutingTable ri src_ip) (\<lambda>port.
              case getMACAddr ri port of
                None \<Rightarrow> Inr st
              | Some src \<Rightarrow>
                  bindE (put_bytes packet 0 [0xFF, 0xFF, 0xFF, 0xFF, 0xFF, 0xFF]) (\<lambda>packet.
                  bindE (put_bytes packet 6 src) (\<lambda>packet.
                    module_sendPacket self ''Ethernet'' ''Host'' packet st))))
          else
            bindE (getRoutingTable ri dst_ip) (\<lambda>port.
              case getMACAddr ri port of
                None \<Rightarrow> Inr st
              | Some src \<Rightarrow>
                  (case getARPTable ri dst_ip of
                     None \<Rightarrow> Inr st
                   | Some dst \<Rightarrow>
                       bindE (put_bytes packet 0 dst) (\<lambda>packet.
                       bindE (put_bytes packet 6 src) (\<lambda>packet.
                         module_sendPacket self ''Ethernet'' ''Host'' packet st)))))))
      else if fromModule = ''IPv6'' then
        bindE (put_bytes packet 12 [0x86]) (\<lambda>packet.
        bindE (put_bytes packet 13 [0xDD]) (\<lambda>packet.
          module_sendPacket self ''Ethernet'' ''Host'' packet st))
      else Inr st)"

section \<open>IPv4\<close>

text \<open>The receiving direction: where the packet goes, if anywhere.\<close>

definition ipv4_receive :: "packet \<Rightarrow> string option result" where
  "ipv4_receive packet =
     bindE (get_bytes packet 12 1) (\<lambda>first_byte.
     bindE (get_bytes packet 13 1) (\<lambda>second_byte.
     bindE (assertE (first_byte = [0x08] \<and> second_byte = [0x00])) (\<lambda>_.
     bindE (get_bytes packet 14 20) (\<lambda>ip_header_buffer.
       let checksum = one_sum ip_header_buffer in
       if checksum \<noteq> 0xFFFF \<and> checksum \<noteq> 0 then Inr None
       else
         bindE (get_bytes packet (14 + 9) 1) (\<lambda>protocol.
           Inr (if protocol = [0x06] then Some ''TCP''
                else if protocol = [0x11] then Some ''UDP''
                else if protocol = [0x59] then Some ''OSPF''
                else None))))))"

text \<open>The byte writes of the sending direction, in the order of the source.\<close>

definition ipv4_fields :: "u8 \<Rightarrow> u16 \<Rightarrow> nat \<Rightarrow> (nat \<times> bytes) list" where
  "ipv4_fields proto cur_id psize =
     (let size16 = of_nat (psize - 14) :: u16 in
      [(14 + 0, [push_bit 4 4 + 5]),
       (14 + 1, [0]),
       (14 + 2, [ucast (drop_bit 8 size16)]), (14 + 3, [ucast (and size16 0xFF)]),
       (14 + 4, [ucast (drop_bit 8 cur_id)]), (14 + 5, [ucast (and cur_id 0xFF)]),
       (14 + 6, [push_bit 6 1]), (14 + 7, [0]),
       (14 + 8, [64]), (14 + 9, [proto]),
       (14 + 10, [0]), (14 + 11, [0])])"

definition ipv4_send :: "u8 \<Rightarrow> u16 \<Rightarrow> packet \<Rightarrow> packet result" where
  "ipv4_send proto cur_id packet =
     bindE (foldE (\<lambda>(off, d) p. put_bytes p off d) (take 2 (ipv4_fields proto cur_id (getSize packet))) packet) (\<lambda>packet.
     bindE (assertE (getSize packet \<ge> 14 + 20)) (\<lambda>_.
     bindE (foldE (\<lambda>(off, d) p. put_bytes p off d) (drop 2 (ipv4_fields proto cur_id (getSize packet))) packet) (\<lambda>packet.
     bindE (get_bytes packet 14 20) (\<lambda>ip_header_buffer.
       let checksum = not (one_sum ip_header_buffer)
       in put_bytes packet (14 + 10) (be16 checksum)))))"

definition ipv4_protocol :: "string \<Rightarrow> u8" where
  "ipv4_protocol fromModule =
     (if fromModule = ''OSPF'' then 0x59 else if fromModule = ''UDP'' then 0x11
      else if fromModule = ''TCP'' then 0x06 else 0)"

definition IPv4_packetArrived :: "ModuleID \<Rightarrow> u16 \<Rightarrow> string \<Rightarrow> packet \<Rightarrow> hctx \<Rightarrow> hctx result" where
  "IPv4_packetArrived self identification fromModule packet st =
     (if fromModule = ''Ethernet'' then
        bindE (ipv4_receive packet) (\<lambda>to.
          case to of None \<Rightarrow> Inr st
          | Some m \<Rightarrow> module_sendPacket self ''IPv4'' m packet st)
      else if fromModule = ''TCP'' \<or> fromModule = ''UDP'' \<or> fromModule = ''OSPF'' then
        bindE (ipv4_send (ipv4_protocol fromModule) identification packet) (\<lambda>packet.
          case st of (h, e, s) \<Rightarrow>
            module_sendPacket self ''IPv4'' ''Ethernet'' packet
              (h\<lparr>hostModuleMap := (hostModuleMap h)(''IPv4'' \<mapsto> IPv4Mod (identification + 1))\<rparr>, e, s))
      else Inl AssertFail)"

section \<open>System calls of the host itself\<close>

definition Default_timerCallback :: "any_val \<Rightarrow> hctx \<Rightarrow> hctx result" where
  "Default_timerCallback payload st =
     (case payload of AnyUUID syscallUUID \<Rightarrow> returnSystemCall syscallUUID 0 st | _ \<Rightarrow> Inl BadCast)"

text \<open>A store through the \<^verbatim>\<open>timeval\<close> pointer.\<close>

definition store_timeval :: "u64 \<Rightarrow> u64 \<times> u64 \<Rightarrow> env \<Rightarrow> env result" where
  "store_timeval a v e =
     (if a = 0 then Inl NullDeref
      else if mem e a = None then Inl OutOfBounds
      else Inr (e\<lparr>mem := (mem e)(a \<mapsto> v)\<rparr>))"

definition Default_systemCallback :: "ModuleID \<Rightarrow> UUID \<Rightarrow> int \<Rightarrow> syscall_param \<Rightarrow> hctx \<Rightarrow> hctx result" where
  "Default_systemCallback self syscallUUID pid param st =
     (case st of (h, e, s) \<Rightarrow>
       (case syscallNumber param of
          NSLEEP \<Rightarrow>
            bindE (get_param param 0) (\<lambda>v.
            bindE (get_u64 v) (\<lambda>t.
            bindE (host_addTimer self ''DefaultSyscall'' (AnyUUID syscallUUID) t s) (\<lambda>(_, s').
              Inr (h, e, s'))))
        | GETTIMEOFDAY \<Rightarrow>
            bindE (bindE (get_param param 0) get_ptr) (\<lambda>tv.
            bindE (bindE (get_param param 1) get_ptr) (\<lambda>tz.
              let usec = getTime (getCurrentTime s) USEC in
              if tz \<noteq> 0 then returnSystemCall syscallUUID (- EINVAL) (h, e, s)
              else bindE (store_timeval tv (usec div 1000000, usec mod 1000000) e) (\<lambda>e'.
                returnSystemCall syscallUUID 0 (h, e', s))))
        | _ \<Rightarrow> Inl AssertFail))"

section \<open>The assignment modules as the repository ships them\<close>

definition TCP_systemCallback :: "UUID \<Rightarrow> int \<Rightarrow> syscall_param \<Rightarrow> hctx \<Rightarrow> hctx result" where
  "TCP_systemCallback syscallUUID pid param st =
     (if syscallNumber param \<in> {SOCKET, CLOSE, READ, WRITE, CONNECT, LISTEN, ACCEPT, BIND, GETSOCKNAME, GETPEERNAME}
      then Inr st else Inl AssertFail)"

definition Assignment_packetArrived :: "string \<Rightarrow> packet \<Rightarrow> hctx \<Rightarrow> hctx result" where
  "Assignment_packetArrived fromModule packet st = Inr st"

definition Assignment_timerCallback :: "any_val \<Rightarrow> hctx \<Rightarrow> hctx result" where
  "Assignment_timerCallback payload st = Inr st"

definition ripQuery :: "ipv4_t \<Rightarrow> Size" where
  "ripQuery ipv4 = - 1"

definition pwospfQuery :: "ipv4_t \<Rightarrow> Size" where
  "pwospfQuery ipv4 = - 1"

text \<open>\<^verbatim>\<open>diagnose\<close>: the two routing assignments answer for an address, the default answers 0.\<close>

fun module_diagnose :: "host_module \<Rightarrow> any_val \<Rightarrow> any_val result" where
  "module_diagnose RIPMod (AnyIPv4 ip) = Inr (AnySize (ripQuery ip))"
| "module_diagnose RIPMod _ = Inl BadCast"
| "module_diagnose PWOSPFMod (AnyIPv4 ip) = Inr (AnySize (pwospfQuery ip))"
| "module_diagnose PWOSPFMod _ = Inl BadCast"
| "module_diagnose _ _ = Inr (AnyInt 0)"

definition MaxCost :: nat where "MaxCost = 20"

text \<open>\<^verbatim>\<open>calc_cost_lcm\<close>; \<open>None\<close> for 0, where the recursion of the source runs off below zero.\<close>

fun calc_cost_lcm :: "nat \<Rightarrow> nat option" where
  "calc_cost_lcm 0 = None"
| "calc_cost_lcm (Suc n) = (if Suc n = 1 then Some 1 else map_option (lcm (Suc n)) (calc_cost_lcm n))"

definition CostLCM :: Size where "CostLCM = of_nat (the (calc_cost_lcm MaxCost))"

text \<open>\<^verbatim>\<open>linkCost\<close> of the two routing assignments; a division by zero stops the program.\<close>

definition linkCost :: "Size \<Rightarrow> Size result" where
  "linkCost bps = (if bps = 0 then Inl OutOfRange else Inr (CostLCM div bps))"

section \<open>The IPv4 header\<close>

definition ipv4_header :: "u8 \<Rightarrow> u16 \<Rightarrow> nat \<Rightarrow> bytes" where
  "ipv4_header proto cur_id psize = map (hd \<circ> snd) (ipv4_fields proto cur_id psize)"

lemma length_ipv4_header [simp]: "length (ipv4_header proto cur_id n) = 12"
  by (simp add: ipv4_header_def ipv4_fields_def Let_def)

lemma ipv4_header_eq:
  "ipv4_header proto cur_id n = [0x45, 0] @ be16 (of_nat (n - 14)) @ be16 cur_id @ [0x40, 0, 64, proto, 0, 0]"
proof -
  have "ucast (and w 0xFF) = (ucast w :: u8)" for w :: u16
    by (rule bit_word_eqI) (auto simp: bit_simps and_0xFF)
  then show ?thesis
    by (simp add: ipv4_header_def ipv4_fields_def be16_def Let_def)
qed

lemma ipv4_fields_run:
  "ipv4_fields proto cur_id n = map (\<lambda>i. (14 + i, [ipv4_header proto cur_id n ! i])) [0..<12]"
  by (simp add: ipv4_header_def ipv4_fields_def Let_def upt_rec)

lemma overwrite_snoc:
  "off + Suc (length bs) \<le> length xs \<Longrightarrow>
   overwrite (off + length bs) [b] (overwrite off bs xs) = overwrite off (bs @ [b]) xs"
  by (simp add: overwrite_def add.commute add.left_commute min_def)

text \<open>Writing bytes one after the other writes them all.\<close>

lemma put_run:
  assumes "off + length bs \<le> getSize p"
  shows "foldE (\<lambda>(a, d) p. put_bytes p a d) (map (\<lambda>i. (off + i, [bs ! i])) [0..<length bs]) p =
    Inr (p\<lparr>buffer := overwrite off bs (buffer p)\<rparr>)"
  using assms
proof (induction bs rule: rev_induct)
  case Nil
  then show ?case by (simp add: overwrite_def)
next
  case (snoc b bs)
  have m: "map (\<lambda>i. (off + i, [(bs @ [b]) ! i])) [0..<length bs] = map (\<lambda>i. (off + i, [bs ! i])) [0..<length bs]"
    by (auto simp: nth_append)
  have fit: "off + Suc (length bs) \<le> length (buffer p)" using snoc.prems by (simp add: getSize_def)
  then have "put_bytes (p\<lparr>buffer := overwrite off bs (buffer p)\<rparr>) (off + length bs) [b]
      = Inr (p\<lparr>buffer := overwrite off (bs @ [b]) (buffer p)\<rparr>)"
    using put_bytes_ok [of "off + length bs" "[b]" "p\<lparr>buffer := overwrite off bs (buffer p)\<rparr>"]
      overwrite_snoc [OF fit, of b] by simp
  then show ?case
    using snoc by (simp add: foldE_append m)
qed

definition ipv4_sent :: "u8 \<Rightarrow> u16 \<Rightarrow> bytes \<Rightarrow> bytes" where
  "ipv4_sent proto cur_id b =
     (let b1 = overwrite 14 (ipv4_header proto cur_id (length b)) b
      in overwrite 24 (be16 (not (one_sum (take 20 (drop 14 b1))))) b1)"

lemma ipv4_send_eq:
  assumes "34 \<le> getSize p"
  shows "ipv4_send proto cur_id p = Inr (p\<lparr>buffer := ipv4_sent proto cur_id (buffer p)\<rparr>)"
proof -
  let ?f = "\<lambda>(a, d) p. put_bytes p a d" and ?fs = "ipv4_fields proto cur_id (getSize p)"
  let ?p1 = "p\<lparr>buffer := overwrite 14 (ipv4_header proto cur_id (getSize p)) (buffer p)\<rparr>"
  have run: "foldE ?f ?fs p = Inr ?p1"
    using put_run [of 14 "ipv4_header proto cur_id (getSize p)" p] assms by (simp add: ipv4_fields_run)
  have "?fs = take 2 ?fs @ drop 2 ?fs" by simp
  with run have "bindE (foldE ?f (take 2 ?fs) p) (foldE ?f (drop 2 ?fs)) = Inr ?p1"
    by (metis foldE_append)
  then obtain p0 where p0: "foldE ?f (take 2 ?fs) p = Inr p0" "foldE ?f (drop 2 ?fs) p0 = Inr ?p1"
    by (auto simp: result_simps)
  have "\<forall>(a, d) \<in> set (take 2 ?fs). a + length d \<le> getSize p"
    using assms by (auto simp: ipv4_fields_def Let_def numeral_eq_Suc)
  from pkt.puts_ok [OF this] p0(1) have sz: "getSize p0 = getSize p" by auto
  have sz1: "getSize ?p1 = getSize p" using assms by (simp add: getSize_def)
  have "get_bytes ?p1 14 20 = Inr (take 20 (drop 14 (buffer ?p1)))"
    using sz1 assms by (intro get_bytes_ok) (simp add: getSize_def)
  then show ?thesis
    using p0 sz assms sz1
    by (simp add: ipv4_send_def Let_def put_bytes_ok getSize_def ipv4_sent_def)
qed

lemma overwrite_window:
  assumes "a \<le> off" and "off + length d \<le> a + n" and "a + n \<le> length xs"
  shows "take n (drop a (overwrite off d xs)) = overwrite (off - a) d (take n (drop a xs))"
proof (rule nth_equalityI)
  show "length (take n (drop a (overwrite off d xs))) = length (overwrite (off - a) d (take n (drop a xs)))"
    using assms by simp
  fix i assume "i < length (take n (drop a (overwrite off d xs)))"
  then have i: "i < n" "a + i < length xs" using assms by auto
  with assms show "take n (drop a (overwrite off d xs)) ! i = overwrite (off - a) d (take n (drop a xs)) ! i"
    by (auto simp: nth_overwrite add.commute)
qed

lemma ipv4_sent_bytes:
  assumes "34 \<le> length b"
  shows "length (ipv4_sent proto cur_id b) = length b"
    and "take 14 (ipv4_sent proto cur_id b) = take 14 b"
    and "take 10 (drop 14 (ipv4_sent proto cur_id b)) = take 10 (ipv4_header proto cur_id (length b))"
    and "drop 26 (ipv4_sent proto cur_id b) = drop 26 b"
    and "one_sum (take 20 (drop 14 (ipv4_sent proto cur_id b))) = 0xFFFF"
proof -
  let ?h = "ipv4_header proto cur_id (length b)"
  let ?b1 = "overwrite 14 ?h b"
  let ?c = "be16 (not (one_sum (take 20 (drop 14 ?b1))))"
  have sent: "ipv4_sent proto cur_id b = overwrite 24 ?c ?b1" by (simp add: ipv4_sent_def Let_def)
  have len1: "length ?b1 = length b" using assms by simp
  show "length (ipv4_sent proto cur_id b) = length b" using assms len1 by (simp add: sent)
  show "take 14 (ipv4_sent proto cur_id b) = take 14 b"
    using assms len1 by (simp add: sent overwrite_def min_def)
  show "take 10 (drop 14 (ipv4_sent proto cur_id b)) = take 10 ?h"
    using assms len1 by (simp add: sent overwrite_def min_def)
  show "drop 26 (ipv4_sent proto cur_id b) = drop 26 b"
    using assms len1 by (simp add: sent overwrite_def min_def)
  let ?hdr = "take 20 (drop 14 ?b1)"
  have z: "?hdr ! 10 = 0" "?hdr ! Suc 10 = 0"
    using assms len1 by (simp_all add: nth_overwrite ipv4_header_eq be16_def)
  have "take 20 (drop 14 (overwrite 24 ?c ?b1)) = overwrite (24 - 14) ?c ?hdr"
    using assms len1 by (intro overwrite_window) simp_all
  also have "\<dots> = overwrite 10 ?c ?hdr" by simp
  finally show "one_sum (take 20 (drop 14 (ipv4_sent proto cur_id b))) = 0xFFFF"
    unfolding sent using checksum_complement [of 10 ?hdr] assms len1 z by simp
qed

section \<open>The link layer of a host\<close>

text \<open>The port with a source address, when the ports before it have other addresses.\<close>

lemma pick_port_first:
  assumes "\<forall>j < k. \<exists>m. getMACAddr ri (int j) = Some m \<and> m \<noteq> mac"
    and "getMACAddr ri (int k) = Some mac" and "k < n"
  shows "pick_port ri mac [0..<n] = Inr k"
proof -
  have "pick_port ri mac [i..<n] = Inr k" if "i \<le> k" for i
    using that
  proof (induction "k - i" arbitrary: i)
    case 0
    with assms show ?case by (simp add: upt_conv_Cons)
  next
    case (Suc d)
    then have "i < k" "i < n" using assms(3) by simp_all
    moreover from this assms(1) obtain m where "getMACAddr ri (int i) = Some m" "m \<noteq> mac" by blast
    moreover have "pick_port ri mac [Suc i..<n] = Inr k" using Suc by simp
    ultimately show ?case by (auto simp: upt_conv_Cons)
  qed
  then show ?thesis by simp
qed

lemma overwrite_prefix:
  "length a = n \<Longrightarrow> n \<le> length b \<Longrightarrow> overwrite 0 a b = a @ drop n b"
  by (simp add: overwrite_def)

text \<open>The frame: the two addresses, the type, and the datagram behind them.\<close>

lemma frame_writes:
  assumes "34 \<le> getSize p" and "length dst = 6" and "length src = 6"
  shows "\<exists>p1 p2 p3 p4. put_bytes p 12 [0x08] = Inr p1 \<and> put_bytes p1 13 [0x00] = Inr p2 \<and>
    put_bytes p2 0 dst = Inr p3 \<and> put_bytes p3 6 src = Inr p4 \<and>
    get_bytes p2 30 4 = Inr (take 4 (drop 30 (buffer p))) \<and>
    get_bytes p2 26 4 = Inr (take 4 (drop 26 (buffer p))) \<and>
    buffer p4 = dst @ src @ [0x08, 0x00] @ drop 14 (buffer p) \<and> packetID p4 = packetID p"
proof -
  have len: "34 \<le> length (buffer p)" using assms(1) by (simp add: getSize_def)
  let ?p1 = "p\<lparr>buffer := overwrite 12 [0x08] (buffer p)\<rparr>"
  let ?p2 = "?p1\<lparr>buffer := overwrite 13 [0x00] (buffer ?p1)\<rparr>"
  let ?p3 = "?p2\<lparr>buffer := overwrite 0 dst (buffer ?p2)\<rparr>"
  let ?p4 = "?p3\<lparr>buffer := overwrite 6 src (buffer ?p3)\<rparr>"
  have puts: "put_bytes p 12 [0x08] = Inr ?p1" "put_bytes ?p1 13 [0x00] = Inr ?p2"
    "put_bytes ?p2 0 dst = Inr ?p3" "put_bytes ?p3 6 src = Inr ?p4"
    using len assms(2,3) by (simp_all add: put_bytes_ok)
  have b2: "buffer ?p2 = take 12 (buffer p) @ [0x08, 0x00] @ drop 14 (buffer p)"
    using len by (simp add: overwrite_def min_def)
  have b4: "buffer ?p4 = dst @ src @ [0x08, 0x00] @ drop 14 (buffer p)"
    using len assms(2,3) b2 by (simp add: overwrite_def min_def)
  have gets: "get_bytes ?p2 30 4 = Inr (take 4 (drop 30 (buffer p)))"
    "get_bytes ?p2 26 4 = Inr (take 4 (drop 26 (buffer p)))"
    using len b2 by (simp_all add: get_bytes_ok)
  show ?thesis using puts b4 gets by (intro exI conjI) (assumption | simp)+
qed

lemma calc_cost_lcm_numeral:
  "calc_cost_lcm (Suc 0) = Some 1"
  "calc_cost_lcm (numeral k) =
     (if k = num.One then Some 1 else map_option (lcm (numeral k)) (calc_cost_lcm (pred_numeral k)))"
  by (simp, cases k) (simp_all add: numeral_eq_Suc)

lemma calc_cost_lcm_value: "calc_cost_lcm MaxCost = Some 232792560"
  unfolding MaxCost_def
  by (simp add: calc_cost_lcm_numeral lcm_nat_def gcd_non_0_nat del: calc_cost_lcm.simps(2))

lemma CostLCM_unat: "unat CostLCM = 232792560"
  by (simp add: CostLCM_def calc_cost_lcm_value)

lemma cost_lcm: "Lcm {1..MaxCost} = 232792560"
proof -
  have rec: "calc_cost_lcm (Suc n) = Some (Lcm {1..Suc n})" for n
  proof (induction n)
    case (Suc n)
    have "{1..Suc (Suc n)} = insert (Suc (Suc n)) {1..Suc n}" by auto
    then have "Lcm {1..Suc (Suc n)} = lcm (Suc (Suc n)) (Lcm {1..Suc n})" by (simp only: Lcm_insert)
    with Suc show ?case by simp
  qed simp
  have "Suc 19 = MaxCost" by (simp add: MaxCost_def)
  with rec [of 19] have "calc_cost_lcm MaxCost = Some (Lcm {1..MaxCost})" by (simp only:)
  with calc_cost_lcm_value show ?thesis by (simp only: option.inject)
qed

lemma linkCost_of_cost:
  assumes "1 \<le> c" and "c \<le> MaxCost"
  shows "linkCost (CostLCM div of_nat c) = Inr (of_nat c)"
proof -
  have c: "unat (of_nat c :: Size) = c" using assms(2) by (simp add: unsigned_of_nat take_bit_eq_mod MaxCost_def)
  have "c dvd 232792560" unfolding cost_lcm [symmetric] by (rule dvd_Lcm) (use assms in simp)
  then obtain k where k: "232792560 = c * k" by (rule dvdE)
  have "k \<noteq> 0" using k by (rule contrapos_pn) simp
  have "232792560 div c = k" "232792560 div k = c"
    unfolding k using assms(1) \<open>k \<noteq> 0\<close> by simp_all
  then have "unat (CostLCM div of_nat c) = k" "unat (CostLCM div (CostLCM div of_nat c)) = c"
    by (simp_all add: unat_div c CostLCM_unat)
  with \<open>k \<noteq> 0\<close> show ?thesis
    by (metis linkCost_def c word_unat_eq_iff unsigned_0)
qed

section \<open>Properties\<close>

text \<open>A packet that \<^verbatim>\<open>IPv4\<close> sends for TCP, UDP or OSPF gets a complete header (version 4 and
  length 5, the length of the datagram, the identification, don't-fragment, TTL 64, the
  protocol) whose checksum verifies; the Ethernet header, the two addresses and the payload
  are untouched.\<close>

theorem ipv4_send_header:
  assumes "34 \<le> getSize p"
  shows "\<exists>p'. ipv4_send proto cur_id p = Inr p' \<and> getSize p' = getSize p \<and>
    take 14 (buffer p') = take 14 (buffer p) \<and> drop 26 (buffer p') = drop 26 (buffer p) \<and>
    take 10 (drop 14 (buffer p')) =
      [0x45, 0] @ be16 (of_nat (getSize p - 14)) @ be16 cur_id @ [0x40, 0, 64, proto] \<and>
    one_sum (take 20 (drop 14 (buffer p'))) = 0xFFFF"
  using ipv4_send_eq [OF assms] ipv4_sent_bytes [of "buffer p"] assms
  by (simp add: getSize_def ipv4_header_eq)

theorem ipv4_send_header_witness:
  "\<exists>p'. ipv4_send 6 7 \<lparr>buffer = replicate 40 1, packetID = 0\<rparr> = Inr p' \<and> getSize p' = 40"
proof -
  have h: "34 \<le> getSize \<lparr>buffer = replicate 40 1, packetID = 0\<rparr>"
    "getSize \<lparr>buffer = replicate 40 1, packetID = 0\<rparr> = 40"
    by (simp_all add: getSize_def)
  show ?thesis using ipv4_send_header [OF h(1), of 6 7] unfolding h(2) by blast
qed

text \<open>C30. What one host's \<^verbatim>\<open>IPv4\<close> sends, another host's \<^verbatim>\<open>IPv4\<close> accepts and gives to the module of
  the same name: whatever the link layer writes in front of the datagram, as long as the
  Ethernet type is that of IPv4.\<close>

theorem ipv4_send_receive:
  assumes "m \<in> {''TCP'', ''UDP'', ''OSPF''}" and "34 \<le> getSize p"
    and "ipv4_send (ipv4_protocol m) cur_id p = Inr p'"
    and "drop 14 (buffer q) = drop 14 (buffer p')" and "take 2 (drop 12 (buffer q)) = [0x08, 0x00]"
  shows "ipv4_receive q = Inr (Some m)"
proof -
  let ?s = "ipv4_sent (ipv4_protocol m) cur_id (buffer p)"
  note B = ipv4_sent_bytes [of "buffer p" "ipv4_protocol m" cur_id]
  have len: "34 \<le> length (buffer p)" using assms(2) by (simp add: getSize_def)
  have p': "buffer p' = ?s" using assms(3) ipv4_send_eq [OF assms(2)] by auto
  have "length (drop 14 (buffer q)) = length (buffer p) - 14"
    unfolding assms(4) p' using B(1) [OF len] by simp
  then have lq: "34 \<le> length (buffer q)" using len by (simp add: algebra_simps)
  have types: "get_bytes q 12 1 = Inr [0x08]" "get_bytes q 13 1 = Inr [0x00]"
  proof -
    have "take 2 (drop 12 (buffer q)) = [buffer q ! 12, buffer q ! 13]"
      using lq by (simp add: numeral_2_eq_2 take_Suc_conv_app_nth)
    with assms(5) have "buffer q ! 12 = 0x08" "buffer q ! 13 = 0x00" by auto
    with lq show "get_bytes q 12 1 = Inr [0x08]" "get_bytes q 13 1 = Inr [0x00]"
      by (simp_all add: get_bytes_ok take_Suc_conv_app_nth)
  qed
  have hdr: "get_bytes q 14 20 = Inr (take 20 (drop 14 ?s))"
    using lq assms(4) p' by (simp add: get_bytes_ok)
  have "drop 23 (buffer q) = drop 9 (drop 14 (buffer q))" by simp
  also have "\<dots> = drop 9 (drop 14 ?s)" using assms(4) p' by simp
  finally have d: "drop 23 (buffer q) = drop 9 (drop 14 ?s)" .
  have "take 1 (drop 9 (drop 14 ?s)) = drop 9 (take 10 (drop 14 ?s))" by (simp add: drop_take)
  also have "\<dots> = [ipv4_protocol m]" using B(3) [OF len] by (simp add: ipv4_header_eq be16_def)
  finally have proto: "get_bytes q (14 + 9) 1 = Inr [ipv4_protocol m]"
    using lq d by (simp add: get_bytes_ok)
  show ?thesis
    using assms(1) types hdr proto B(5) [OF len] by (auto simp: ipv4_receive_def ipv4_protocol_def)
qed

theorem ipv4_send_receive_witness:
  "\<exists>p' q. ipv4_send 6 7 \<lparr>buffer = replicate 40 1, packetID = 0\<rparr> = Inr p' \<and> ipv4_receive q = Inr (Some ''TCP'')"
proof -
  let ?p = "\<lparr>buffer = replicate 40 1, packetID = 0\<rparr>"
  have h: "34 \<le> getSize ?p" by (simp add: getSize_def)
  let ?s = "ipv4_sent 6 7 (replicate 40 1)"
  let ?q = "\<lparr>buffer = replicate 12 0 @ [0x08, 0x00] @ drop 14 ?s, packetID = 0\<rparr>"
  have send: "ipv4_send (ipv4_protocol ''TCP'') 7 ?p = Inr (?p\<lparr>buffer := ?s\<rparr>)"
    using ipv4_send_eq [OF h] by (simp add: ipv4_protocol_def)
  have "ipv4_receive ?q = Inr (Some ''TCP'')"
    by (rule ipv4_send_receive [OF _ h send]) simp_all
  with send show ?thesis unfolding ipv4_protocol_def by auto
qed

text \<open>C12. A datagram that a host's \<^verbatim>\<open>IPv4\<close> hands to \<^verbatim>\<open>Ethernet\<close> for an ordinary destination leaves
  by the port the routing table gives, as one frame: the destination address of the ARP
  table, that port's own address as source, the type of IPv4, the datagram unchanged. Ports
  before it must have other addresses, since the host looks the port up by its address.\<close>

theorem ethernet_leaves_by_routed_port:
  assumes "34 \<le> getSize p" and "take 4 (drop 30 (buffer p)) \<notin> ip_broadcasts"
    and "getRoutingTable (routing h) (take 4 (drop 30 (buffer p))) = Inr (int k)"
    and "getMACAddr (routing h) (int k) = Some src" and "length src = 6"
    and "getARPTable (routing h) (take 4 (drop 30 (buffer p))) = Some dst" and "length dst = 6"
    and "\<forall>j < k. \<exists>m. getMACAddr (routing h) (int j) = Some m \<and> m \<noteq> src"
    and "k < length (h_ports h)" and "running h"
    and "sys_inv F s" and "currentUUID s + 1 \<notin> dom (containers s)"
  shows "\<exists>s' c p'. Ethernet_packetArrived self ''IPv4'' p (h, e, s) = Inr (h, e, s') \<and>
    containers s' = (containers s)(currentUUID s + 1 \<mapsto> c) \<and> wakeup c = currentTime s \<and>
    t_to c = h_ports h ! k \<and> t_message c = WireMsg PACKET_TO_PORT p' \<and>
    buffer p' = dst @ src @ [0x08, 0x00] @ drop 14 (buffer p)"
proof -
  obtain p1 p2 p3 p4 where w: "put_bytes p 12 [0x08] = Inr p1" "put_bytes p1 13 [0x00] = Inr p2"
    "put_bytes p2 0 dst = Inr p3" "put_bytes p3 6 src = Inr p4"
    "get_bytes p2 30 4 = Inr (take 4 (drop 30 (buffer p)))"
    and b4: "buffer p4 = dst @ src @ [0x08, 0x00] @ drop 14 (buffer p)"
    using frame_writes [OF assms(1) assms(7,5)] by blast
  obtain s' where s': "post self (h_ports h ! k) (WireMsg PACKET_TO_PORT p4) 0 s = Inr s'"
    using post_ok [OF assms(11,12)] by blast
  have mac: "get_bytes p4 6 6 = Inr src"
    using b4 assms(5,7) by (simp add: get_bytes_ok)
  have pick: "pick_port (routing h) src [0..<length (h_ports h)] = Inr k"
    by (rule pick_port_first [OF assms(8,4,9)])
  have "Ethernet_packetArrived self ''IPv4'' p (h, e, s) = Inr (h, e, s')"
    using w assms(2,3,4,6,9,10) mac pick s'
    by (simp add: Ethernet_packetArrived_def Let_def module_sendPacket_def sendPacketToModule_def Host_sendPacket_def)
  with post_effect [OF assms(11) s'] b4 show ?thesis
    by (intro exI conjI) (assumption | simp)+
qed

definition demo_host :: host where
  "demo_host = \<lparr>pidStart = 0, syscallIDStart = 0, running = True, h_ports = [3, 4], interfaceMap = Map.empty,
     hostModuleMap = Map.empty, timerModuleMap = Map.empty, processInfoMap = Map.empty,
     syscallMap = Map.empty,
     routing = setRoutingTable [10, 0, 1, 0] 24 1 (setARPTable [2, 2, 2, 2, 2, 2] [10, 0, 1, 9]
       (setMACAddr [1, 1, 1, 1, 1, 1] 1 (setMACAddr [1, 1, 1, 1, 1, 0] 0 empty_routing)))\<rparr>"

definition demo_datagram :: packet where
  "demo_datagram = \<lparr>buffer = replicate 30 0 @ [10, 0, 1, 9], packetID = 0\<rparr>"

theorem ethernet_leaves_by_routed_port_witness:
  "\<exists>s' c p'. Ethernet_packetArrived 9 ''IPv4'' demo_datagram (demo_host, \<lparr>apps = Map.empty, mem = Map.empty\<rparr>, initial_system)
      = Inr (demo_host, \<lparr>apps = Map.empty, mem = Map.empty\<rparr>, s') \<and>
    containers s' = [1 \<mapsto> c] \<and> t_to c = 4 \<and> t_message c = WireMsg PACKET_TO_PORT p' \<and>
    take 12 (buffer p') = [2, 2, 2, 2, 2, 2, 1, 1, 1, 1, 1, 1]"
proof -
  have ip: "take 4 (drop 30 (buffer demo_datagram)) = [10, 0, 1, 9]" by (simp add: demo_datagram_def)
  have tables: "getMACAddr (routing demo_host) 1 = Some [1, 1, 1, 1, 1, 1]"
    "getMACAddr (routing demo_host) 0 = Some [1, 1, 1, 1, 1, 0]"
    "getARPTable (routing demo_host) [10, 0, 1, 9] = Some [2, 2, 2, 2, 2, 2]"
    by (simp_all add: demo_host_def getMACAddr_def getARPTable_def setRoutingTable_def setARPTable_def
        setMACAddr_def empty_routing_def)
  have route: "getRoutingTable (routing demo_host) [10, 0, 1, 9] = Inr 1"
    unfolding demo_host_def by code_simp
  have h: "34 \<le> getSize demo_datagram" "[10, 0, 1, 9] \<notin> ip_broadcasts" "1 < length (h_ports demo_host)"
    "running demo_host" "currentUUID (initial_system :: net) + 1 \<notin> dom (containers (initial_system :: net))"
    by (simp_all add: demo_datagram_def getSize_def ip_broadcasts_def demo_host_def initial_system_def)
  have "\<exists>s' c p'. Ethernet_packetArrived 9 ''IPv4'' demo_datagram
       (demo_host, \<lparr>apps = Map.empty, mem = Map.empty\<rparr>, initial_system)
      = Inr (demo_host, \<lparr>apps = Map.empty, mem = Map.empty\<rparr>, s') \<and>
    containers s' = (containers (initial_system :: net))(currentUUID (initial_system :: net) + 1 \<mapsto> c) \<and>
    wakeup c = currentTime (initial_system :: net) \<and>
    t_to c = h_ports demo_host ! 1 \<and> t_message c = WireMsg PACKET_TO_PORT p' \<and>
    buffer p' = [2, 2, 2, 2, 2, 2] @ [1, 1, 1, 1, 1, 1] @ [0x08, 0x00] @ drop 14 (buffer demo_datagram)"
    by (rule ethernet_leaves_by_routed_port) (use h ip tables route initial_system_inv in auto)
  then obtain s' c p' where "Ethernet_packetArrived 9 ''IPv4'' demo_datagram
       (demo_host, \<lparr>apps = Map.empty, mem = Map.empty\<rparr>, initial_system)
      = Inr (demo_host, \<lparr>apps = Map.empty, mem = Map.empty\<rparr>, s')"
    "containers s' = [1 \<mapsto> c]" "t_to c = 4" "t_message c = WireMsg PACKET_TO_PORT p'"
    "take 12 (buffer p') = [2, 2, 2, 2, 2, 2, 1, 1, 1, 1, 1, 1]"
    by (auto simp: initial_system_def demo_host_def)
  then show ?thesis by blast
qed

end
