(* ===== verification/Host.thy ===== *)
theory Host
  imports Protocols
begin

text \<open>
  \<^verbatim>\<open>E::Host\<close> (\<^verbatim>\<open>src/Networking/E_Host.cpp\<close>), second part: the dispatch of messages to the modules of
  a host, system calls, and the applications' side of them
  (\<^verbatim>\<open>SystemCallApplication::E_Syscall\<close>, \<^verbatim>\<open>main\<close>).
\<close>

section \<open>Virtual calls\<close>

definition module_packetArrived :: "ModuleID \<Rightarrow> host_module \<Rightarrow> string \<Rightarrow> packet \<Rightarrow> hctx \<Rightarrow> hctx result" where
  "module_packetArrived self hm fromModule packet st =
     (case hm of
        EthernetMod \<Rightarrow> Ethernet_packetArrived self fromModule packet st
      | IPv4Mod identification \<Rightarrow> IPv4_packetArrived self identification fromModule packet st
      | _ \<Rightarrow> Assignment_packetArrived fromModule packet st)"

definition iface_systemCallback ::
  "ModuleID \<Rightarrow> syscall_iface \<Rightarrow> UUID \<Rightarrow> int \<Rightarrow> syscall_param \<Rightarrow> hctx \<Rightarrow> hctx result" where
  "iface_systemCallback self iface syscallUUID pid param st =
     (case iface of
        DefaultIface \<Rightarrow> Default_systemCallback self syscallUUID pid param st
      | TCPIface \<Rightarrow> TCP_systemCallback syscallUUID pid param st)"

definition module_timerCallback :: "timer_module \<Rightarrow> any_val \<Rightarrow> hctx \<Rightarrow> hctx result" where
  "module_timerCallback tm payload st =
     (case tm of DefaultTimer \<Rightarrow> Default_timerCallback payload st | _ \<Rightarrow> Assignment_timerCallback payload st)"

section \<open>The branches of \<^verbatim>\<open>Host::messageReceived\<close>\<close>

definition Host_packetPass :: "ModuleID \<Rightarrow> string option \<Rightarrow> string option \<Rightarrow> packet \<Rightarrow> hctx \<Rightarrow> hctx result" where
  "Host_packetPass self fr to packet st =
     (if running (fst st) then
        (let fromName = (case fr of None \<Rightarrow> ''Host'' | Some n \<Rightarrow> n) in
         case to of
           None \<Rightarrow> Inl BadOptional
         | Some n \<Rightarrow>
             (case hostModuleMap (fst st) n of
                None \<Rightarrow> Inl NullDeref
              | Some hm \<Rightarrow> module_packetArrived self hm fromName packet st))
      else Inr st)"

definition syscall_namespace :: "syscall_param \<Rightarrow> process_info \<Rightarrow> namespace result" where
  "syscall_namespace param info =
     (case syscallNumber param of
        SOCKET \<Rightarrow>
          bindE (bindE (get_param param 0) get_int) (\<lambda>domain.
          bindE (bindE (get_param param 2) get_int) (\<lambda>protocol.
            Inr (domain, protocol)))
      | NSLEEP \<Rightarrow> Inr (0, 0)
      | GETTIMEOFDAY \<Rightarrow> Inr (0, 0)
      | _ \<Rightarrow>
          bindE (bindE (get_param param 0) get_int) (\<lambda>fd.
            case map_of (fdToDomain info) fd of
              None \<Rightarrow> Inl AssertFail
            | Some ns \<Rightarrow> Inr ns))"

definition Host_syscall :: "ModuleID \<Rightarrow> int \<Rightarrow> syscall_param \<Rightarrow> hctx \<Rightarrow> hctx result" where
  "Host_syscall self pid param st =
     (case st of (h, e, s) \<Rightarrow>
       bindE (assertE (pid \<noteq> - 1)) (\<lambda>_.
         case processInfoMap h pid of
           None \<Rightarrow> Inl AssertFail
         | Some info \<Rightarrow>
             (case apps e (application info) of
                None \<Rightarrow> Inl NullDeref
              | Some a \<Rightarrow>
                  bindE (assertE (pid = app_pid a)) (\<lambda>_.
                  bindE (syscall_namespace param info) (\<lambda>ns.
                    case interfaceMap h ns of
                      None \<Rightarrow> Inr (h, e, s)
                    | Some iface \<Rightarrow>
                        (case first_free (dom (syscallMap h)) (syscallIDStart h) (syscallIDStart h) of
                           None \<Rightarrow> Inl AssertFail
                         | Some curSyscallID \<Rightarrow>
                             iface_systemCallback self iface curSyscallID pid param
                               (h\<lparr>syscallIDStart := curSyscallID + 1,
                                  syscallMap := (syscallMap h)(curSyscallID \<mapsto> pid)\<rparr>, e, s)))))))"

definition Host_timer :: "string \<Rightarrow> any_val \<Rightarrow> hctx \<Rightarrow> hctx result" where
  "Host_timer fr payload st =
     (case timerModuleMap (fst st) fr of
        None \<Rightarrow> Inl NullDeref
      | Some tm \<Rightarrow> module_timerCallback tm payload st)"

definition Host_return :: "int \<Rightarrow> hctx \<Rightarrow> hctx result" where
  "Host_return pid st =
     (case st of (h, e, s) \<Rightarrow>
       (case processInfoMap h pid of
          None \<Rightarrow> Inl AssertFail
        | Some info \<Rightarrow>
            (case apps e (application info) of
               None \<Rightarrow> Inl NullDeref
             | Some a \<Rightarrow>
                 bindE (assertE (app_pid a \<notin> ran (syscallMap h))) (\<lambda>_.
                   Inr (h\<lparr>processInfoMap := (processInfoMap h)(pid := None)\<rparr>, e,
                        delRunnable (application info) s)))))"

definition Host_messageReceived :: "ModuleID \<Rightarrow> ModuleID \<Rightarrow> msg \<Rightarrow> hctx \<Rightarrow> (msg option \<times> hctx) result" where
  "Host_messageReceived self from message st =
     bindE (case message of
              WireMsg ty packet \<Rightarrow>
                bindE (assertE (ty = PACKET_FROM_PORT)) (\<lambda>_.
                  if running (fst st) then sendPacketToModule self None ''Ethernet'' packet st else Inr st)
            | PacketPass fr to packet \<Rightarrow> Host_packetPass self fr to packet st
            | SyscallMsg pid param \<Rightarrow> Host_syscall self pid param st
            | TimerMsg fr payload \<Rightarrow> Host_timer fr payload st
            | ReturnMsg pid returnValue \<Rightarrow> Host_return pid st
            | LinkMsg w \<Rightarrow> Inl AssertFail)
       (\<lambda>st'. Inr (None, st'))"

definition Host_messageFinished :: "ModuleID \<Rightarrow> 'm \<Rightarrow> 'm option \<Rightarrow> unit result" where
  "Host_messageFinished to message response = expect_empty_response response"

definition Host_messageCancelled :: "ModuleID \<Rightarrow> 'm \<Rightarrow> unit result" where
  "Host_messageCancelled to message = Inr ()"

definition diagnoseHostModule :: "string \<Rightarrow> any_val \<Rightarrow> host \<Rightarrow> any_val result" where
  "diagnoseHostModule moduleName arg h =
     (case hostModuleMap h moduleName of None \<Rightarrow> Inl NullDeref | Some hm \<Rightarrow> module_diagnose hm arg)"

section \<open>The application's side\<close>

text \<open>The application's thread from a point where it runs to the next \<^verbatim>\<open>wait\<close> or to its end. A
  system call of an application whose host has stopped returns -1 at once, so a program
  that ignores that can go on for ever: fuel bounds the number of such calls, and 1 is enough
  while the host runs.\<close>

fun app_run :: "nat \<Rightarrow> bool \<Rightarrow> runnable \<Rightarrow> app \<Rightarrow> prog \<Rightarrow> env \<times> net \<Rightarrow> (runnable_state \<times> env \<times> net) result" where
  "app_run 0 running_host r a p st = Inl NoReturn"
| "app_run (Suc n) running_host r a p (e, s) =
     (case p of
        Exit returnValue \<Rightarrow>
          bindE (exitProcess (app_host a) (app_pid a) returnValue s) (\<lambda>s'.
            Inr (TERMINATED, e\<lparr>apps := (apps e)(r \<mapsto> a\<lparr>app_state := TERMINATED\<rparr>)\<rparr>, s'))
      | Invoke param k \<Rightarrow>
          if \<not> running_host then app_run n running_host r a (k (- 1) (getCurrentTime s) (mem e)) (e, s)
          else
            bindE (issueSystemCall (app_host a) (app_pid a) param s) (\<lambda>(_, s').
              Inr (WAITING,
                   e\<lparr>apps := (apps e)(r \<mapsto> a\<lparr>syscallRet := - 1, app_state := WAITING, resume_at := InSyscall k\<rparr>)\<rparr>,
                   s')))"

definition app_wake :: "nat \<Rightarrow> bool \<Rightarrow> runnable \<Rightarrow> app \<Rightarrow> env \<times> net \<Rightarrow> (runnable_state \<times> env \<times> net) result" where
  "app_wake fuel running_host r a st =
     (case st of (e, s) \<Rightarrow>
       bindE (assertE (app_state a = READY)) (\<lambda>_.
         app_run fuel running_host r (a\<lparr>app_state := RUNNING\<rparr>)
           (case resume_at a of
              AtMain p \<Rightarrow> p
            | InSyscall k \<Rightarrow> k (syscallRet a) (getCurrentTime s) (mem e)) (e, s)))"

section \<open>Effects on the scheduler\<close>

fun host_op :: "ModuleID \<Rightarrow> msg sys_op \<Rightarrow> bool" where
  "host_op self (Send src dst m d) =
     (src = self \<and> (case m of WireMsg ty p \<Rightarrow> ty = PACKET_TO_PORT | LinkMsg w \<Rightarrow> False | _ \<Rightarrow> dst = self))"
| "host_op self (Cancel u) = False"
| "host_op self _ = True"

definition host_emits :: "ModuleID \<Rightarrow> hctx \<Rightarrow> hctx \<Rightarrow> bool" where
  "host_emits self st st' \<longleftrightarrow> emits (host_op self) (snd (snd st)) (snd (snd st'))"

lemma host_emits_refl [simp]: "host_emits self st st"
  by (simp add: host_emits_def)

lemma emits_send_op:
  "sendMessage self to m d s = Inr (u, s') \<Longrightarrow> P (Send self to m d) \<Longrightarrow> emits P s s'"
  by (rule emits_post) (simp_all add: post_def)

lemma sendPacketToModule_emits:
  "sendPacketToModule self fr to p st = Inr st' \<Longrightarrow> host_emits self st st'"
  by (auto simp: sendPacketToModule_def Host_sendPacket_def host_emits_def result_simps
      split: if_splits prod.splits intro: emits_post)

lemma returnSystemCall_emits: "returnSystemCall u v st = Inr st' \<Longrightarrow> host_emits self st st'"
  by (auto simp: returnSystemCall_def host_emits_def result_simps env_addRunnable_def
      split: option.splits prod.splits intro!: emits_addRunnable)

lemma Ethernet_emits: "Ethernet_packetArrived self fr p st = Inr st' \<Longrightarrow> host_emits self st st'"
  by (auto simp: Ethernet_packetArrived_def module_sendPacket_def Let_def result_simps
      split: if_splits option.splits dest: sendPacketToModule_emits)
    (metis host_emits_refl not_None_eq sendPacketToModule_emits)

lemma IPv4_emits:
  assumes "IPv4_packetArrived self i fr p (h, e, s) = Inr st'"
  shows "host_emits self (h, e, s) st'"
proof (cases "fr = ''Ethernet''")
  case True
  with assms show ?thesis
    by (auto simp: IPv4_packetArrived_def module_sendPacket_def result_simps
        split: option.splits dest: sendPacketToModule_emits)
next
  case False
  with assms obtain q h' where "sendPacketToModule self (Some ''IPv4'') ''Ethernet'' q (h', e, s) = Inr st'"
    by (auto simp: IPv4_packetArrived_def module_sendPacket_def result_simps split: if_splits)
  then show ?thesis by (auto dest!: sendPacketToModule_emits simp: host_emits_def)
qed

lemma Default_emits:
  "Default_systemCallback self u pid param st = Inr st' \<Longrightarrow> host_emits self st st'"
  "Default_timerCallback payload st = Inr st' \<Longrightarrow> host_emits self st st'"
  by (auto simp: Default_systemCallback_def Default_timerCallback_def host_addTimer_def Let_def result_simps
      split: system_call.splits any_val.splits if_splits prod.splits dest!: returnSystemCall_emits [of _ _ _ _ self])
    (auto simp: host_emits_def intro: emits_send_op)

lemma module_emits:
  "module_packetArrived self hm fr p st = Inr st' \<Longrightarrow> host_emits self st st'"
  "iface_systemCallback self iface u pid param st = Inr st' \<Longrightarrow> host_emits self st st'"
  "module_timerCallback tm payload st = Inr st' \<Longrightarrow> host_emits self st st'"
proof -
  show "module_packetArrived self hm fr p st = Inr st' \<Longrightarrow> host_emits self st st'"
    by (cases hm; cases st)
      (auto simp: module_packetArrived_def Assignment_packetArrived_def dest: Ethernet_emits IPv4_emits)
  show "iface_systemCallback self iface u pid param st = Inr st' \<Longrightarrow> host_emits self st st'"
    by (cases iface) (auto simp: iface_systemCallback_def TCP_systemCallback_def dest: Default_emits split: if_splits)
  show "module_timerCallback tm payload st = Inr st' \<Longrightarrow> host_emits self st st'"
    by (cases tm) (auto simp: module_timerCallback_def Assignment_timerCallback_def dest: Default_emits)
qed

lemma Host_syscall_emits: "Host_syscall self pid param (h, e, s) = Inr st' \<Longrightarrow> host_emits self (h, e, s) st'"
  by (cases "first_free (dom (syscallMap h)) (syscallIDStart h) (syscallIDStart h)")
    (auto simp: Host_syscall_def result_simps host_emits_def split: option.splits dest!: module_emits(2))

lemma Host_emits:
  assumes "Host_messageReceived self from m st = Inr (ret, st')"
  shows "ret = None \<and> host_emits self st st'"
proof -
  obtain h e s where st: "st = (h, e, s)" by (cases st)
  show ?thesis
    using assms unfolding st
    by (cases m)
      (auto simp: Host_messageReceived_def Host_packetPass_def Host_timer_def Host_return_def result_simps Let_def
        host_emits_def [of _ _ "(_, _, delRunnable _ _)"]
        split: if_splits option.splits intro!: emits_delRunnable
        dest: sendPacketToModule_emits module_emits Host_syscall_emits)
qed

lemma app_run_step:
  "app_run n b r a p (e, s) = Inr (x, e', s') \<Longrightarrow>
   emits (host_op (app_host a)) s s' \<and> runnableReady s' = runnableReady s \<and> x \<in> {WAITING, TERMINATED} \<and>
   mem e' = mem e \<and> (\<exists>a'. apps e' = (apps e)(r \<mapsto> a') \<and> app_state a' = x \<and> app_pid a' = app_pid a \<and> app_host a' = app_host a)"
proof (induction n arbitrary: p)
  case (Suc n)
  have ready: "runnableReady s2 = runnableReady s1" if "sendMessage src dst m d s1 = Inr (u, s2)" for src dst m d u s1 s2
    using that by (auto simp: sendMessage_def allocateUUID_def Let_def split: if_splits)
  show ?case
  proof (cases p)
    case (Exit v)
    with Suc.prems show ?thesis
      by (auto simp: exitProcess_def post_def result_simps ready simp del: fun_upd_apply
          intro: emits_send_op intro!: exI [of _ "a\<lparr>app_state := TERMINATED\<rparr>"])
  next
    case (Invoke param k)
    with Suc show ?thesis
      by (cases b) (auto simp: issueSystemCall_def result_simps ready simp del: fun_upd_apply
          intro: emits_send_op
          intro!: exI [of _ "a\<lparr>syscallRet := - 1, app_state := WAITING, resume_at := InSyscall k\<rparr>"])
  qed
qed simp

section \<open>Descriptors and process identifiers\<close>

definition fds_ok :: "(int \<times> 'a) list \<Rightarrow> bool" where
  "fds_ok fds \<longleftrightarrow> sorted_wrt (<) (map fst fds) \<and> (\<forall>fd \<in> fst ` set fds. 3 \<le> fd \<and> fd < MAX_FD)"

lemma next_fd_spec:
  assumes "sorted_wrt (<) (map fst fds)" and "\<forall>fd \<in> fst ` set fds. c \<le> fd"
  shows "c \<le> next_fd c fds \<and> next_fd c fds \<notin> fst ` set fds \<and>
    (\<forall>k. c \<le> k \<longrightarrow> k < next_fd c fds \<longrightarrow> k \<in> fst ` set fds)"
  using assms
proof (induction c fds rule: next_fd.induct)
  case (2 c fd v rest)
  show ?case
  proof (cases "fd = c")
    case True
    from "2.prems" True have "sorted_wrt (<) (map fst rest)" "\<forall>fd \<in> fst ` set rest. c + 1 \<le> fd"
      by auto
    with "2.IH" True have IH: "c + 1 \<le> next_fd (c + 1) rest" "next_fd (c + 1) rest \<notin> fst ` set rest"
      "\<forall>k. c + 1 \<le> k \<longrightarrow> k < next_fd (c + 1) rest \<longrightarrow> k \<in> fst ` set rest"
      by blast+
    have "k \<in> fst ` set ((fd, v) # rest)" if "c \<le> k" "k < next_fd (c + 1) rest" for k
    proof (cases "k = c")
      case False
      with that(1) have "c + 1 \<le> k" by linarith
      with IH(3) that(2) show ?thesis by simp
    qed (simp add: True)
    with IH True show ?thesis by simp
  next
    case False
    with "2.prems" show ?thesis by auto
  qed
qed simp

lemma omap_insert_spec:
  assumes "sorted_wrt (<) (map fst fds)" and "k \<notin> fst ` set fds"
  shows "sorted_wrt (<) (map fst (omap_insert k v fds)) \<and>
    fst ` set (omap_insert k v fds) = insert k (fst ` set fds) \<and>
    map_of (omap_insert k v fds) = (map_of fds)(k \<mapsto> v)"
  using assms
proof (induction k v fds rule: omap_insert.induct)
  case (2 k v k' v' rest)
  show ?case
  proof (cases "k < k'")
    case True
    moreover from "2.prems" have "\<forall>x \<in> fst ` set rest. k' < x" by auto
    ultimately show ?thesis using "2.prems" by auto
  next
    case False
    with "2.prems" have lt: "k' < k" "k \<noteq> k'" by auto
    from "2.prems" have "sorted_wrt (<) (map fst rest)" "k \<notin> fst ` set rest" by auto
    with "2.IH" False lt have IH: "sorted_wrt (<) (map fst (omap_insert k v rest))"
      "fst ` set (omap_insert k v rest) = insert k (fst ` set rest)"
      "map_of (omap_insert k v rest) = (map_of rest)(k \<mapsto> v)"
      by auto
    have eq: "omap_insert k v ((k', v') # rest) = (k', v') # omap_insert k v rest" using False lt by simp
    have "\<forall>x \<in> fst ` set (omap_insert k v rest). k' < x" unfolding IH(2) using "2.prems"(1) lt by auto
    then have "sorted_wrt (<) (map fst ((k', v') # omap_insert k v rest))" using IH(1) by auto
    moreover have "fst ` set ((k', v') # omap_insert k v rest) = insert k (fst ` set ((k', v') # rest))"
      using IH(2) by auto
    moreover have "map_of ((k', v') # omap_insert k v rest) = (map_of ((k', v') # rest))(k \<mapsto> v)"
      using IH(3) lt by (simp add: fun_upd_twist)
    ultimately show ?thesis unfolding eq by blast
  qed
qed simp

text \<open>The probe visits every identifier once before it comes back to its start.\<close>

text \<open>The probe is back at its start after as many steps as there are identifiers, and not before.\<close>

lemma probe_wraps:
  assumes "0 \<le> start" and "start < MAX_FD" and "0 < j" and "int j \<le> MAX_FD"
  shows "(start + int j) mod MAX_FD = start \<longleftrightarrow> int j = MAX_FD"
proof
  assume "(start + int j) mod MAX_FD = start"
  then have "(start + int j) mod MAX_FD = start mod MAX_FD" using assms(1,2) by simp
  then have "MAX_FD dvd int j" by (simp add: mod_eq_dvd_iff)
  then show "int j = MAX_FD" using assms(3,4) by (meson of_nat_0_less_iff order.antisym zdvd_imp_le)
qed (use assms(1,2) in simp)

lemma pid_probe_spec:
  assumes "0 \<le> start" and "start < MAX_FD" and "n + j = nat MAX_FD" and "0 < n"
  shows "\<exists>res. pid_probe n used start ((start + int j) mod MAX_FD) = Some res \<and>
    (case res of
       Some p \<Rightarrow> \<not> used p \<and> 0 \<le> p \<and> p < MAX_FD
     | None \<Rightarrow> \<forall>i \<in> {j..<nat MAX_FD}. used ((start + int i) mod MAX_FD))"
  using assms
proof (induction n arbitrary: j)
  case (Suc n)
  let ?cur = "(start + int j) mod MAX_FD" and ?nxt = "(start + int (Suc j)) mod MAX_FD"
  have nxt: "(?cur + 1) mod MAX_FD = ?nxt" by (simp add: mod_simps ac_simps)
  have last: "?nxt = start \<longleftrightarrow> n = 0" using probe_wraps [of start "Suc j"] Suc.prems by (auto simp: MAX_FD_def)
  show ?case
  proof (cases "used ?cur")
    case False
    then show ?thesis by (simp add: MAX_FD_def)
  next
    case used: True
    show ?thesis
    proof (cases "n = 0")
      case True
      with Suc.prems have "{j..<nat MAX_FD} = {j}" by auto
      with used last True nxt show ?thesis by (simp add: Let_def)
    next
      case False
      with Suc obtain res where r: "pid_probe n used start ?nxt = Some res"
        "case res of Some p \<Rightarrow> \<not> used p \<and> 0 \<le> p \<and> p < MAX_FD
         | None \<Rightarrow> \<forall>i \<in> {Suc j..<nat MAX_FD}. used ((start + int i) mod MAX_FD)"
        using Suc.IH [of "Suc j"] by auto
      have "{j..<nat MAX_FD} = insert j {Suc j..<nat MAX_FD}" using Suc.prems by auto
      with used last False nxt r show ?thesis
        by (auto simp: Let_def split: option.splits)
    qed
  qed
qed simp

section \<open>System calls\<close>

text \<open>A system call that is pending: its process exists and its application waits.\<close>

definition pending :: "UUID \<Rightarrow> int \<Rightarrow> process_info \<Rightarrow> app \<Rightarrow> host \<Rightarrow> env \<Rightarrow> bool" where
  "pending u pid info a h e \<longleftrightarrow> syscallMap h u = Some pid \<and> processInfoMap h pid = Some info \<and>
     apps e (application info) = Some a \<and> app_state a = WAITING"

lemma returnSystemCall_pending:
  assumes "pending u pid info a h e"
  shows "returnSystemCall u v (h, e, s) =
    Inr (h\<lparr>syscallMap := (syscallMap h)(u := None)\<rparr>,
         e\<lparr>apps := (apps e)(application info \<mapsto> a\<lparr>syscallRet := v, app_state := READY\<rparr>)\<rparr>,
         addRunnable (application info) s)"
  using assms
  by (simp add: pending_def returnSystemCall_def app_returnSyscall_def env_addRunnable_def)

lemma Host_syscall_dispatch:
  assumes "processInfoMap h pid = Some info" and "apps e (application info) = Some a"
    and "app_pid a = pid" and "pid \<noteq> - 1" and "syscall_namespace param info = Inr ns"
    and "interfaceMap h ns = Some iface" and "dom (syscallMap h) \<noteq> UNIV"
  shows "\<exists>u. u \<notin> dom (syscallMap h) \<and> Host_syscall self pid param (h, e, s) =
    iface_systemCallback self iface u pid param
      (h\<lparr>syscallIDStart := u + 1, syscallMap := (syscallMap h)(u \<mapsto> pid)\<rparr>, e, s)"
proof -
  obtain u where u: "first_free (dom (syscallMap h)) (syscallIDStart h) (syscallIDStart h) = Some u"
    using first_free_exhausted [of "dom (syscallMap h)" "syscallIDStart h"] assms(7) by auto
  from first_free_unused [OF u] assms u show ?thesis by (auto simp: Host_syscall_def)
qed

lemma nsleep_syscall:
  assumes "processInfoMap h pid = Some info" and "apps e (application info) = Some a" and "app_pid a = pid" and "pid \<noteq> - 1"
    and "interfaceMap h (0, 0) = Some DefaultIface" and "dom (syscallMap h) \<noteq> UNIV"
    and "syscallNumber param = NSLEEP" and "params param = [U64 t, x, y]"
    and "sys_inv F s" and "currentUUID s + 1 \<notin> dom (containers s)"
  shows "\<exists>u s'. u \<notin> dom (syscallMap h) \<and>
    sendMessage self self (TimerMsg ''DefaultSyscall'' (AnyUUID u)) t s = Inr (currentUUID s + 1, s') \<and>
    Host_syscall self pid param (h, e, s) = Inr (h\<lparr>syscallIDStart := u + 1, syscallMap := (syscallMap h)(u \<mapsto> pid)\<rparr>, e, s')"
proof -
  have ns: "syscall_namespace param info = Inr (0, 0)" using assms(7) by (simp add: syscall_namespace_def)
  obtain u where u: "u \<notin> dom (syscallMap h)" "Host_syscall self pid param (h, e, s) =
      iface_systemCallback self DefaultIface u pid param
        (h\<lparr>syscallIDStart := u + 1, syscallMap := (syscallMap h)(u \<mapsto> pid)\<rparr>, e, s)"
    using Host_syscall_dispatch [OF assms(1-4) ns assms(5,6)] by blast
  obtain s' where s': "sendMessage self self (TimerMsg ''DefaultSyscall'' (AnyUUID u)) t s = Inr (currentUUID s + 1, s')"
    using sendMessage_ok [OF assms(9,10)] by blast
  with u assms(7,8) show ?thesis
    by (intro exI [of _ u] exI [of _ s']) (simp add: iface_systemCallback_def Default_systemCallback_def get_param_def host_addTimer_def)
qed

lemma registerProcess_spec:
  assumes "0 \<le> pidStart h" and "pidStart h < MAX_PID" and "apps e r = Some a"
  shows "(\<forall>p \<in> {0..<MAX_PID}. processInfoMap h p \<noteq> None) \<and> registerProcess r (h, e) = Some (Inr (- 1, h, e)) \<or>
    (\<exists>p. processInfoMap h p = None \<and> 0 \<le> p \<and> p < MAX_PID \<and>
       registerProcess r (h, e) = Some (Inr (p,
         h\<lparr>processInfoMap := (processInfoMap h)(p \<mapsto> \<lparr>application = r, fdToDomain = []\<rparr>), pidStart := (p + 1) mod MAX_PID\<rparr>,
         e\<lparr>apps := (apps e)(r \<mapsto> a\<lparr>app_pid := p\<rparr>)\<rparr>)))"
proof -
  let ?used = "\<lambda>p. processInfoMap h p \<noteq> None"
  have eq: "MAX_PID = MAX_FD" by (simp add: MAX_PID_def MAX_FD_def)
  have start: "(pidStart h + int 0) mod MAX_FD = pidStart h" using assms(1,2) by (simp add: eq)
  obtain res where r: "pid_probe (nat MAX_FD) ?used (pidStart h) (pidStart h) = Some res"
    "case res of Some p \<Rightarrow> \<not> ?used p \<and> 0 \<le> p \<and> p < MAX_FD
     | None \<Rightarrow> \<forall>i \<in> {0..<nat MAX_FD}. ?used ((pidStart h + int i) mod MAX_FD)"
    using pid_probe_spec [of "pidStart h" "nat MAX_FD" 0 ?used] assms(1,2) start unfolding eq
    by (auto simp: MAX_FD_def)
  show ?thesis
  proof (cases res)
    case None
    have "?used p" if "p \<in> {0..<MAX_PID}" for p
    proof -
      let ?i = "nat ((p - pidStart h) mod MAX_FD)"
      have "?i \<in> {0..<nat MAX_FD}" by (simp add: MAX_FD_def)
      moreover have "(pidStart h + int ?i) mod MAX_FD = p"
        using that by (simp add: MAX_FD_def MAX_PID_def mod_simps)
      moreover have "\<forall>i \<in> {0..<nat MAX_FD}. ?used ((pidStart h + int i) mod MAX_FD)" using r(2) None by simp
      ultimately show ?thesis by metis
    qed
    with None r(1) show ?thesis by (simp add: registerProcess_def)
  next
    case (Some p)
    with r assms(3) show ?thesis by (auto simp: registerProcess_def eq)
  qed
qed

section \<open>Properties\<close>

text \<open>A new file descriptor is the smallest one from 3 on that the process does not use, it
  is bound to the caller's domain and protocol, the other descriptors keep theirs, and the
  table stays sorted; -1, without any change, is returned exactly when 3 to 65535 are all in
  use.\<close>

theorem createFileDescriptor_least:
  assumes "processInfoMap h pid = Some info" and "fds_ok (fdToDomain info)"
  shows "(\<forall>fd \<in> {3..<MAX_FD}. fd \<in> fst ` set (fdToDomain info)) \<and>
      createFileDescriptor domain protocol pid h = Inr (- 1, h) \<or>
    (\<exists>fd info'. 3 \<le> fd \<and> fd < MAX_FD \<and> fd \<notin> fst ` set (fdToDomain info) \<and>
      (\<forall>k. 3 \<le> k \<longrightarrow> k < fd \<longrightarrow> k \<in> fst ` set (fdToDomain info)) \<and>
      createFileDescriptor domain protocol pid h =
        Inr (fd, h\<lparr>processInfoMap := (processInfoMap h)(pid \<mapsto> info')\<rparr>) \<and>
      application info' = application info \<and> fds_ok (fdToDomain info') \<and>
      map_of (fdToDomain info') = (map_of (fdToDomain info))(fd \<mapsto> (domain, protocol)))"
proof -
  let ?fds = "fdToDomain info" and ?fd = "next_fd 3 (fdToDomain info)"
  have S: "3 \<le> ?fd" "?fd \<notin> fst ` set ?fds" "\<forall>k. 3 \<le> k \<longrightarrow> k < ?fd \<longrightarrow> k \<in> fst ` set ?fds"
    using next_fd_spec [of ?fds 3] assms(2) by (auto simp: fds_ok_def)
  show ?thesis
  proof (cases "?fd \<ge> MAX_FD")
    case True
    with S have "\<forall>fd \<in> {3..<MAX_FD}. fd \<in> fst ` set ?fds" by auto
    with True assms(1) show ?thesis by (simp add: createFileDescriptor_def Let_def)
  next
    case False
    let ?info = "info\<lparr>fdToDomain := omap_insert ?fd (domain, protocol) ?fds\<rparr>"
    have I: "sorted_wrt (<) (map fst (fdToDomain ?info))"
      "fst ` set (fdToDomain ?info) = insert ?fd (fst ` set ?fds)"
      "map_of (fdToDomain ?info) = (map_of ?fds)(?fd \<mapsto> (domain, protocol))"
      using omap_insert_spec [OF _ S(2), of "(domain, protocol)"] assms(2) by (simp_all add: fds_ok_def)
    have "fds_ok (fdToDomain ?info)"
      unfolding fds_ok_def I(2) using I(1) S(1) False assms(2) by (simp add: fds_ok_def)
    moreover have "createFileDescriptor domain protocol pid h =
        Inr (?fd, h\<lparr>processInfoMap := (processInfoMap h)(pid \<mapsto> ?info)\<rparr>)"
      using False assms(1) by (simp add: createFileDescriptor_def Let_def)
    ultimately show ?thesis using S False I(3)
      by (intro disjI2 exI [of _ ?fd] exI [of _ ?info]) simp
  qed
qed

definition demo_process :: process_info where
  "demo_process = \<lparr>application = 0, fdToDomain = [(3, (2, 6)), (4, (2, 6)), (6, (2, 6))]\<rparr>"

theorem createFileDescriptor_least_witness:
  "fds_ok (fdToDomain demo_process) \<and>
   fst (projr (createFileDescriptor 2 6 0 (demo_host\<lparr>processInfoMap := [0 \<mapsto> demo_process]\<rparr>))) = 5"
proof -
  have ok: "fds_ok (fdToDomain demo_process)" by (simp add: fds_ok_def demo_process_def MAX_FD_def)
  let ?h = "demo_host\<lparr>processInfoMap := [0 \<mapsto> demo_process]\<rparr>" and ?fds = "fdToDomain demo_process"
  have k: "fst ` set ?fds = {3, 4, 6}" by (simp add: demo_process_def)
  have p: "processInfoMap ?h 0 = Some demo_process" by simp
  consider "\<forall>fd \<in> {3..<MAX_FD}. fd \<in> {3, 4, 6}"
    | fd h' where "3 \<le> fd" "fd \<notin> {3, 4, 6 :: int}" "\<forall>k. 3 \<le> k \<longrightarrow> k < fd \<longrightarrow> k \<in> {3, 4, 6}"
      "createFileDescriptor 2 6 0 ?h = Inr (fd, h')"
    using createFileDescriptor_least [OF p ok, of 2 6] unfolding k by blast
  then show ?thesis
  proof cases
    case 1
    moreover have "(5::int) \<in> {3..<MAX_FD}" by (simp add: MAX_FD_def)
    ultimately have "(5::int) \<in> {3, 4, 6}" by blast
    then show ?thesis by simp
  next
    case 2
    have "\<not> 5 < fd" using 2(3) [rule_format, of 5] by auto
    moreover have "fd \<noteq> 3" "fd \<noteq> 4" using 2(2) by auto
    ultimately have "fd = 5" using 2(1) by presburger
    with 2(4) ok show ?thesis by simp
  qed
qed

text \<open>C31. \<^verbatim>\<open>registerProcess\<close> always returns: with a process identifier from 0 to 65535 that no
  process has, now bound to the application, the next probe starting behind it; or with -1,
  without any change, exactly when all 65536 are taken.\<close>

theorem registerProcess_fresh:
  assumes "0 \<le> pidStart h" and "pidStart h < MAX_PID" and "apps e r = Some a"
  shows "(\<forall>p \<in> {0..<MAX_PID}. processInfoMap h p \<noteq> None) \<and> registerProcess r (h, e) = Some (Inr (- 1, h, e)) \<or>
    (\<exists>p h'. processInfoMap h p = None \<and> 0 \<le> p \<and> p < MAX_PID \<and>
       registerProcess r (h, e) = Some (Inr (p, h', e\<lparr>apps := (apps e)(r \<mapsto> a\<lparr>app_pid := p\<rparr>)\<rparr>)) \<and>
       processInfoMap h' = (processInfoMap h)(p \<mapsto> \<lparr>application = r, fdToDomain = []\<rparr>) \<and>
       0 \<le> pidStart h' \<and> pidStart h' < MAX_PID)"
  using registerProcess_spec [OF assms] by (auto simp: MAX_PID_def)

definition demo_app :: app where
  "demo_app = SystemCallApplication_new 9 (Exit 0)"

theorem registerProcess_fresh_witness:
  "\<exists>p h' e'. registerProcess 0 (demo_host, \<lparr>apps = [0 \<mapsto> demo_app], mem = Map.empty\<rparr>) = Some (Inr (p, h', e')) \<and>
     0 \<le> p \<and> p < MAX_PID"
proof -
  have h: "0 \<le> pidStart demo_host" "pidStart demo_host < MAX_PID"
    "apps \<lparr>apps = [0 \<mapsto> demo_app], mem = Map.empty\<rparr> 0 = Some demo_app"
    by (simp_all add: demo_host_def MAX_PID_def)
  have none: "processInfoMap demo_host 0 = None" "0 \<in> {0..<MAX_PID}" by (simp_all add: demo_host_def MAX_PID_def)
  from registerProcess_fresh [OF h] none show ?thesis by fastforce
qed

text \<open>\<^verbatim>\<open>nsleep\<close>: the call schedules one timer, due exactly the requested number of nanoseconds
  later, and the application stays blocked with a fresh pending call. When that timer is
  handled, the call returns 0: the application is ready with that result, it is in the
  scheduler's ready set, and the call is pending no more.\<close>

theorem nsleep_blocks_then_returns:
  assumes "processInfoMap h pid = Some info" and "apps e (application info) = Some a"
    and "app_pid a = pid" and "pid \<noteq> - 1" and "app_state a = WAITING"
    and "interfaceMap h (0, 0) = Some DefaultIface" and "timerModuleMap h ''DefaultSyscall'' = Some DefaultTimer"
    and "dom (syscallMap h) \<noteq> UNIV"
    and "syscallNumber param = NSLEEP" and "params param = [U64 t, x, y]"
    and "sys_inv F s" and "currentUUID s + 1 \<notin> dom (containers s)"
  shows "\<exists>u h' s' c. u \<notin> dom (syscallMap h) \<and> Host_syscall self pid param (h, e, s) = Inr (h', e, s') \<and>
    syscallMap h' = (syscallMap h)(u \<mapsto> pid) \<and>
    containers s' = (containers s)(currentUUID s + 1 \<mapsto> c) \<and> wakeup c = currentTime s + t \<and> t_to c = self \<and>
    t_message c = TimerMsg ''DefaultSyscall'' (AnyUUID u) \<and>
    (\<forall>s2. Host_messageReceived self self (t_message c) (h', e, s2) =
       Inr (None, h'\<lparr>syscallMap := syscallMap h\<rparr>,
            e\<lparr>apps := (apps e)(application info \<mapsto> a\<lparr>syscallRet := 0, app_state := READY\<rparr>)\<rparr>,
            addRunnable (application info) s2))"
proof -
  let ?m = "\<lambda>u. TimerMsg ''DefaultSyscall'' (AnyUUID u)" and ?h = "\<lambda>u. h\<lparr>syscallIDStart := u + 1, syscallMap := (syscallMap h)(u \<mapsto> pid)\<rparr>"
  from nsleep_syscall [OF assms(1-4,6,8-12)] obtain u s' where u: "u \<notin> dom (syscallMap h)"
    and s': "sendMessage self self (?m u) t s = Inr (currentUUID s + 1, s')"
    and call: "Host_syscall self pid param (h, e, s) = Inr (?h u, e, s')" by blast
  have pend: "pending u pid info a (?h u) e" using assms(1,2,5) by (simp add: pending_def)
  have none: "(syscallMap h)(u := None) = syscallMap h" using u by (intro ext) auto
  have "Host_messageReceived self self (?m u) (?h u, e, s2) =
       Inr (None, (?h u)\<lparr>syscallMap := syscallMap h\<rparr>,
            e\<lparr>apps := (apps e)(application info \<mapsto> a\<lparr>syscallRet := 0, app_state := READY\<rparr>)\<rparr>,
            addRunnable (application info) s2)" for s2
    using assms(7) returnSystemCall_pending [OF pend] none
    by (simp add: Host_messageReceived_def Host_timer_def module_timerCallback_def Default_timerCallback_def)
  with call u sendMessage_inv [OF assms(11) s'] show ?thesis
    by (intro exI [of _ u] exI [of _ "?h u"] exI [of _ s'] exI conjI) (assumption | simp)+
qed

definition demo_waiting :: app where
  "demo_waiting = \<lparr>app_host = 9, app_pid = 0, app_state = WAITING, syscallRet = - 1,
     resume_at = InSyscall (\<lambda>r t m. Exit r)\<rparr>"

definition demo_env :: env where
  "demo_env = \<lparr>apps = [0 \<mapsto> demo_waiting], mem = [100 \<mapsto> (0, 0)]\<rparr>"

definition demo_busy_host :: host where
  "demo_busy_host = demo_host\<lparr>processInfoMap := [0 \<mapsto> demo_process], interfaceMap := [(0, 0) \<mapsto> DefaultIface],
     timerModuleMap := [''DefaultSyscall'' \<mapsto> DefaultTimer]\<rparr>"

lemma demo_busy:
  "processInfoMap demo_busy_host 0 = Some demo_process"
  "apps demo_env (application demo_process) = Some demo_waiting"
  "app_pid demo_waiting = 0" "app_state demo_waiting = WAITING"
  "interfaceMap demo_busy_host (0, 0) = Some DefaultIface"
  "timerModuleMap demo_busy_host ''DefaultSyscall'' = Some DefaultTimer"
  "dom (syscallMap demo_busy_host) \<noteq> UNIV"
  "currentUUID (initial_system :: net) + 1 \<notin> dom (containers (initial_system :: net))"
  by (simp_all add: demo_busy_host_def demo_env_def demo_waiting_def demo_process_def demo_host_def initial_system_def)

theorem nsleep_blocks_then_returns_witness:
  "\<exists>h' s' c. Host_syscall 9 0 \<lparr>syscallNumber = NSLEEP, params = [U64 500, Ptr 0, Ptr 0]\<rparr>
      (demo_busy_host, demo_env, initial_system) = Inr (h', demo_env, s') \<and>
    containers s' = [1 \<mapsto> c] \<and> wakeup c = 500"
proof -
  let ?p = "\<lparr>syscallNumber = NSLEEP, params = [U64 500, Ptr 0, Ptr 0]\<rparr>"
  have pid: "(0 :: int) \<noteq> - 1" by simp
  have par: "syscallNumber ?p = NSLEEP" "params ?p = [U64 500, Ptr 0, Ptr 0]" by simp_all
  from nsleep_blocks_then_returns [OF demo_busy(1-3) pid demo_busy(4-7) par initial_system_inv demo_busy(8), of 9]
  obtain h' s' c where
    "Host_syscall 9 0 ?p (demo_busy_host, demo_env, initial_system) = Inr (h', demo_env, s')"
    "containers s' = (containers (initial_system :: net))(currentUUID (initial_system :: net) + 1 \<mapsto> c)"
    "wakeup c = currentTime (initial_system :: net) + 500"
    by blast
  then show ?thesis by (intro exI [of _ h'] exI [of _ s'] exI [of _ c]) (simp add: initial_system_def)
qed

text \<open>\<^verbatim>\<open>gettimeofday\<close> returns at once: 0 with the clock, in whole microseconds, in the
  caller's \<^verbatim>\<open>timeval\<close>; or \<^verbatim>\<open>-EINVAL\<close> without touching it when a time zone is asked for.\<close>

theorem gettimeofday_reads_clock:
  assumes "processInfoMap h pid = Some info" and "apps e (application info) = Some a"
    and "app_pid a = pid" and "pid \<noteq> - 1" and "app_state a = WAITING"
    and "interfaceMap h (0, 0) = Some DefaultIface" and "dom (syscallMap h) \<noteq> UNIV"
    and "syscallNumber param = GETTIMEOFDAY" and "params param = [Ptr tv, Ptr tz, x]"
    and "tv \<noteq> 0" and "mem e tv \<noteq> None"
  shows "\<exists>h' sec usec. Host_syscall self pid param (h, e, s) =
      Inr (h', e\<lparr>mem := (if tz = 0 then (mem e)(tv \<mapsto> (sec, usec)) else mem e),
                 apps := (apps e)(application info \<mapsto>
                   a\<lparr>syscallRet := (if tz = 0 then 0 else - EINVAL), app_state := READY\<rparr>)\<rparr>,
           addRunnable (application info) s) \<and>
    syscallMap h' = syscallMap h \<and>
    unat sec * 1000000 + unat usec = unat (currentTime s) div 1000 \<and> unat usec < 1000000"
proof -
  have ns: "syscall_namespace param info = Inr (0, 0)" using assms(8) by (simp add: syscall_namespace_def)
  obtain u where u: "u \<notin> dom (syscallMap h)" "Host_syscall self pid param (h, e, s) =
      iface_systemCallback self DefaultIface u pid param
        (h\<lparr>syscallIDStart := u + 1, syscallMap := (syscallMap h)(u \<mapsto> pid)\<rparr>, e, s)"
    using Host_syscall_dispatch [OF assms(1-4) ns assms(6,7)] by blast
  let ?h = "h\<lparr>syscallIDStart := u + 1, syscallMap := (syscallMap h)(u \<mapsto> pid)\<rparr>"
  let ?us = "getTime (currentTime s) USEC"
  have us: "unat ?us = unat (currentTime s) div 1000"
    by (simp add: getTime_def getMultiplier_def multiplier_labels_def unat_div)
  let ?e = "if tz = 0 then e\<lparr>mem := (mem e)(tv \<mapsto> (?us div 1000000, ?us mod 1000000))\<rparr> else e"
  have pend: "pending u pid info a ?h ?e" using assms(1,2,5) by (simp add: pending_def)
  have none: "(syscallMap h)(u := None) = syscallMap h" using u(1) by (intro ext) auto
  have "Host_syscall self pid param (h, e, s) = returnSystemCall u (if tz = 0 then 0 else - EINVAL) (?h, ?e, s)"
    using u(2) assms(8-11)
    by (auto simp: iface_systemCallback_def Default_systemCallback_def get_param_def getCurrentTime_def
        store_timeval_def Let_def)
  with returnSystemCall_pending [OF pend] none have call: "Host_syscall self pid param (h, e, s) =
      Inr (?h\<lparr>syscallMap := syscallMap h\<rparr>,
           ?e\<lparr>apps := (apps ?e)(application info \<mapsto> a\<lparr>syscallRet := (if tz = 0 then 0 else - EINVAL), app_state := READY\<rparr>)\<rparr>,
           addRunnable (application info) s)"
    by simp
  have "unat (?us div 1000000) * 1000000 + unat (?us mod 1000000) = unat (currentTime s) div 1000"
    "unat (?us mod 1000000) < 1000000"
    by (simp_all add: unat_div unat_mod us)
  with call show ?thesis
    by (intro exI [of _ "?h\<lparr>syscallMap := syscallMap h\<rparr>"] exI [of _ "?us div 1000000"] exI [of _ "?us mod 1000000"])
      (auto simp del: fun_upd_apply)
qed

theorem gettimeofday_reads_clock_witness:
  "\<exists>h' e' s'. Host_syscall 9 0 \<lparr>syscallNumber = GETTIMEOFDAY, params = [Ptr 100, Ptr 0, Ptr 0]\<rparr>
      (demo_busy_host, demo_env, initial_system) = Inr (h', e', s')"
proof -
  let ?p = "\<lparr>syscallNumber = GETTIMEOFDAY, params = [Ptr 100, Ptr 0, Ptr 0]\<rparr>"
  have par: "syscallNumber ?p = GETTIMEOFDAY" "params ?p = [Ptr 100, Ptr 0, Ptr 0]" "(100 :: u64) \<noteq> 0"
    "mem demo_env 100 \<noteq> None" "(0 :: int) \<noteq> - 1"
    by (simp_all add: demo_env_def)
  from gettimeofday_reads_clock [OF demo_busy(1-3) par(5) demo_busy(4,5,7) par(1-4), of 9 initial_system]
  show ?thesis by blast
qed

text \<open>C39. Two ways a system call does not come back with an error: on a descriptor the process
  does not have, the assertion of the host stops the simulation; and when no module serves
  the domain and protocol, the call is dropped without becoming pending, so the application,
  which is blocked, is never woken.\<close>

theorem unserved_calls:
  assumes "processInfoMap h pid = Some info" and "apps e (application info) = Some a"
    and "app_pid a = pid" and "pid \<noteq> - 1"
  shows "(\<forall>param fd rest. syscallNumber param \<in> {CLOSE, READ, WRITE, CONNECT, LISTEN, ACCEPT, BIND, GETSOCKNAME, GETPEERNAME} \<longrightarrow>
      params param = I32 fd # rest \<longrightarrow> fd \<notin> fst ` set (fdToDomain info) \<longrightarrow>
      Host_syscall self pid param (h, e, s) = Inl AssertFail) \<and>
    (\<forall>param domain ty protocol. syscallNumber param = SOCKET \<longrightarrow>
      params param = [I32 domain, ty, I32 protocol] \<longrightarrow> interfaceMap h (domain, protocol) = None \<longrightarrow>
      Host_syscall self pid param (h, e, s) = Inr (h, e, s))"
proof (intro conjI allI impI)
  fix param :: syscall_param and fd rest
  assume n: "syscallNumber param \<in> {CLOSE, READ, WRITE, CONNECT, LISTEN, ACCEPT, BIND, GETSOCKNAME, GETPEERNAME}"
    and p: "params param = I32 fd # rest" and fd: "fd \<notin> fst ` set (fdToDomain info)"
  have "map_of (fdToDomain info) fd = None" using fd by (simp add: map_of_eq_None_iff)
  then have "syscall_namespace param info = Inl AssertFail"
    using n p by (auto simp: syscall_namespace_def get_param_def)
  then show "Host_syscall self pid param (h, e, s) = Inl AssertFail"
    using assms by (simp add: Host_syscall_def)
next
  fix param :: syscall_param and domain ty protocol
  assume "syscallNumber param = SOCKET" "params param = [I32 domain, ty, I32 protocol]"
    and none: "interfaceMap h (domain, protocol) = None"
  then have "syscall_namespace param info = Inr (domain, protocol)"
    by (simp add: syscall_namespace_def get_param_def)
  with none show "Host_syscall self pid param (h, e, s) = Inr (h, e, s)"
    using assms by (simp add: Host_syscall_def)
qed

theorem unserved_calls_witness:
  "Host_syscall 9 0 \<lparr>syscallNumber = CLOSE, params = [I32 5, Ptr 0, Ptr 0]\<rparr>
     (demo_busy_host, demo_env, initial_system) = Inl AssertFail \<and>
   Host_syscall 9 0 \<lparr>syscallNumber = SOCKET, params = [I32 2, I32 1, I32 17]\<rparr>
     (demo_busy_host, demo_env, initial_system) = Inr (demo_busy_host, demo_env, initial_system)"
proof -
  have pid: "(0 :: int) \<noteq> - 1" by simp
  have "5 \<notin> fst ` set (fdToDomain demo_process)" "interfaceMap demo_busy_host (2, 17) = None"
    by (simp_all add: demo_process_def demo_busy_host_def)
  with unserved_calls [OF demo_busy(1-3) pid, of 9 initial_system] show ?thesis by simp
qed

end
