(* ===== verification/Network_World.thy ===== *)
theory Network_World
  imports Hub_Switch Host
begin

text \<open>
  The whole network: the modules registered in a \<^verbatim>\<open>NetworkSystem\<close> (\<^verbatim>\<open>src/Networking/E_Networking.cpp\<close>),
  the applications of its hosts and the packet identifiers, with the virtual functions the
  scheduler calls dispatched on the class of the module. The interface the scheduler
  relies on is interpreted here on these functions, so its theorems hold of the network; and
  the consistency of every hub and switch is an invariant of every run.
\<close>

section \<open>Definitions\<close>

datatype modul = WireM wire | HubM link | SwitchM switch | HostM host

record world =
  modules :: "ModuleID \<rightharpoonup> modul"
  w_env :: env
  w_ids :: packet_ids
  next_module_id :: ModuleID

definition NetworkSystem_new :: "world \<times> net" where
  "NetworkSystem_new =
     (\<lparr>modules = Map.empty, w_env = \<lparr>apps = Map.empty, mem = Map.empty\<rparr>, w_ids = initial_ids,
       next_module_id = 1\<rparr>, initial_system)"

text \<open>\<^verbatim>\<open>System::addModule\<close> with \<^verbatim>\<open>newModuleID\<close>.\<close>

definition net_addModule :: "modul \<Rightarrow> world \<times> net \<Rightarrow> (ModuleID \<times> world \<times> net) result" where
  "net_addModule m st =
     (case st of (w, s) \<Rightarrow>
       let i = next_module_id w in
       bindE (addModule i s) (\<lambda>(i', s').
         Inr (i, w\<lparr>modules := (modules w)(i \<mapsto> m), next_module_id := i'\<rparr>, s')))"

text \<open>\<^verbatim>\<open>NetworkModule::connectWire\<close>, for the classes derived from it.\<close>

definition net_connectWire :: "ModuleID \<Rightarrow> ModuleID \<Rightarrow> world \<Rightarrow> (int \<times> world) result" where
  "net_connectWire m wire_id w =
     (case modules w m of
        Some (HubM l) \<Rightarrow> (let (k, l') = link_connectWire wire_id l in Inr (k, w\<lparr>modules := (modules w)(m \<mapsto> HubM l')\<rparr>))
      | Some (SwitchM l) \<Rightarrow> (let (k, l') = link_connectWire wire_id l in Inr (k, w\<lparr>modules := (modules w)(m \<mapsto> SwitchM l')\<rparr>))
      | Some (HostM h) \<Rightarrow> (let (k, h') = host_connectWire wire_id h in Inr (k, w\<lparr>modules := (modules w)(m \<mapsto> HostM h')\<rparr>))
      | _ \<Rightarrow> Inl BadCast)"

definition addWire ::
  "ModuleID \<Rightarrow> ModuleID \<Rightarrow> Time \<Rightarrow> Size \<Rightarrow> bool \<Rightarrow> world \<times> net \<Rightarrow> (ModuleID \<times> int \<times> int \<times> world \<times> net) result" where
  "addWire left right pd bps limit st =
     bindE (net_addModule (WireM (Wire_new left right pd bps limit (snd st))) st) (\<lambda>(wid, w, s).
     bindE (net_connectWire left wid w) (\<lambda>(left_port_id, w).
     bindE (net_connectWire right wid w) (\<lambda>(right_port_id, w).
       Inr (wid, left_port_id, right_port_id, w, s))))"

definition NetworkSystem_getWireSpeed :: "ModuleID \<Rightarrow> world \<Rightarrow> Size result" where
  "NetworkSystem_getWireSpeed m w =
     (case modules w m of
        None \<Rightarrow> Inl NullDeref
      | Some (WireM x) \<Rightarrow> Inr (Wire_getWireSpeed x)
      | Some _ \<Rightarrow> Inl BadCast)"

definition Host_getWireSpeed :: "int \<Rightarrow> host \<Rightarrow> world \<Rightarrow> Size result" where
  "Host_getWireSpeed port_num h w =
     (if port_num < 0 then Inl OutOfBounds
      else bindE (indexE (h_ports h) (nat port_num)) (\<lambda>i. NetworkSystem_getWireSpeed i w))"

text \<open>The virtual functions of the modules.\<close>

definition net_received :: "ModuleID \<Rightarrow> ModuleID \<Rightarrow> msg \<Rightarrow> world \<times> net \<Rightarrow> (msg option \<times> world \<times> net) result" where
  "net_received to from m st =
     (case st of (w, s) \<Rightarrow>
       (case modules w to of
          None \<Rightarrow> Inl NullDeref
        | Some (WireM x) \<Rightarrow>
            bindE (Wire_messageReceived to from m (x, s)) (\<lambda>(ret, x', s').
              Inr (ret, w\<lparr>modules := (modules w)(to \<mapsto> WireM x')\<rparr>, s'))
        | Some (HubM l) \<Rightarrow>
            bindE (Link_messageReceived Hub_packetArrived to from m (l, w_ids w, s)) (\<lambda>(ret, l', ids, s').
              Inr (ret, w\<lparr>modules := (modules w)(to \<mapsto> HubM l'), w_ids := ids\<rparr>, s'))
        | Some (SwitchM l) \<Rightarrow>
            bindE (Link_messageReceived Switch_packetArrived to from m (l, w_ids w, s)) (\<lambda>(ret, l', ids, s').
              Inr (ret, w\<lparr>modules := (modules w)(to \<mapsto> SwitchM l'), w_ids := ids\<rparr>, s'))
        | Some (HostM h) \<Rightarrow>
            bindE (Host_messageReceived to from m (h, w_env w, s)) (\<lambda>(ret, h', e, s').
              Inr (ret, w\<lparr>modules := (modules w)(to \<mapsto> HostM h'), w_env := e\<rparr>, s'))))"

definition net_finished :: "ModuleID \<Rightarrow> ModuleID \<Rightarrow> msg \<Rightarrow> msg option \<Rightarrow> world \<times> net \<Rightarrow> (world \<times> net) result" where
  "net_finished md to m response st =
     bindE (case modules (fst st) md of
              None \<Rightarrow> Inl NullDeref
            | Some (WireM _) \<Rightarrow> Wire_messageFinished to m response
            | Some (HostM _) \<Rightarrow> Host_messageFinished to m response
            | Some _ \<Rightarrow> Link_messageFinished to m response) (\<lambda>_. Inr st)"

definition net_cancelled :: "ModuleID \<Rightarrow> ModuleID \<Rightarrow> msg \<Rightarrow> world \<times> net \<Rightarrow> (world \<times> net) result" where
  "net_cancelled md to m st =
     bindE (case modules (fst st) md of
              None \<Rightarrow> Inl NullDeref
            | Some (WireM _) \<Rightarrow> Wire_messageCancelled to m
            | Some (HostM _) \<Rightarrow> Host_messageCancelled to m
            | Some _ \<Rightarrow> Link_messageCancelled to m) (\<lambda>_. Inr st)"

definition net_wake :: "nat \<Rightarrow> runnable \<Rightarrow> world \<times> net \<Rightarrow> (runnable_state \<times> world \<times> net) result" where
  "net_wake fuel r st =
     (case st of (w, s) \<Rightarrow>
       (case apps (w_env w) r of
          None \<Rightarrow> Inl NullDeref
        | Some a \<Rightarrow>
            (case modules w (app_host a) of
               Some (HostM h) \<Rightarrow>
                 bindE (app_wake fuel (running h) r a (w_env w, s)) (\<lambda>(next_state, e, s').
                   Inr (next_state, w\<lparr>w_env := e\<rparr>, s'))
             | _ \<Rightarrow> Inl NullDeref)))"

definition net_callbacks :: "nat \<Rightarrow> (msg, world) callbacks" where
  "net_callbacks fuel = \<lparr>cb_received = net_received, cb_finished = net_finished,
     cb_cancelled = net_cancelled, cb_wake = net_wake fuel\<rparr>"

lemma net_callbacks_simps [simp]:
  "cb_received (net_callbacks fuel) = net_received" "cb_finished (net_callbacks fuel) = net_finished"
  "cb_cancelled (net_callbacks fuel) = net_cancelled" "cb_wake (net_callbacks fuel) = net_wake fuel"
  by (simp_all add: net_callbacks_def)

section \<open>The modules keep to the interface of the scheduler\<close>

text \<open>What any module of the network does to the scheduler: no cancellation, and a
  \<^verbatim>\<open>CHECK_QUEUE\<close> only from a module to itself.\<close>

fun net_op :: "ModuleID \<Rightarrow> msg sys_op \<Rightarrow> bool" where
  "net_op self (Send src dst m d) = ((\<exists>w. m = LinkMsg w) \<longrightarrow> dst = self)"
| "net_op self (Cancel u) = False"
| "net_op self _ = True"

lemma net_op_of:
  "link_op self x \<Longrightarrow> net_op self x" "host_op self x \<Longrightarrow> net_op self x"
  "x = Send self dst (WireMsg PACKET_FROM_PORT p) d \<Longrightarrow> net_op self x"
  by (cases x; auto)+

lemma net_op_no_cancel: "net_op self x \<Longrightarrow> no_cancel x"
  by (cases x) auto

lemma net_received_emits:
  assumes "net_received to from m (w, s) = Inr (ret, w', s')"
  shows "ret = None \<and> emits (net_op to) s s'"
proof (cases "modules w to")
  case None
  with assms show ?thesis by (simp add: net_received_def)
next
  case (Some md)
  show ?thesis
  proof (cases md)
    case (WireM x)
    with Some assms obtain x' where "Wire_messageReceived to from m (x, s) = Inr (ret, x', s')"
      by (auto simp: net_received_def result_simps)
    from Wire_emits [OF this] show ?thesis by (auto intro: emits_mono net_op_of)
  next
    case (HubM l)
    with Some assms obtain l' ids where
      "Link_messageReceived Hub_packetArrived to from m (l, w_ids w, s) = Inr (ret, l', ids, s')"
      by (auto simp: net_received_def result_simps)
    from hub.received_emits [OF this] show ?thesis by (auto intro: emits_mono net_op_of)
  next
    case (SwitchM l)
    with Some assms obtain l' ids where
      "Link_messageReceived Switch_packetArrived to from m (l, w_ids w, s) = Inr (ret, l', ids, s')"
      by (auto simp: net_received_def result_simps)
    from switch.received_emits [OF this] show ?thesis by (auto intro: emits_mono net_op_of)
  next
    case (HostM h)
    with Some assms obtain h' e where
      "Host_messageReceived to from m (h, w_env w, s) = Inr (ret, h', e, s')"
      by (auto simp: net_received_def result_simps)
    from Host_emits [OF this] show ?thesis by (auto simp: host_emits_def intro: emits_mono net_op_of)
  qed
qed

lemma net_finished_same: "net_finished md to m resp st = Inr st' \<Longrightarrow> st' = st"
  by (auto simp: net_finished_def result_simps)

lemma net_cancelled_same: "net_cancelled md to m st = Inr st' \<Longrightarrow> st' = st"
  by (auto simp: net_cancelled_def result_simps)

lemma net_wake_step:
  assumes "net_wake fuel r (w, s) = Inr (x, w', s')"
  shows "(\<exists>i. emits (host_op i) s s') \<and> runnableReady s' = runnableReady s \<and> x \<in> {WAITING, TERMINATED} \<and>
    modules w' = modules w"
proof -
  from assms obtain a h e where "apps (w_env w) r = Some a" "modules w (app_host a) = Some (HostM h)"
    "app_wake fuel (running h) r a (w_env w, s) = Inr (x, e, s')" "w' = w\<lparr>w_env := e\<rparr>"
    by (auto simp: net_wake_def result_simps split: option.splits modul.splits)
  then obtain a' p where "app_run fuel (running h) r a' p (w_env w, s) = Inr (x, e, s')"
    by (auto simp: app_wake_def result_simps)
  from app_run_step [OF this] \<open>w' = _\<close> show ?thesis by auto
qed

interpretation net: system_client "net_callbacks fuel" no_cancel for fuel
proof unfold_locales
  fix to "from" m w s ret w' s'
  assume "cb_received (net_callbacks fuel) to from m (w, s) = Inr (ret, w', s')"
  then show "emits no_cancel s s'"
    by (auto dest!: net_received_emits elim!: emits_mono net_op_no_cancel)
next
  fix md to m resp w s w' s'
  assume "cb_finished (net_callbacks fuel) md to m resp (w, s) = Inr (w', s')"
  then have "(w', s') = (w, s)" by (intro net_finished_same) simp
  then show "emits no_cancel s s'" by simp
next
  fix md to m w s w' s'
  assume "cb_cancelled (net_callbacks fuel) md to m (w, s) = Inr (w', s')"
  then have "(w', s') = (w, s)" by (intro net_cancelled_same) simp
  then show "emits no_cancel s s'" by simp
next
  fix r w s st w' s'
  assume "cb_wake (net_callbacks fuel) r (w, s) = Inr (st, w', s')"
  then obtain i where "emits (host_op i) s s'" "runnableReady s' = runnableReady s"
    by (auto dest: net_wake_step)
  then show "emits no_cancel s s'" "runnableReady s' = runnableReady s"
    by (auto elim!: emits_mono dest!: net_op_of(2) net_op_no_cancel)
qed simp

section \<open>The hubs and switches of a network\<close>

definition net_links :: "world \<Rightarrow> net \<Rightarrow> bool" where
  "net_links w s \<longleftrightarrow>
     (\<forall>i l. modules w i = Some (HubM l) \<longrightarrow> link_inv i l s) \<and>
     (\<forall>i sw. modules w i = Some (SwitchM sw) \<longrightarrow> link_inv i sw s)"

text \<open>A port whose next check is due only after the time \<open>till\<close>; 0 is no limit.\<close>

definition check_beyond :: "Time \<Rightarrow> ModuleID \<Rightarrow> ModuleID \<Rightarrow> net \<Rightarrow> bool" where
  "check_beyond till i v s \<longleftrightarrow> till \<noteq> 0 \<and>
     (\<exists>p c. checks i v s = {p} \<and> containers s p = Some c \<and> till < wakeup c)"

text \<open>The queues of a module are consistent whatever happens elsewhere.\<close>

lemma port_ok_op_other:
  assumes "sys_inv F s" and "exec_op x s = Inr s'" and "no_cancel x"
    and "\<forall>src v d. x \<noteq> Send src i (LinkMsg v) d"
  shows "link_port_ok i v l s' = link_port_ok i v l s"
proof (cases x)
  case (Send src dst m d)
  then have "post src dst m d s = Inr s'" using assms(2) by (simp add: post_def)
  with port_ok_post_other [OF assms(1) this, of i v l] assms(4) Send show ?thesis by auto
qed (use assms in \<open>auto simp: addRunnable_def delRunnable_def link_port_ok_def checks_def\<close>)

lemma link_inv_emits_other:
  assumes "emits P s s'" and "sys_inv F s" and "link_inv i l s"
    and "\<And>x. P x \<Longrightarrow> no_cancel x \<and> (\<forall>src v d. x \<noteq> Send src i (LinkMsg v) d)"
  shows "link_inv i l s'"
proof -
  from assms(1) obtain ops where "list_all P ops" "exec_ops ops s = Inr s'" by (auto simp: emits_def)
  then have "link_inv i l s'"
    using assms(2,3)
  proof (induction ops arbitrary: s)
    case (Cons x ops)
    from Cons.prems(2) obtain s1 where s1: "exec_op x s = Inr s1" "exec_ops ops s1 = Inr s'"
      by (auto simp: result_simps)
    have "link_inv i l s1"
      using Cons.prems(1,4) port_ok_op_other [OF Cons.prems(3) s1(1), where l = l and i = i] assms(4) [of x]
      by (auto simp: link_inv_def)
    with Cons exec_op_inv [OF Cons.prems(3) s1(1)] s1(2) show ?case by simp
  qed simp
  then show ?thesis .
qed

text \<open>Taking a message off the queue: a check becomes due, anything else changes nothing.\<close>

lemma checks_pop:
  assumes "sys_inv F s" and "timerQueue s = p # q"
  shows "checks i v (s\<lparr>timerQueue := q, currentTime := t\<rparr>) = checks i v s - {p}"
  using assms by (auto simp: checks_def sys_inv_def)

lemma port_ok_pop_other:
  assumes "sys_inv F s" and "timerQueue s = p # q" and "p \<notin> checks i v s"
  shows "link_port_ok i v l (s\<lparr>timerQueue := q, currentTime := t\<rparr>) = link_port_ok i v l s"
  using assms by (simp add: link_port_ok_def checks_pop [OF assms(1,2)])

lemma check_due_pop:
  assumes "sys_inv F s" and "timerQueue s = p # q" and "containers s p = Some c"
    and "t_message c = LinkMsg v" and "link_inv (t_to c) l s"
  shows "check_due (t_to c) v l (s\<lparr>timerQueue := q, currentTime := wakeup c\<rparr>) \<and> \<not> canceled c"
proof -
  have p: "p \<in> checks (t_to c) v s" using assms by (auto simp: checks_def)
  then have one: "checks (t_to c) v s = {p}" "outputQueue l v \<noteq> []" "l_nextAvailable l v \<le> wakeup c" "\<not> canceled c"
    using assms(3,5) by (auto simp: link_inv_def link_port_ok_def split: if_splits dest!: spec [of _ v])
  have "link_port_ok (t_to c) u l (s\<lparr>timerQueue := q, currentTime := wakeup c\<rparr>)" if "u \<noteq> v" for u
  proof -
    have "p \<notin> checks (t_to c) u s" using assms(3,4) that by (auto simp: checks_def)
    with port_ok_pop_other [OF assms(1,2), where l = l] assms(5) show ?thesis by (auto simp: link_inv_def)
  qed
  with one assms(5) checks_pop [OF assms(1,2)] show ?thesis
    by (auto simp: check_due_def link_inv_def)
qed

lemma link_inv_pop_other:
  assumes "sys_inv F s" and "timerQueue s = p # q" and "containers s p = Some c"
    and "link_inv i l s" and "t_to c \<noteq> i \<or> (\<forall>v. t_message c \<noteq> LinkMsg v)"
  shows "link_inv i l (s\<lparr>timerQueue := q, currentTime := t\<rparr>)"
proof -
  have "p \<notin> checks i v s" for v using assms(3,5) by (auto simp: checks_def)
  with port_ok_pop_other [OF assms(1,2), where l = l] assms(4) show ?thesis by (auto simp: link_inv_def)
qed

lemma link_inv_retire:
  assumes "p \<notin> set (timerQueue s)" and "link_inv i l s"
  shows "link_inv i l (retire p s)"
proof -
  have c: "checks i v (retire p s) = checks i v s" for v
    using assms(1) by (auto simp: checks_def retire_def)
  have "p \<notin> checks i v s" for v using assms(1) by (auto simp: checks_def)
  then have "containers (retire p s) p' = containers s p'" if "checks i v s = {p'}" for v p'
    using that by (auto simp: retire_def)
  then have "link_port_ok i v l (retire p s) = link_port_ok i v l s" for v
    unfolding link_port_ok_def c by (simp cong: conj_cong)
  with assms(2) show ?thesis by (simp add: link_inv_def)
qed

text \<open>Delivering a message to a module of the network.\<close>

lemma net_received_links:
  assumes "net_received i from m (w, s) = Inr (ret, w', s')" and "sys_inv F s"
    and "\<And>j l. j \<noteq> i \<Longrightarrow> modules w j = Some (HubM l) \<Longrightarrow> link_inv j l s"
    and "\<And>j sw. j \<noteq> i \<Longrightarrow> modules w j = Some (SwitchM sw) \<Longrightarrow> link_inv j sw s"
    and "\<And>l. modules w i = Some (HubM l) \<Longrightarrow> case m of LinkMsg v \<Rightarrow> check_due i v l s | _ \<Rightarrow> link_inv i l s"
    and "\<And>sw. modules w i = Some (SwitchM sw) \<Longrightarrow> case m of LinkMsg v \<Rightarrow> check_due i v sw s | _ \<Rightarrow> link_inv i sw s"
  shows "net_links w' s'"
proof -
  have e: "emits (net_op i) s s'" using net_received_emits [OF assms(1)] by blast
  have others: "link_inv j l s'" if "j \<noteq> i" "link_inv j l s" for j and l :: "'a link_scheme"
    using that by (intro link_inv_emits_other [OF e assms(2)]) (auto simp: net_op_no_cancel)
  obtain md where md: "modules w i = Some md" using assms(1) by (auto simp: net_received_def split: option.splits)
  obtain md' where w': "modules w' = (modules w)(i \<mapsto> md')"
    and hub: "\<And>l. md' = HubM l \<Longrightarrow> link_inv i l s'" and sw: "\<And>l. md' = SwitchM l \<Longrightarrow> link_inv i l s'"
  proof (cases md)
    case (WireM x)
    with md assms(1) obtain x' where "modules w' = (modules w)(i \<mapsto> WireM x')"
      by (auto simp: net_received_def result_simps)
    then show ?thesis by (rule that) simp_all
  next
    case (HubM l)
    with md assms(1) obtain l' ids where l': "Link_messageReceived Hub_packetArrived i from m (l, w_ids w, s) = Inr (ret, l', ids, s')"
      "modules w' = (modules w)(i \<mapsto> HubM l')"
      by (auto simp: net_received_def result_simps)
    show ?thesis
      by (rule that [OF l'(2)]) (use hub.received_keeps [OF l'(1) assms(2)] assms(5) md HubM in auto)
  next
    case (SwitchM l)
    with md assms(1) obtain l' ids where l': "Link_messageReceived Switch_packetArrived i from m (l, w_ids w, s) = Inr (ret, l', ids, s')"
      "modules w' = (modules w)(i \<mapsto> SwitchM l')"
      by (auto simp: net_received_def result_simps)
    show ?thesis
      by (rule that [OF l'(2)]) (use switch.received_keeps [OF l'(1) assms(2)] assms(6) md SwitchM in auto)
  next
    case (HostM h)
    with md assms(1) obtain h' where "modules w' = (modules w)(i \<mapsto> HostM h')"
      by (auto simp: net_received_def result_simps)
    then show ?thesis by (rule that) simp_all
  qed
  show ?thesis
    unfolding net_links_def w' using assms(3,4) hub sw by (auto split: if_splits intro: others)
qed

text \<open>Every step of the scheduler keeps all hubs and switches consistent.\<close>

lemma net_deliver_state:
  assumes "deliver (net_callbacks fuel) c (w, s) = Inr (w', s')"
  shows "net_received (t_to c) (t_from c) (t_message c) (w, s) = Inr (None, w', s')"
proof -
  from assms obtain ret w1 s1 w2 s2 where r: "net_received (t_to c) (t_from c) (t_message c) (w, s) = Inr (ret, w1, s1)"
    and f: "net_finished (t_from c) (t_to c) (t_message c) ret (w1, s1) = Inr (w2, s2)"
    and z: "(case ret of None \<Rightarrow> Inr (w2, s2)
         | Some m \<Rightarrow> bindE (require_module (t_to c) s2) (\<lambda>_. net_finished (t_to c) (t_to c) m None (w2, s2)))
        = Inr (w', s')"
    by (auto simp: deliver_def result_simps cong: option.case_cong)
  from net_received_emits [OF r] have "ret = None" by blast
  with z net_finished_same [OF f] r show ?thesis by simp
qed

lemma net_wake_links:
  assumes "wake_one (net_callbacks fuel) r (w, s) = Inr (w', s')" and "sys_inv {} s" and "net_links w s"
  shows "net_links w' s'"
proof -
  from assms(1) obtain st s1 where "net_wake fuel r (w, s) = Inr (st, w', s1)" "s' = (if st \<noteq> READY then delRunnable r s1 else s1)"
    using net.wake_oneE by (metis net_callbacks_simps(4))
  with net_wake_step obtain i where e: "emits (host_op i) s s1" "modules w' = modules w" by blast
  have s': "link_inv j l s' = link_inv j l s1" for j and l :: "'a link_scheme"
    using \<open>s' = _\<close> by (auto simp: delRunnable_def link_inv_def link_port_ok_def checks_def)
  have keep: "link_inv j l s1" if "link_inv j l s" for j and l :: "'a link_scheme"
    by (rule link_inv_emits_other [OF e(1) assms(2) that]) (auto elim!: host_op.elims)
  show ?thesis using assms(3) by (auto simp: net_links_def s' e(2) intro: keep)
qed

lemma net_step_links:
  assumes "sched (net_callbacks fuel) (w, s) l (w', s')" and "sys_inv {} s" and "net_links w s"
  shows "net_links w' s'"
  using assms(1)
proof cases
  case (woke r ops)
  then show ?thesis using net_wake_links [OF _ assms(2,3)] by blast
next
  case (handled p q c ops s1)
  let ?s0 = "s\<lparr>timerQueue := q, currentTime := wakeup c\<rparr>"
  have i0: "sys_inv {p} ?s0" by (rule pop_inv [OF assms(2) handled(3)])
  have due: "check_due (t_to c) v x ?s0 \<and> \<not> canceled c"
    if "link_inv (t_to c) x s" "t_message c = LinkMsg v" for v and x :: "'a link_scheme"
    by (rule check_due_pop [OF assms(2) handled(3,4) that(2,1)])
  have other: "link_inv j x ?s0"
    if "link_inv j x s" "t_to c \<noteq> j \<or> (\<forall>v. t_message c \<noteq> LinkMsg v)" for j and x :: "'a link_scheme"
    by (rule link_inv_pop_other [OF assms(2) handled(3,4) that])
  from handled(3,4,5) obtain s2 where s2: "s' = retire p s2" and
    d: "(if \<not> canceled c then deliver (net_callbacks fuel) c (w, ?s0) else withdraw (net_callbacks fuel) c (w, ?s0)) = Inr (w', s2)"
    by (auto simp: handle_top_def Let_def result_simps)
  have "net_links w' s2 \<and> emits no_cancel ?s0 s2"
  proof (cases "canceled c")
    case True
    with d have "(w', s2) = (w, ?s0)"
      by (auto simp: withdraw_def result_simps dest: net_cancelled_same)
    have keep: "link_inv j x ?s0" if "link_inv j x s" for j and x :: "'a link_scheme"
      using other [OF that] due [of x] True that by blast
    show ?thesis using assms(3) \<open>(w', s2) = (w, ?s0)\<close> by (auto simp: net_links_def intro: keep)
  next
    case False
    with d have r: "net_received (t_to c) (t_from c) (t_message c) (w, ?s0) = Inr (None, w', s2)"
      by (auto dest: net_deliver_state)
    have "net_links w' s2"
      by (rule net_received_links [OF r i0])
        (use assms(3) in \<open>auto simp: net_links_def split: msg.split intro: other due [THEN conjunct1]\<close>)
    with net_received_emits [OF r] show ?thesis by (auto elim!: emits_mono net_op_no_cancel)
  qed
  moreover from this have "p \<notin> set (timerQueue s2)"
    using emits_inv [OF _ i0, of no_cancel s2] by (auto simp: sys_inv_def)
  ultimately show ?thesis unfolding s2 net_links_def by (auto intro: link_inv_retire)
qed

lemma net_star_links:
  "sched_star (net_callbacks fuel) st tr st' \<Longrightarrow> sys_inv {} (snd st) \<Longrightarrow> net_links (fst st) (snd st) \<Longrightarrow>
   net_links (fst st') (snd st')"
proof (induction rule: sched_star.induct)
  case (step st l st' tr st'')
  then show ?case by (metis net_step_links sched_inv prod.collapse)
qed simp

section \<open>A network of one hub and one wire\<close>

definition demo_packet :: packet where
  "demo_packet = \<lparr>buffer = [1, 2, 3], packetID = 0\<rparr>"

definition demo_hub :: link where
  "demo_hub = (setLinkSpeed 0 (Link_new (sconst 0)))\<lparr>l_ports := [1], outputQueue := (\<lambda>_. [])(1 := [demo_packet])\<rparr>"

definition demo_net :: world where
  "demo_net = (fst NetworkSystem_new)\<lparr>modules := [1 \<mapsto> WireM (Wire_new 2 0 1000 0 True (snd NetworkSystem_new)), 2 \<mapsto> HubM demo_hub],
     next_module_id := 3\<rparr>"

definition demo_check :: "msg timer" where
  "demo_check = \<lparr>t_from = 2, t_to = 2, canceled = False, wakeup = 0, t_message = LinkMsg 1, t_uuid = 1\<rparr>"

definition demo_sys :: net where
  "demo_sys = initial_system\<lparr>registeredModule := {1, 2}, containers := [1 \<mapsto> demo_check],
     timerQueue := [1], activeTimer := [1 \<mapsto> 1], activeUUID := {1}, currentUUID := 1\<rparr>"

lemma demo_sys_built:
  "exec_ops [Send 2 2 (LinkMsg 1) 0] (initial_system\<lparr>registeredModule := {1, 2}\<rparr>) = Inr demo_sys"
  by (simp add: sendMessage_def allocateUUID_def Let_def initial_system_def getCurrentTime_def demo_sys_def demo_check_def)

lemma demo_ready: "scheduler_ready demo_sys"
proof (rule scheduler_ready_ops [OF _ demo_sys_built])
  show "scheduler_ready (initial_system\<lparr>registeredModule := {1, 2}\<rparr> :: net)"
    using initial_scheduler_ready [where 'a = msg]
    by (simp add: scheduler_ready_def sys_inv_def after_def)
qed (simp_all add: initial_system_def num_sends_def)

lemma demo_links: "net_links demo_net demo_sys"
  by (auto simp: net_links_def demo_net_def demo_sys_def demo_hub_def demo_check_def link_inv_def link_bounded_def
      link_port_ok_def checks_def setLinkSpeed_def Link_new_def canonical_def initial_system_def split: if_splits)

lemma enumerates_sorted: "enumerates sorted_list_of_set"
  by (simp add: enumerates_def)

lemmas run_simps = handle_top_def deliver_def withdraw_def wake_all.simps require_module_def isRegistered_def
  getCurrentTime_def Let_def result_simps

lemma demo_run:
  "\<exists>w' s'. run sorted_list_of_set (net_callbacks 0) 3 0 (demo_net, demo_sys) = Some (Inr (w', s'))"
  by (simp add: numeral_3_eq_3 run_simps demo_sys_def demo_net_def demo_hub_def demo_check_def initial_system_def
      net_received_def Link_messageReceived_def link_checkQueue_def setLinkSpeed_def Link_new_def trans_delay_def
      pcap_record_def post_def sendMessage_def allocateUUID_def net_finished_def Link_messageFinished_def
      expect_empty_response_def top_wakeup_def retire_def Wire_messageReceived_def Wire_new_def wire_destination_def
      NetworkSystem_new_def)

section \<open>Properties\<close>

text \<open>C1. Any run of a network that returns handles its messages in the order of (due time, UUID), each
  at most once, and never moves the clock backwards, provided that no due time and no UUID wraps
  around at 64 bits; it is a sequence of steps of the scheduler.\<close>

theorem events_in_order:
  assumes "run ord (net_callbacks n) fuel till (w, s) = Some (Inr (w', s'))" and "enumerates ord"
    and "scheduler_ready s"
  shows "\<exists>tr. sched_star (net_callbacks n) (w, s) tr (w', s') \<and>
    (trace_fits (currentTime s) tr \<and> unat (currentUUID s) + trace_sends tr < 2 ^ 64 \<longrightarrow>
       sorted_wrt (<) (handled_keys tr) \<and> currentTime s \<le> currentTime s')"
proof -
  from net.run_sched [OF assms(1,2)] assms(3) obtain tr where tr: "sched_star (net_callbacks n) (w, s) tr (w', s')"
    by (auto simp: scheduler_ready_def)
  with sched_star_sorted [OF tr, of "(0, 0)"] assms(3) show ?thesis
    by (auto simp: scheduler_ready_def)
qed

theorem events_in_order_witness:
  "\<exists>w' s' tr. run sorted_list_of_set (net_callbacks 0) 3 0 (demo_net, demo_sys) = Some (Inr (w', s')) \<and>
     sched_star (net_callbacks 0) (demo_net, demo_sys) tr (w', s')"
  using demo_run events_in_order [OF _ enumerates_sorted demo_ready] by blast

text \<open>C2. No message of a network is lost, and none is cancelled: a message that is queued when a run
  starts is handled at exactly its due time, or is still queued, unchanged, when the run ends
  because its due time lies beyond the limit of the run.\<close>

theorem messages_not_lost:
  assumes "run ord (net_callbacks n) fuel till (w, s) = Some (Inr (w', s'))" and "enumerates ord"
    and "scheduler_ready s" and "p \<in> set (timerQueue s)" and "containers s p = Some c"
  shows "\<exists>tr. sched_star (net_callbacks n) (w, s) tr (w', s') \<and>
    ((\<exists>ops. Handled (wakeup c) p (canceled c) ops \<in> set tr) \<or>
     till \<noteq> 0 \<and> till < wakeup c \<and> p \<in> set (timerQueue s') \<and> containers s' p = Some c)"
proof -
  from net.run_sched [OF assms(1,2)] assms(3) obtain tr where
    tr: "sched_star (net_callbacks n) (w, s) tr (w', s')" "trace_ok no_cancel tr"
    and stop: "timerQueue s' = [] \<or> till \<noteq> 0 \<and> top_wakeup s' > till"
    by (auto simp: scheduler_ready_def)
  have i: "sys_inv {} s" using assms(3) by (simp add: scheduler_ready_def)
  then have i': "sys_inv {} s'" using sched_star_inv [OF tr(1)] by simp
  from sched_star_fate [OF tr(1) _ tr(2)] i assms(4,5) consider
    ops where "Handled (wakeup c) p (canceled c) ops \<in> set tr"
    | "p \<in> set (timerQueue s')" "containers s' p = Some c" by auto
  then show ?thesis
  proof cases
    case 1
    with tr(1) show ?thesis by blast
  next
    case 2
    with stop top_wakeup_le [OF i' 2] have "till \<noteq> 0 \<and> till < wakeup c" by auto
    with 2 tr(1) show ?thesis by blast
  qed
qed

theorem messages_not_lost_witness:
  "\<exists>w' s' tr ops. sched_star (net_callbacks 0) (demo_net, demo_sys) tr (w', s') \<and>
     Handled 0 1 False ops \<in> set tr"
proof -
  have p: "1 \<in> set (timerQueue demo_sys)" "containers demo_sys 1 = Some demo_check"
    by (simp_all add: demo_sys_def)
  from demo_run obtain w' s' where
    run: "run sorted_list_of_set (net_callbacks 0) 3 0 (demo_net, demo_sys) = Some (Inr (w', s'))" by blast
  from messages_not_lost [OF run enumerates_sorted demo_ready p] show ?thesis
    by (auto simp: demo_check_def)
qed

text \<open>C3. Every hub and switch of a network stays consistent in every run, and no packet is left
  behind: a packet that is in an output queue when the run ends has a \<^verbatim>\<open>CHECK_QUEUE\<close> pending beyond
  the limit of the run; after a run without a limit all output queues are empty.\<close>

theorem no_packet_left_behind:
  assumes "run ord (net_callbacks n) fuel till (w, s) = Some (Inr (w', s'))" and "enumerates ord"
    and "scheduler_ready s" and "net_links w s"
  shows "net_links w' s' \<and>
    (\<forall>i l v. modules w' i = Some (HubM l) \<longrightarrow> outputQueue l v \<noteq> [] \<longrightarrow> check_beyond till i v s') \<and>
    (\<forall>i sw v. modules w' i = Some (SwitchM sw) \<longrightarrow> outputQueue sw v \<noteq> [] \<longrightarrow> check_beyond till i v s')"
proof -
  from net.run_sched [OF assms(1,2)] assms(3) obtain tr where
    tr: "sched_star (net_callbacks n) (w, s) tr (w', s')"
    and stop: "timerQueue s' = [] \<or> till \<noteq> 0 \<and> top_wakeup s' > till"
    by (auto simp: scheduler_ready_def)
  have i: "sys_inv {} s" using assms(3) by (simp add: scheduler_ready_def)
  then have i': "sys_inv {} s'" using sched_star_inv [OF tr] by simp
  have links: "net_links w' s'" using net_star_links [OF tr] i assms(4) by simp
  have late: "check_beyond till j v s'"
    if inv: "link_inv j l s'" and q: "outputQueue l v \<noteq> []" for j v and l :: "'a link_scheme"
  proof -
    from inv q obtain p c where p: "checks j v s' = {p}" "containers s' p = Some c"
      by (auto simp: link_inv_def link_port_ok_def dest!: spec [of _ v])
    then have "p \<in> set (timerQueue s')" by (auto simp: checks_def)
    with stop top_wakeup_le [OF i' this p(2)] p show ?thesis by (auto simp: check_beyond_def)
  qed
  show ?thesis
  proof (intro conjI allI impI)
    show "net_links w' s'" by (rule links)
  next
    fix i and l :: link and v
    assume "modules w' i = Some (HubM l)" "outputQueue l v \<noteq> []"
    with links late [of i l v] show "check_beyond till i v s'" by (simp add: net_links_def)
  next
    fix i and sw :: switch and v
    assume "modules w' i = Some (SwitchM sw)" "outputQueue sw v \<noteq> []"
    with links late [of i sw v] show "check_beyond till i v s'" by (simp add: net_links_def)
  qed
qed

theorem no_packet_left_behind_witness:
  "\<exists>w' s'. run sorted_list_of_set (net_callbacks 0) 3 0 (demo_net, demo_sys) = Some (Inr (w', s')) \<and>
     (\<forall>l. modules w' 2 = Some (HubM l) \<longrightarrow> outputQueue l 1 = [])"
proof -
  from demo_run obtain w' s' where
    run: "run sorted_list_of_set (net_callbacks 0) 3 0 (demo_net, demo_sys) = Some (Inr (w', s'))" by blast
  with no_packet_left_behind [OF run enumerates_sorted demo_ready demo_links] show ?thesis
    by (auto simp: check_beyond_def)
qed

end
