(* ===== verification/Runnable_Thread.thy ===== *)
theory Runnable_Thread
  imports Event_System
begin

text \<open>
  \<^verbatim>\<open>E::Runnable\<close> (\<^verbatim>\<open>src/E/E_System.cpp\<close>): an application runs on a thread of its own, and hands
  the processor back and forth with the scheduler through a mutex and one condition variable.
  The interleavings of the two threads are a step relation. A \<^verbatim>\<open>cond.wait(lock, pred)\<close> is a
  program point: with the lock, it goes on when \<^verbatim>\<open>pred\<close> holds and otherwise releases the lock
  and sleeps; a sleeper that has been notified takes the lock when it is free. Spurious
  wake-ups, which the C++ library allows, are steps too. The theorems are what the
  scheduler's own model relies on: the application runs only inside \<^verbatim>\<open>wake\<close>, \<^verbatim>\<open>wake\<close> never
  returns \<^verbatim>\<open>READY\<close>, and the handshake does not deadlock.
\<close>

section \<open>The two threads\<close>

datatype owner = Unlocked | Sched | Thread

text \<open>Program points of \<^verbatim>\<open>Runnable::run\<close> and \<^verbatim>\<open>Runnable::wait\<close>: before \<^verbatim>\<open>lock\<close>, at the three
  conditional waits, in \<^verbatim>\<open>main\<close>, before \<^verbatim>\<open>unlock\<close>, returned.\<close>

datatype thread_pc = TLock | TStarting | TReady | TMain | TWait | TUnlock | TDone

text \<open>The scheduler is outside the class, or at the conditional wait of \<^verbatim>\<open>start\<close> or \<^verbatim>\<open>wake\<close>.\<close>

datatype sched_pc = SIdle | SStart | SWake

record handshake =
  state :: runnable_state
  mutex :: owner
  tpc :: thread_pc
  spc :: sched_pc
  t_asleep :: bool
  t_notified :: bool
  s_asleep :: bool
  s_notified :: bool

text \<open>\<^verbatim>\<open>Runnable::Runnable\<close>: \<^verbatim>\<open>schedLock(stateMtx)\<close> takes the lock, the thread is launched.\<close>

definition Runnable_new :: handshake where
  "Runnable_new = \<lparr>state = CREATED, mutex = Sched, tpc = TLock, spc = SIdle,
     t_asleep = False, t_notified = False, s_asleep = False, s_notified = False\<rparr>"

definition sched_pred :: "handshake \<Rightarrow> bool" where
  "sched_pred h = (case spc h of SIdle \<Rightarrow> False | SStart \<Rightarrow> state h = READY | SWake \<Rightarrow> state h \<noteq> RUNNING)"

definition thread_pred :: "handshake \<Rightarrow> bool" where
  "thread_pred h =
     (case tpc h of TStarting \<Rightarrow> state h = STARTING | TReady \<Rightarrow> state h = RUNNING
      | TWait \<Rightarrow> state h = RUNNING | _ \<Rightarrow> False)"

definition notify_sched :: "handshake \<Rightarrow> handshake" where
  "notify_sched h = h\<lparr>s_notified := s_notified h \<or> s_asleep h\<rparr>"

definition notify_thread :: "handshake \<Rightarrow> handshake" where
  "notify_thread h = h\<lparr>t_notified := t_notified h \<or> t_asleep h\<rparr>"

text \<open>The calls of the scheduler, with their assertions.\<close>

definition start :: "handshake \<Rightarrow> handshake result" where
  "start h =
     bindE (assertE (mutex h = Sched)) (\<lambda>_.
     bindE (assertE (state h = CREATED)) (\<lambda>_.
       Inr (notify_thread (h\<lparr>state := STARTING, spc := SStart\<rparr>))))"

definition wake :: "handshake \<Rightarrow> handshake result" where
  "wake h =
     bindE (assertE (mutex h = Sched)) (\<lambda>_.
     bindE (assertE (state h = READY)) (\<lambda>_.
       Inr (notify_thread (h\<lparr>state := RUNNING, spc := SWake\<rparr>))))"

definition ready :: "handshake \<Rightarrow> handshake result" where
  "ready h =
     bindE (assertE (mutex h = Sched)) (\<lambda>_.
     bindE (assertE (state h = WAITING)) (\<lambda>_.
       Inr (h\<lparr>state := READY\<rparr>)))"

text \<open>\<^verbatim>\<open>Runnable::wait\<close>, called by the application.\<close>

definition wait_call :: "handshake \<Rightarrow> handshake result" where
  "wait_call h =
     bindE (assertE (mutex h = Thread)) (\<lambda>_.
     bindE (assertE (state h = RUNNING)) (\<lambda>_.
       Inr (notify_sched (h\<lparr>state := WAITING, tpc := TWait\<rparr>))))"

inductive hstep :: "handshake \<Rightarrow> handshake \<Rightarrow> bool" where
  call_start: "spc h = SIdle \<Longrightarrow> start h = Inr h' \<Longrightarrow> hstep h h'"
| call_wake: "spc h = SIdle \<Longrightarrow> wake h = Inr h' \<Longrightarrow> hstep h h'"
| call_ready: "spc h = SIdle \<Longrightarrow> ready h = Inr h' \<Longrightarrow> hstep h h'"
| sched_return: "spc h \<noteq> SIdle \<Longrightarrow> mutex h = Sched \<Longrightarrow> sched_pred h \<Longrightarrow> hstep h (h\<lparr>spc := SIdle\<rparr>)"
| sched_sleep: "spc h \<noteq> SIdle \<Longrightarrow> mutex h = Sched \<Longrightarrow> \<not> sched_pred h \<Longrightarrow>
    hstep h (h\<lparr>mutex := Unlocked, s_asleep := True, s_notified := False\<rparr>)"
| sched_awake: "s_asleep h \<Longrightarrow> s_notified h \<Longrightarrow> mutex h = Unlocked \<Longrightarrow>
    hstep h (h\<lparr>mutex := Sched, s_asleep := False\<rparr>)"
| thread_lock: "tpc h = TLock \<Longrightarrow> mutex h = Unlocked \<Longrightarrow> hstep h (h\<lparr>mutex := Thread, tpc := TStarting\<rparr>)"
| thread_started: "tpc h = TStarting \<Longrightarrow> mutex h = Thread \<Longrightarrow> thread_pred h \<Longrightarrow>
    hstep h (notify_sched (h\<lparr>state := READY, tpc := TReady\<rparr>))"
| thread_enter: "tpc h \<in> {TReady, TWait} \<Longrightarrow> mutex h = Thread \<Longrightarrow> thread_pred h \<Longrightarrow>
    hstep h (h\<lparr>tpc := TMain\<rparr>)"
| thread_sleep: "tpc h \<in> {TStarting, TReady, TWait} \<Longrightarrow> mutex h = Thread \<Longrightarrow> \<not> thread_pred h \<Longrightarrow>
    hstep h (h\<lparr>mutex := Unlocked, t_asleep := True, t_notified := False\<rparr>)"
| thread_awake: "t_asleep h \<Longrightarrow> t_notified h \<Longrightarrow> mutex h = Unlocked \<Longrightarrow>
    hstep h (h\<lparr>mutex := Thread, t_asleep := False\<rparr>)"
| thread_wait: "tpc h = TMain \<Longrightarrow> wait_call h = Inr h' \<Longrightarrow> hstep h h'"
| thread_finish: "tpc h = TMain \<Longrightarrow> mutex h = Thread \<Longrightarrow>
    hstep h (notify_sched (h\<lparr>state := TERMINATED, tpc := TUnlock\<rparr>))"
| thread_unlock: "tpc h = TUnlock \<Longrightarrow> mutex h = Thread \<Longrightarrow> hstep h (h\<lparr>mutex := Unlocked, tpc := TDone\<rparr>)"

inductive spurious :: "handshake \<Rightarrow> handshake \<Rightarrow> bool" where
  "s_asleep h \<Longrightarrow> mutex h = Unlocked \<Longrightarrow> spurious h (h\<lparr>mutex := Sched, s_asleep := False\<rparr>)"
| "t_asleep h \<Longrightarrow> mutex h = Unlocked \<Longrightarrow> spurious h (h\<lparr>mutex := Thread, t_asleep := False\<rparr>)"

inductive reach :: "handshake \<Rightarrow> bool" where
  init: "reach Runnable_new"
| step: "reach h \<Longrightarrow> hstep h h' \<Longrightarrow> reach h'"
| spur: "reach h \<Longrightarrow> spurious h h' \<Longrightarrow> reach h'"

section \<open>The invariant of the handshake\<close>

definition shape :: "handshake \<Rightarrow> bool" where
  "shape h =
     (case spc h of
        SIdle \<Rightarrow> (state h = CREATED \<and> tpc h = TLock) \<or> (state h = READY \<and> tpc h \<in> {TReady, TWait}) \<or>
                 (state h = WAITING \<and> tpc h = TWait) \<or> (state h = TERMINATED \<and> tpc h = TDone)
      | SStart \<Rightarrow> (state h = STARTING \<and> tpc h \<in> {TLock, TStarting}) \<or> (state h = READY \<and> tpc h = TReady)
      | SWake \<Rightarrow> (state h = RUNNING \<and> tpc h \<in> {TReady, TWait, TMain}) \<or> (state h = WAITING \<and> tpc h = TWait) \<or>
                 (state h = TERMINATED \<and> tpc h \<in> {TUnlock, TDone}))"

definition handshake_inv :: "handshake \<Rightarrow> bool" where
  "handshake_inv h \<longleftrightarrow> shape h \<and>
     (mutex h = Sched \<longleftrightarrow> \<not> s_asleep h) \<and>
     (mutex h = Thread \<longleftrightarrow> \<not> t_asleep h \<and> tpc h \<notin> {TLock, TDone}) \<and>
     (spc h = SIdle \<longrightarrow> \<not> s_asleep h) \<and>
     (t_asleep h \<longrightarrow> tpc h \<in> {TStarting, TReady, TWait}) \<and>
     (s_asleep h \<and> sched_pred h \<longrightarrow> s_notified h) \<and>
     (t_asleep h \<and> thread_pred h \<longrightarrow> t_notified h)"

lemmas handshake_defs = handshake_inv_def shape_def sched_pred_def thread_pred_def
  notify_sched_def notify_thread_def start_def wake_def ready_def wait_call_def

lemma Runnable_new_inv: "handshake_inv Runnable_new"
  by (simp add: handshake_defs Runnable_new_def)

lemma hstep_inv: "hstep h h' \<Longrightarrow> handshake_inv h \<Longrightarrow> handshake_inv h'"
  by (induction rule: hstep.induct)
    (auto simp: handshake_defs result_simps split: sched_pc.splits thread_pc.splits)

lemma spurious_inv: "spurious h h' \<Longrightarrow> handshake_inv h \<Longrightarrow> handshake_inv h'"
  by (induction rule: spurious.induct)
    (auto simp: handshake_defs split: sched_pc.splits thread_pc.splits)

lemma reach_inv: "reach h \<Longrightarrow> handshake_inv h"
  by (induction rule: reach.induct) (auto intro: Runnable_new_inv hstep_inv spurious_inv)

text \<open>A run of the handshake up to the first \<^verbatim>\<open>wait\<close> of the application.\<close>

definition demo_run :: "handshake list" where
  "demo_run = [Runnable_new,
     \<lparr>state = STARTING, mutex = Sched, tpc = TLock, spc = SStart, t_asleep = False, t_notified = False, s_asleep = False, s_notified = False\<rparr>,
     \<lparr>state = STARTING, mutex = Unlocked, tpc = TLock, spc = SStart, t_asleep = False, t_notified = False, s_asleep = True, s_notified = False\<rparr>,
     \<lparr>state = STARTING, mutex = Thread, tpc = TStarting, spc = SStart, t_asleep = False, t_notified = False, s_asleep = True, s_notified = False\<rparr>,
     \<lparr>state = READY, mutex = Thread, tpc = TReady, spc = SStart, t_asleep = False, t_notified = False, s_asleep = True, s_notified = True\<rparr>,
     \<lparr>state = READY, mutex = Unlocked, tpc = TReady, spc = SStart, t_asleep = True, t_notified = False, s_asleep = True, s_notified = True\<rparr>,
     \<lparr>state = READY, mutex = Sched, tpc = TReady, spc = SStart, t_asleep = True, t_notified = False, s_asleep = False, s_notified = True\<rparr>,
     \<lparr>state = READY, mutex = Sched, tpc = TReady, spc = SIdle, t_asleep = True, t_notified = False, s_asleep = False, s_notified = True\<rparr>,
     \<lparr>state = RUNNING, mutex = Sched, tpc = TReady, spc = SWake, t_asleep = True, t_notified = True, s_asleep = False, s_notified = True\<rparr>,
     \<lparr>state = RUNNING, mutex = Unlocked, tpc = TReady, spc = SWake, t_asleep = True, t_notified = True, s_asleep = True, s_notified = False\<rparr>,
     \<lparr>state = RUNNING, mutex = Thread, tpc = TReady, spc = SWake, t_asleep = False, t_notified = True, s_asleep = True, s_notified = False\<rparr>,
     \<lparr>state = RUNNING, mutex = Thread, tpc = TMain, spc = SWake, t_asleep = False, t_notified = True, s_asleep = True, s_notified = False\<rparr>,
     \<lparr>state = WAITING, mutex = Thread, tpc = TWait, spc = SWake, t_asleep = False, t_notified = True, s_asleep = True, s_notified = True\<rparr>,
     \<lparr>state = WAITING, mutex = Unlocked, tpc = TWait, spc = SWake, t_asleep = True, t_notified = False, s_asleep = True, s_notified = True\<rparr>,
     \<lparr>state = WAITING, mutex = Sched, tpc = TWait, spc = SWake, t_asleep = True, t_notified = False, s_asleep = False, s_notified = True\<rparr>]"

lemma demo_run_steps: "list_all2 hstep (butlast demo_run) (tl demo_run)"
  unfolding demo_run_def Runnable_new_def
  by (simp, intro conjI)
    (simp_all add: hstep.simps handshake_defs)

lemma reach_path: "list_all2 hstep (butlast hs) (tl hs) \<Longrightarrow> reach (hd hs) \<Longrightarrow> hs \<noteq> [] \<Longrightarrow> list_all reach hs"
proof (induction hs)
  case (Cons h hs)
  show ?case
  proof (cases hs)
    case (Cons h' hs')
    with Cons.prems have "hstep h h'" "list_all2 hstep (butlast hs) (tl hs)" by auto
    moreover from this Cons.prems have "reach h'" by (auto intro: reach.step)
    ultimately show ?thesis using Cons.IH Cons Cons.prems by simp
  qed (use Cons.prems in simp)
qed simp

lemma demo_run_reach: "list_all reach demo_run"
  by (rule reach_path [OF demo_run_steps]) (simp_all add: demo_run_def reach.init)

section \<open>Properties\<close>

text \<open>C28. Application code runs only while the scheduler is blocked inside \<^verbatim>\<open>wake\<close>, asleep without
  the lock, and the state is \<^verbatim>\<open>RUNNING\<close>: the two threads never run at the same time, so the
  assertions of \<^verbatim>\<open>wait\<close> hold whenever the application calls it.\<close>

theorem application_runs_alone:
  assumes "reach h" and "tpc h = TMain"
  shows "spc h = SWake \<and> s_asleep h \<and> mutex h = Thread \<and> state h = RUNNING \<and>
    (\<exists>h'. wait_call h = Inr h')"
  using reach_inv [OF assms(1)] assms(2)
  by (auto simp: handshake_defs split: sched_pc.splits)

definition demo_main :: handshake where
  "demo_main = \<lparr>state = RUNNING, mutex = Thread, tpc = TMain, spc = SWake, t_asleep = False, t_notified = True, s_asleep = True, s_notified = False\<rparr>"

theorem application_runs_alone_witness: "reach demo_main \<and> mutex demo_main = Thread"
proof -
  have "reach demo_main" using demo_run_reach by (simp add: demo_run_def demo_main_def)
  moreover have "tpc demo_main = TMain" by (simp add: demo_main_def)
  ultimately show ?thesis using application_runs_alone by blast
qed

text \<open>\<^verbatim>\<open>start\<close> returns with the application \<^verbatim>\<open>READY\<close>; \<^verbatim>\<open>wake\<close> returns \<^verbatim>\<open>WAITING\<close> or
  \<^verbatim>\<open>TERMINATED\<close>, never \<^verbatim>\<open>READY\<close>; and when it has returned \<^verbatim>\<open>TERMINATED\<close>, the thread has left its
  last statement, so that the join of the destructor does not block.\<close>

theorem wake_never_returns_ready:
  assumes "reach h" and "hstep h h'" and "spc h \<noteq> SIdle" and "spc h' = SIdle"
  shows "(spc h = SStart \<longrightarrow> state h' = READY) \<and> (spc h = SWake \<longrightarrow> state h' \<in> {WAITING, TERMINATED}) \<and>
    (state h' = TERMINATED \<longrightarrow> tpc h' = TDone)"
  using assms(2,3,4) reach_inv [OF assms(1)]
  by (cases rule: hstep.cases) (auto simp: handshake_defs split: sched_pc.splits)

definition demo_returning :: handshake where
  "demo_returning = \<lparr>state = WAITING, mutex = Sched, tpc = TWait, spc = SWake, t_asleep = True, t_notified = False, s_asleep = False, s_notified = True\<rparr>"

theorem wake_never_returns_ready_witness:
  "reach demo_returning \<and> hstep demo_returning (demo_returning\<lparr>spc := SIdle\<rparr>) \<and>
   state (demo_returning\<lparr>spc := SIdle\<rparr>) \<in> {WAITING, TERMINATED}"
proof -
  have r: "reach demo_returning" using demo_run_reach by (simp add: demo_run_def demo_returning_def)
  have s: "hstep demo_returning (demo_returning\<lparr>spc := SIdle\<rparr>)"
    by (rule hstep.sched_return) (simp_all add: demo_returning_def sched_pred_def)
  have "spc demo_returning = SWake" "spc (demo_returning\<lparr>spc := SIdle\<rparr>) = SIdle"
    by (simp_all add: demo_returning_def)
  with wake_never_returns_ready [OF r s] r s show ?thesis by simp
qed

text \<open>C32. The handshake does not deadlock: while the scheduler is inside \<^verbatim>\<open>start\<close> or \<^verbatim>\<open>wake\<close>, one of
  the two threads can take a step, without relying on a spurious wake-up. In particular no
  notification is lost.\<close>

theorem handshake_progress:
  assumes "reach h" and "spc h \<noteq> SIdle"
  shows "\<exists>h'. hstep h h'"
proof -
  note inv = reach_inv [OF assms(1)]
  show ?thesis
  proof (cases "mutex h")
    case Sched
    with assms(2) show ?thesis by (cases "sched_pred h") (blast intro: hstep.sched_return hstep.sched_sleep)+
  next
    case Thread
    with inv have "tpc h \<in> {TStarting, TReady, TWait, TMain, TUnlock}" by (cases "tpc h") (auto simp: handshake_inv_def)
    with Thread show ?thesis
      by (cases "thread_pred h")
        (auto intro: hstep.thread_started hstep.thread_enter hstep.thread_sleep hstep.thread_finish hstep.thread_unlock)
  next
    case Unlocked
    with inv have "s_asleep h" by (simp add: handshake_inv_def)
    show ?thesis
    proof (cases "s_notified h")
      case True
      with Unlocked \<open>s_asleep h\<close> show ?thesis by (blast intro: hstep.sched_awake)
    next
      case False
      with inv \<open>s_asleep h\<close> Unlocked assms(2) have "tpc h = TLock \<or> t_asleep h \<and> t_notified h"
        by (auto simp: handshake_defs split: sched_pc.splits)
      with Unlocked show ?thesis by (blast intro: hstep.thread_lock hstep.thread_awake)
    qed
  qed
qed

theorem handshake_progress_witness: "reach demo_main \<and> (\<exists>h'. hstep demo_main h')"
proof -
  have r: "reach demo_main" using demo_run_reach by (simp add: demo_run_def demo_main_def)
  have "spc demo_main \<noteq> SIdle" by (simp add: demo_main_def)
  with r handshake_progress show ?thesis by blast
qed

end
