(* ===== verification/Topology.thy ===== *)
theory Topology
  imports Network_World
begin

text \<open>
  The networks the tests of the repository build (\<^verbatim>\<open>app/kens/testenv.hpp\<close>), as programs over
  the operations of the simulator: hosts, one switch, wires, addresses, routes and protocol
  modules. The reference TCP implementation is only declared in the repository
  (\<^verbatim>\<open>E_TCPSolution.hpp\<close>), so what it installs on a host is a parameter. The engines of the switch
  are parameters too: the tests seed them from \<^verbatim>\<open>rand()\<close>.
\<close>

section \<open>Operations on the modules of a network\<close>

definition with_host :: "ModuleID \<Rightarrow> (host \<Rightarrow> host result) \<Rightarrow> world \<times> net \<Rightarrow> (world \<times> net) result" where
  "with_host i f st =
     (case st of (w, s) \<Rightarrow>
       (case modules w i of
          Some (HostM h) \<Rightarrow> bindE (f h) (\<lambda>h'. Inr (w\<lparr>modules := (modules w)(i \<mapsto> HostM h')\<rparr>, s))
        | _ \<Rightarrow> Inl NullDeref))"

definition with_switch :: "ModuleID \<Rightarrow> (switch \<Rightarrow> switch result) \<Rightarrow> world \<times> net \<Rightarrow> (world \<times> net) result" where
  "with_switch i f st =
     (case st of (w, s) \<Rightarrow>
       (case modules w i of
          Some (SwitchM sw) \<Rightarrow> bindE (f sw) (\<lambda>sw'. Inr (w\<lparr>modules := (modules w)(i \<mapsto> SwitchM sw')\<rparr>, s))
        | _ \<Rightarrow> Inl NullDeref))"

definition on_routing :: "(routing_info \<Rightarrow> routing_info) \<Rightarrow> host \<Rightarrow> host result" where
  "on_routing f h = Inr (h\<lparr>routing := f (routing h)\<rparr>)"

abbreviation setMAC :: "ModuleID \<Rightarrow> mac_t \<Rightarrow> int \<Rightarrow> world \<times> net \<Rightarrow> (world \<times> net) result" where
  "setMAC i mac port \<equiv> with_host i (on_routing (setMACAddr mac port))"

abbreviation setIP :: "ModuleID \<Rightarrow> ipv4_t \<Rightarrow> int \<Rightarrow> world \<times> net \<Rightarrow> (world \<times> net) result" where
  "setIP i ip port \<equiv> with_host i (on_routing (setIPAddr ip port))"

abbreviation setARP :: "ModuleID \<Rightarrow> mac_t \<Rightarrow> ipv4_t \<Rightarrow> world \<times> net \<Rightarrow> (world \<times> net) result" where
  "setARP i mac ip \<equiv> with_host i (on_routing (setARPTable mac ip))"

abbreviation setRoute :: "ModuleID \<Rightarrow> ipv4_t \<Rightarrow> int \<Rightarrow> int \<Rightarrow> world \<times> net \<Rightarrow> (world \<times> net) result" where
  "setRoute i net_mask len port \<equiv> with_host i (on_routing (setRoutingTable net_mask len port))"

text \<open>\<^verbatim>\<open>initializeHostModule\<close> and \<^verbatim>\<open>finalizeHostModule\<close>: a missing module is a null pointer; the
  modules of the repository do nothing in either.\<close>

definition initializeHostModule :: "string \<Rightarrow> host \<Rightarrow> host result" where
  "initializeHostModule name h = (if hostModuleMap h name = None then Inl NullDeref else Inr h)"

definition TCPAssignmentProvider_allocate :: "host \<Rightarrow> host result" where
  "TCPAssignmentProvider_allocate h = addHostModule TCPAssignmentC h"

text \<open>\<^verbatim>\<open>addModule<Host>\<close> and \<^verbatim>\<open>addModule<Switch>\<close>.\<close>

definition addHost :: "world \<times> net \<Rightarrow> (ModuleID \<times> world \<times> net) result" where
  "addHost st = bindE Host_new (\<lambda>h. net_addModule (HostM h) st)"

definition addSwitch :: "engine \<Rightarrow> engine \<Rightarrow> bool \<Rightarrow> world \<times> net \<Rightarrow> (ModuleID \<times> world \<times> net) result" where
  "addSwitch g g' unrel st = net_addModule (SwitchM (Switch_new g g' unrel)) st"

abbreviation perform :: "('s \<Rightarrow> 's result) list \<Rightarrow> 's \<Rightarrow> 's result" where
  "perform \<equiv> foldE (\<lambda>f. f)"

section \<open>Two hosts with two wires each to one switch\<close>

definition mac1 :: mac_t where "mac1 = [0xBC, 0xBC, 0xBC, 0xBC, 0xBC, 0xBC]"
definition mac1_2 :: mac_t where "mac1_2 = [0xCB, 0xCB, 0xCB, 0xCB, 0xCB, 0xCB]"
definition mac2 :: mac_t where "mac2 = [0xCD, 0xCD, 0xCD, 0xCD, 0xCD, 0xCD]"
definition mac2_2 :: mac_t where "mac2_2 = [0xDC, 0xDC, 0xDC, 0xDC, 0xDC, 0xDC]"
definition ip1 :: ipv4_t where "ip1 = [192, 168, 0, 7]"
definition ip1_2 :: ipv4_t where "ip1_2 = [192, 168, 0, 8]"
definition ip2 :: ipv4_t where "ip2 = [10, 0, 1, 4]"
definition ip2_2 :: ipv4_t where "ip2_2 = [10, 0, 1, 5]"

record two_hosts =
  host1 :: ModuleID
  host2 :: ModuleID
  switchingHub :: ModuleID

text \<open>The modules and the four wires; the result holds the pairs of port numbers.\<close>

definition env_modules ::
  "engine \<Rightarrow> engine \<Rightarrow> bool \<Rightarrow> world \<times> net \<Rightarrow> (two_hosts \<times> (int \<times> int) list \<times> world \<times> net) result" where
  "env_modules g g' unrel st =
     bindE (addHost st) (\<lambda>(h1, st).
     bindE (addHost st) (\<lambda>(h2, st).
     bindE (addSwitch g g' unrel st) (\<lambda>(sw, st).
     bindE (addWire h1 sw (makeTime 1 MSEC) 1000000000 True st) (\<lambda>(_, a1, b1, st).
     bindE (addWire h1 sw (makeTime 1 MSEC) 1000000000 True st) (\<lambda>(_, a2, b2, st).
     bindE (addWire h2 sw (makeTime 1 MSEC) 1000000000 True st) (\<lambda>(_, a3, b3, st).
     bindE (addWire h2 sw (makeTime 1 MSEC) 1000000000 True st) (\<lambda>(_, a4, b4, st).
       Inr (\<lparr>host1 = h1, host2 = h2, switchingHub = sw\<rparr>, [(a1, b1), (a2, b2), (a3, b3), (a4, b4)], st))))))))"

definition env_addresses :: "two_hosts \<Rightarrow> (int \<times> int) list \<Rightarrow> (world \<times> net \<Rightarrow> (world \<times> net) result) list" where
  "env_addresses e ports =
     (let host1_port_1 = fst (ports ! 0); host1_port_2 = fst (ports ! 1);
          host2_port_1 = fst (ports ! 2); host2_port_2 = fst (ports ! 3)
      in [setMAC (host1 e) mac1 host1_port_1, setMAC (host1 e) mac1_2 host1_port_2,
          setARP (host1 e) mac2 ip2, setARP (host1 e) mac2_2 ip2_2,
          setIP (host1 e) ip1 host1_port_1, setIP (host1 e) ip1_2 host1_port_2,
          setRoute (host1 e) ip2 16 host1_port_1, setRoute (host1 e) ip2_2 16 host1_port_2,
          setMAC (host2 e) mac2 host2_port_1, setMAC (host2 e) mac2_2 host2_port_2,
          setARP (host2 e) mac1 ip1, setARP (host2 e) mac1_2 ip1_2,
          setIP (host2 e) ip2 host2_port_1, setIP (host2 e) ip2_2 host2_port_2,
          setRoute (host2 e) ip1 16 host2_port_1, setRoute (host2 e) ip1_2 16 host2_port_2])"

definition env_switch :: "two_hosts \<Rightarrow> (int \<times> int) list \<Rightarrow> (world \<times> net \<Rightarrow> (world \<times> net) result) list" where
  "env_switch e ports =
     [with_switch (switchingHub e) (addMACEntry (snd (ports ! 0)) mac1),
      with_switch (switchingHub e) (addMACEntry (snd (ports ! 1)) mac1_2),
      with_switch (switchingHub e) (addMACEntry (snd (ports ! 2)) mac2),
      with_switch (switchingHub e) (addMACEntry (snd (ports ! 3)) mac2_2),
      with_switch (switchingHub e) (\<lambda>sw. Inr (enablePCAPLogging 65535 sw))]"

text \<open>The protocol stacks: Ethernet, IPv4, and the two TCP modules.\<close>

definition env_stacks ::
  "(host \<Rightarrow> host result) \<Rightarrow> (host \<Rightarrow> host result) \<Rightarrow> two_hosts \<Rightarrow> (world \<times> net \<Rightarrow> (world \<times> net) result) list" where
  "env_stacks target solution e =
     [with_host (host1 e) (addHostModule EthernetC), with_host (host2 e) (addHostModule EthernetC),
      with_host (host1 e) (addHostModule IPv4C), with_host (host2 e) (addHostModule IPv4C),
      with_host (host1 e) target, with_host (host2 e) solution,
      with_host (host1 e) (initializeHostModule ''TCP''), with_host (host2 e) (initializeHostModule ''TCP'')]"

definition TestEnv1_SetUp ::
  "engine \<Rightarrow> engine \<Rightarrow> (host \<Rightarrow> host result) \<Rightarrow> (host \<Rightarrow> host result) \<Rightarrow> world \<times> net \<Rightarrow> (two_hosts \<times> world \<times> net) result" where
  "TestEnv1_SetUp g g' target solution st =
     bindE (env_modules g g' False st) (\<lambda>(e, ports, st).
     bindE (perform (env_addresses e ports @ env_switch e ports @ env_stacks target solution e) st) (\<lambda>st.
       Inr (e, st)))"

definition TestEnv2_SetUp ::
  "bool \<Rightarrow> engine \<Rightarrow> engine \<Rightarrow> (host \<Rightarrow> host result) \<Rightarrow> (host \<Rightarrow> host result) \<Rightarrow> world \<times> net \<Rightarrow> (two_hosts \<times> world \<times> net) result" where
  "TestEnv2_SetUp unrel g g' target adversary st =
     bindE (env_modules g g' unrel st) (\<lambda>(e, ports, st).
     bindE (perform (env_addresses e ports @ [with_switch (switchingHub e) (\<lambda>sw. Inr (setQueueSize 16 sw))] @
              env_switch e ports @ env_stacks target adversary e) st) (\<lambda>st.
       Inr (e, st)))"

section \<open>One server and several clients at one switch\<close>

definition port_speed :: Size where "port_speed = 10000000"
definition env3_delay :: Time where "env3_delay = makeTime 10 MSEC"
definition server_mac :: mac_t where "server_mac = [0xBC, 0xBC, 0xBC, 0xBC, 0xBC, 0xBC]"
definition server_ip :: ipv4_t where "server_ip = [192, 168, 1, 7]"
definition server_mask :: ipv4_t where "server_mask = [192, 168, 1, 0]"
definition client_mask :: ipv4_t where "client_mask = [10, 0, 1, 0]"
definition client_ip :: "nat \<Rightarrow> ipv4_t" where "client_ip k = [10, 0, 1, 10 + of_nat k]"
definition client_mac :: "nat \<Rightarrow> mac_t" where "client_mac k = [0xEE, 0xEE, 0xEE, 0xEE, 0xEE, of_nat k]"

record star =
  server_host :: ModuleID
  star_switch :: ModuleID
  client_hosts :: "ModuleID list"

definition env3_server ::
  "engine \<Rightarrow> engine \<Rightarrow> (host \<Rightarrow> host result) \<Rightarrow> world \<times> net \<Rightarrow> (star \<times> world \<times> net) result" where
  "env3_server g g' adversary st =
     bindE (addHost st) (\<lambda>(sv, st).
     bindE (addSwitch g g' False st) (\<lambda>(sw, st).
     bindE (addWire sv sw env3_delay port_speed True st) (\<lambda>(_, host_port, switch_port, st).
     bindE (perform
       [with_host sv (addHostModule EthernetC), with_host sv (addHostModule IPv4C),
        setMAC sv server_mac host_port, setIP sv server_ip host_port,
        setRoute sv client_mask 24 host_port,
        with_host sv adversary, with_host sv (initializeHostModule ''TCP''),
        with_switch sw (addMACEntry switch_port server_mac)] st) (\<lambda>st.
       Inr (\<lparr>server_host = sv, star_switch = sw, client_hosts = []\<rparr>, st)))))"

definition env3_client ::
  "(host \<Rightarrow> host result) \<Rightarrow> nat \<Rightarrow> star \<times> world \<times> net \<Rightarrow> (star \<times> world \<times> net) result" where
  "env3_client target k st =
     (case st of (e, st) \<Rightarrow>
       let sv = server_host e; sw = star_switch e in
       bindE (addHost st) (\<lambda>(c, st).
       bindE (addWire c sw env3_delay port_speed True st) (\<lambda>(_, host_port, switch_port, st).
       bindE (perform
         [with_host c (addHostModule EthernetC), with_host c (addHostModule IPv4C),
          with_host c target, with_host c (initializeHostModule ''TCP''),
          setMAC c (client_mac k) host_port, setIP c (client_ip k) host_port,
          setRoute c server_mask 24 host_port, setARP c server_mac server_ip,
          setARP sv (client_mac k) (client_ip k),
          with_switch sw (addMACEntry switch_port (client_mac k))] st) (\<lambda>st.
         Inr (e\<lparr>client_hosts := client_hosts e @ [c]\<rparr>, st)))))"

definition TestEnv3_SetUp ::
  "nat \<Rightarrow> engine \<Rightarrow> engine \<Rightarrow> (host \<Rightarrow> host result) \<Rightarrow> (host \<Rightarrow> host result) \<Rightarrow> world \<times> net \<Rightarrow> (star \<times> world \<times> net) result" where
  "TestEnv3_SetUp num_client g g' target adversary st =
     bindE (env3_server g g' adversary st) (\<lambda>st.
     bindE (foldE (env3_client target) [0..<num_client] st) (\<lambda>(e, st).
     bindE (perform [with_switch (star_switch e) (\<lambda>sw. Inr (setLinkSpeed port_speed sw)),
                     with_switch (star_switch e) (\<lambda>sw. Inr (setQueueSize 64 sw)),
                     with_switch (star_switch e) (\<lambda>sw. Inr (enablePCAPLogging 64 sw))] st) (\<lambda>st.
       Inr (e, st))))"

section \<open>Where a datagram goes\<close>

text \<open>The module at the other end of a wire.\<close>

definition other_end :: "ModuleID \<Rightarrow> ModuleID \<Rightarrow> world \<Rightarrow> ModuleID option" where
  "other_end self wireID w =
     (case modules w wireID of
        Some (WireM x) \<Rightarrow> map_option ((!) (connected x)) (wire_destination self x)
      | _ \<Rightarrow> None)"

text \<open>The address pair that \<^verbatim>\<open>Ethernet\<close> of host \<open>i\<close> writes for a destination, the wire it leaves by,
  and the modules that the switch at the other end forwards it to.\<close>

definition frame_for :: "ModuleID \<Rightarrow> ipv4_t \<Rightarrow> world \<Rightarrow> (mac_t \<times> mac_t \<times> ModuleID) option" where
  "frame_for i ip w =
     (case modules w i of
        Some (HostM h) \<Rightarrow>
          (case getRoutingTable (routing h) ip of
             Inr port \<Rightarrow>
               (case (getMACAddr (routing h) port, getARPTable (routing h) ip) of
                  (Some src, Some dst) \<Rightarrow>
                    if 0 \<le> port \<and> nat port < length (h_ports h) then Some (src, dst, h_ports h ! nat port) else None
                | _ \<Rightarrow> None)
           | _ \<Rightarrow> None)
      | _ \<Rightarrow> None)"

definition receivers :: "ModuleID \<Rightarrow> ipv4_t \<Rightarrow> world \<Rightarrow> ModuleID option list" where
  "receivers i ip w =
     (case frame_for i ip w of
        None \<Rightarrow> []
      | Some (src, dst, wireID) \<Rightarrow>
          (case other_end i wireID w of
             None \<Rightarrow> []
           | Some m \<Rightarrow>
               (case modules w m of
                  Some (SwitchM sw) \<Rightarrow> map (\<lambda>v. other_end m v w) (switch_targets sw wireID dst)
                | _ \<Rightarrow> [])))"

section \<open>Evaluation of the set-up\<close>

lemmas build_simps = addHost_def Host_new_def addHostModule_def insert_new_def net_addModule_def
  addModule_def NetworkSystem_new_def initial_system_def Let_def addSwitch_def addWire_def net_connectWire_def
  host_connectWire_def link_connectWire_def

text \<open>A host, and the network of two hosts, as the first part of the set-up leaves them.\<close>

definition bare_host :: "ModuleID list \<Rightarrow> host" where
  "bare_host ws = \<lparr>pidStart = 0, syscallIDStart = 0, running = True, h_ports = ws, interfaceMap = [(0, 0) \<mapsto> DefaultIface],
     hostModuleMap = Map.empty, timerModuleMap = [''DefaultSyscall'' \<mapsto> DefaultTimer], processInfoMap = Map.empty,
     syscallMap = Map.empty, routing = empty_routing\<rparr>"

lemma with_host_at:
  "modules w i = Some (HostM h) \<Longrightarrow>
   with_host i f (w, s) = bindE (f h) (\<lambda>h'. Inr (w\<lparr>modules := (modules w)(i \<mapsto> HostM h')\<rparr>, s))"
  by (simp add: with_host_def)

lemma with_switch_at:
  "modules w i = Some (SwitchM x) \<Longrightarrow>
   with_switch i f (w, s) = bindE (f x) (\<lambda>x'. Inr (w\<lparr>modules := (modules w)(i \<mapsto> SwitchM x')\<rparr>, s))"
  by (simp add: with_switch_def)

lemma addWire_at:
  assumes "modules w h = Some (HostM hh)" and "modules w sw = Some (SwitchM x)"
    and "next_module_id w \<notin> registeredModule s" and "modules w (next_module_id w) = None"
  shows "addWire h sw pd bps lmt (w, s) =
    Inr (next_module_id w, int (length (h_ports hh)), int (length (l_ports x)),
      w\<lparr>modules := (modules w)(next_module_id w \<mapsto> WireM (Wire_new h sw pd bps lmt s),
           h \<mapsto> HostM (hh\<lparr>h_ports := h_ports hh @ [next_module_id w]\<rparr>),
           sw \<mapsto> SwitchM (x\<lparr>l_ports := l_ports x @ [next_module_id w]\<rparr>)),
         next_module_id := next_module_id w + 1\<rparr>,
      s\<lparr>registeredModule := insert (next_module_id w) (registeredModule s)\<rparr>)"
proof -
  have "next_module_id w \<noteq> h" "next_module_id w \<noteq> sw" "h \<noteq> sw" using assms by auto
  then show ?thesis
    using assms by (simp add: addWire_def net_addModule_def addModule_def net_connectWire_def host_connectWire_def
        link_connectWire_def Let_def fun_upd_twist)
qed

lemma Switch_new_simps [simp]:
  "l_ports (Switch_new g g' unrel) = []" "mac_table (Switch_new g g' unrel) = Map.empty"
  by (simp_all add: Switch_new_def Link_new_def link.defs)

text \<open>A module put in place of another.\<close>

definition put_mod :: "ModuleID \<Rightarrow> modul \<Rightarrow> world \<Rightarrow> world" where
  "put_mod i m w = w\<lparr>modules := (modules w)(i \<mapsto> m)\<rparr>"

lemma put_mod_simps [simp]:
  "modules (put_mod i m w) v = (if v = i then Some m else modules w v)" "next_module_id (put_mod i m w) = next_module_id w"
  "put_mod i m (put_mod i m' w) = put_mod i m w"
  by (simp_all add: put_mod_def)

lemma with_host_put:
  "modules w i = Some (HostM h) \<Longrightarrow> f h = Inr h' \<Longrightarrow> with_host i f (w, s) = Inr (put_mod i (HostM h') w, s)"
  by (simp add: with_host_def put_mod_def)

lemma with_switch_put:
  "modules w i = Some (SwitchM x) \<Longrightarrow> f x = Inr x' \<Longrightarrow> with_switch i f (w, s) = Inr (put_mod i (SwitchM x') w, s)"
  by (simp add: with_switch_def put_mod_def)

lemma put_mod_same: "modules w i = Some m \<Longrightarrow> put_mod i m w = w"
  by (simp add: put_mod_def fun_upd_idem)

lemma with_host_map:
  assumes "modules w i = Some (HostM h)"
  shows "perform (map (\<lambda>p. with_host i (on_routing (F p))) ps) (w, s) =
    Inr (put_mod i (HostM (h\<lparr>routing := fold F ps (routing h)\<rparr>)) w, s)"
  using assms
proof (induction ps arbitrary: w h)
  case Nil
  then show ?case by (simp add: put_mod_same)
next
  case (Cons p ps)
  have step: "with_host i (on_routing (F p)) (w, s) = Inr (put_mod i (HostM (h\<lparr>routing := F p (routing h)\<rparr>)) w, s)"
    using Cons.prems by (rule with_host_put) (simp add: on_routing_def)
  have at: "modules (put_mod i (HostM (h\<lparr>routing := F p (routing h)\<rparr>)) w) i = Some (HostM (h\<lparr>routing := F p (routing h)\<rparr>))" by simp
  show ?case using Cons.IH [OF at] by (simp add: step)
qed

lemma Wire_new_registered [simp]: "Wire_new a b c d e (s\<lparr>registeredModule := R\<rparr>) = Wire_new a b c d e s"
  by (simp add: Wire_new_def getCurrentTime_def)

lemma Host_new_bare: "Host_new = Inr (bare_host [])"
  by (simp add: Host_new_def addHostModule_def insert_new_def bare_host_def)

definition env_world :: "host \<Rightarrow> host \<Rightarrow> switch \<Rightarrow> world" where
  "env_world h1 h2 sw = \<lparr>modules =
     [1 \<mapsto> HostM h1, 2 \<mapsto> HostM h2, 3 \<mapsto> SwitchM sw,
      4 \<mapsto> WireM (Wire_new 1 3 (makeTime 1 MSEC) 1000000000 True (snd NetworkSystem_new)),
      5 \<mapsto> WireM (Wire_new 1 3 (makeTime 1 MSEC) 1000000000 True (snd NetworkSystem_new)),
      6 \<mapsto> WireM (Wire_new 2 3 (makeTime 1 MSEC) 1000000000 True (snd NetworkSystem_new)),
      7 \<mapsto> WireM (Wire_new 2 3 (makeTime 1 MSEC) 1000000000 True (snd NetworkSystem_new))],
     w_env = \<lparr>apps = Map.empty, mem = Map.empty\<rparr>, w_ids = initial_ids, next_module_id = 8\<rparr>"

definition env_sys :: net where
  "env_sys = initial_system\<lparr>registeredModule := {1, 2, 3, 4, 5, 6, 7}\<rparr>"

lemma Switch_new_ports [simp]: "l_ports (Switch_new g g' b) = []"  "mac_table (Switch_new g g' b) = Map.empty"
  by (simp_all add: Switch_new_def link.extend_def Link_new_def)

lemma env_modules_eq:
  "env_modules g g' b NetworkSystem_new =
     Inr (\<lparr>host1 = 1, host2 = 2, switchingHub = 3\<rparr>, [(0, 0), (1, 1), (0, 2), (1, 3)],
       env_world (bare_host [4, 5]) (bare_host [6, 7]) (Switch_new g g' b\<lparr>l_ports := [4, 5, 6, 7]\<rparr>), env_sys)"
  by (simp add: env_modules_def build_simps env_world_def env_sys_def bare_host_def Wire_new_def getCurrentTime_def insert_commute fun_upd_twist)

lemma with_host_env [simp]:
  "with_host 1 f (env_world h1 h2 sw, s) = bindE (f h1) (\<lambda>h. Inr (env_world h h2 sw, s))"
  "with_host 2 f (env_world h1 h2 sw, s) = bindE (f h2) (\<lambda>h. Inr (env_world h1 h sw, s))"
  "with_switch 3 k (env_world h1 h2 sw, s) = bindE (k sw) (\<lambda>x. Inr (env_world h1 h2 x, s))"
  by (simp_all add: with_host_def with_switch_def env_world_def fun_upd_twist)

definition env_routing1 :: routing_info where
  "env_routing1 = setRoutingTable ip2_2 16 1 (setRoutingTable ip2 16 0 (setIPAddr ip1_2 1 (setIPAddr ip1 0
     (setARPTable mac2_2 ip2_2 (setARPTable mac2 ip2 (setMACAddr mac1_2 1 (setMACAddr mac1 0 empty_routing)))))))"

definition env_routing2 :: routing_info where
  "env_routing2 = setRoutingTable ip1_2 16 1 (setRoutingTable ip1 16 0 (setIPAddr ip2_2 1 (setIPAddr ip2 0
     (setARPTable mac1_2 ip1_2 (setARPTable mac1 ip1 (setMACAddr mac2_2 1 (setMACAddr mac2 0 empty_routing)))))))"

definition env_table :: "ModuleID \<rightharpoonup> u64 set" where
  "env_table = [4 \<mapsto> {arrayToUINT64 mac1}, 5 \<mapsto> {arrayToUINT64 mac1_2},
     6 \<mapsto> {arrayToUINT64 mac2}, 7 \<mapsto> {arrayToUINT64 mac2_2}]"

lemma env_addresses_eq:
  "perform (env_addresses \<lparr>host1 = 1, host2 = 2, switchingHub = 3\<rparr> [(0, 0), (1, 1), (0, 2), (1, 3)]) (env_world (bare_host ws) (bare_host vs) sw, s) =
     Inr (env_world (bare_host ws\<lparr>routing := env_routing1\<rparr>) (bare_host vs\<lparr>routing := env_routing2\<rparr>) sw, s)"
  by (simp add: env_addresses_def on_routing_def bare_host_def env_routing1_def env_routing2_def)

lemma env_switch_eq:
  "l_ports sw = [4, 5, 6, 7] \<Longrightarrow> mac_table sw = Map.empty \<Longrightarrow>
   perform (env_switch \<lparr>host1 = 1, host2 = 2, switchingHub = 3\<rparr> [(0, 0), (1, 1), (0, 2), (1, 3)]) (env_world h1 h2 sw, s) =
     Inr (env_world h1 h2 (enablePCAPLogging 65535 (sw\<lparr>mac_table := env_table\<rparr>)), s)"
  by (simp add: env_switch_def addMACEntry_def Let_def indexE_def env_table_def fun_upd_twist)

text \<open>What the set-up relies on from \<^verbatim>\<open>allocate\<close> of a TCP provider: it adds a module called TCP to a host
  without one, and leaves its ports and its routing tables alone.\<close>

definition installs_tcp :: "(host \<Rightarrow> host result) \<Rightarrow> bool" where
  "installs_tcp f \<longleftrightarrow> (\<forall>h. hostModuleMap h ''TCP'' = None \<and> timerModuleMap h ''TCP'' = None \<and>
     interfaceMap h (AF_INET, IPPROTO_TCP) = None \<longrightarrow>
     (\<exists>h'. f h = Inr h' \<and> hostModuleMap h' ''TCP'' \<noteq> None \<and> h_ports h' = h_ports h \<and> routing h' = routing h))"

lemma installs_TCPAssignment: "installs_tcp TCPAssignmentProvider_allocate"
  by (simp add: installs_tcp_def TCPAssignmentProvider_allocate_def addHostModule_def insert_new_def)

lemma env_stacks_eq:
  assumes "installs_tcp target" and "installs_tcp solution"
  shows "\<exists>h1 h2. perform (env_stacks target solution \<lparr>host1 = 1, host2 = 2, switchingHub = 3\<rparr>)
      (env_world (bare_host ws\<lparr>routing := r1\<rparr>) (bare_host vs\<lparr>routing := r2\<rparr>) sw, s) = Inr (env_world h1 h2 sw, s) \<and>
    h_ports h1 = ws \<and> h_ports h2 = vs \<and> routing h1 = r1 \<and> routing h2 = r2 \<and>
    (\<exists>h. target h = Inr h1) \<and> (\<exists>h. solution h = Inr h2)"
proof -
  let ?h = "\<lambda>ws r. bare_host ws\<lparr>routing := r, hostModuleMap := [''Ethernet'' \<mapsto> EthernetMod, ''IPv4'' \<mapsto> IPv4Mod 0]\<rparr>"
  obtain h1 where h1: "target (?h ws r1) = Inr h1" "hostModuleMap h1 ''TCP'' \<noteq> None" "h_ports h1 = ws" "routing h1 = r1"
    using assms(1) [unfolded installs_tcp_def, rule_format, of "?h ws r1"] by (auto simp: bare_host_def AF_INET_def)
  obtain h2 where h2: "solution (?h vs r2) = Inr h2" "hostModuleMap h2 ''TCP'' \<noteq> None" "h_ports h2 = vs" "routing h2 = r2"
    using assms(2) [unfolded installs_tcp_def, rule_format, of "?h vs r2"] by (auto simp: bare_host_def AF_INET_def)
  have "addHostModule IPv4C (h\<lparr>hostModuleMap := [''Ethernet'' \<mapsto> EthernetMod]\<rparr>) =
      Inr (h\<lparr>hostModuleMap := [''Ethernet'' \<mapsto> EthernetMod, ''IPv4'' \<mapsto> IPv4Mod 0]\<rparr>)" for h
    by (simp add: addHostModule_def insert_new_def)
  moreover have "addHostModule EthernetC (bare_host us\<lparr>routing := r\<rparr>) =
      Inr (bare_host us\<lparr>routing := r, hostModuleMap := [''Ethernet'' \<mapsto> EthernetMod]\<rparr>)" for us r
    by (simp add: addHostModule_def insert_new_def bare_host_def)
  ultimately show ?thesis
    using h1 h2 by (intro exI [of _ h1] exI [of _ h2]) (auto simp: env_stacks_def initializeHostModule_def)
qed

lemma env_sys_ready: "scheduler_ready env_sys"
  using initial_scheduler_ready [where 'a = msg] by (simp add: env_sys_def scheduler_ready_def sys_inv_def after_def)

lemma env_links:
  assumes "link_bounded sw" and "\<forall>v. outputQueue sw v = []"
  shows "net_links (env_world h1 h2 sw) env_sys"
  using fresh_link_inv [OF assms, of env_sys 3]
  by (auto simp: net_links_def env_world_def env_sys_def initial_system_def split: if_splits)

text \<open>The switch of a new network, with its ports, its table and its capture file.\<close>

lemma switch_config [simp]:
  "outputQueue (enablePCAPLogging k sw) = outputQueue sw" "mac_table (enablePCAPLogging k sw) = mac_table sw"
  "l_ports (enablePCAPLogging k sw) = l_ports sw" "link_bounded (enablePCAPLogging k sw) = link_bounded sw"
  "outputQueue (setQueueSize n sw) = outputQueue sw" "mac_table (setQueueSize n sw) = mac_table sw"
  "l_ports (setQueueSize n sw) = l_ports sw"
  "link_bounded (sw\<lparr>mac_table := t\<rparr>) = link_bounded sw" "link_bounded (sw\<lparr>l_ports := ws\<rparr>) = link_bounded sw"
  "setQueueSize n (sw\<lparr>l_ports := ws\<rparr>) = (setQueueSize n sw)\<lparr>l_ports := ws\<rparr>"
  "setQueueSize n (sw\<lparr>mac_table := t\<rparr>) = (setQueueSize n sw)\<lparr>mac_table := t\<rparr>"
  by (simp_all add: enablePCAPLogging_def setQueueSize_def link_bounded_def)

lemma switch_new [simp]:
  "outputQueue (Switch_new g g' b) v = []"
  "canonical g \<Longrightarrow> link_bounded (Switch_new g g' b)"
  "canonical g \<Longrightarrow> link_bounded (setQueueSize 16 (Switch_new g g' b))"
  by (simp_all add: Switch_new_def link.extend_def Link_new_def setQueueSize_def link_bounded_def)

lemma env_routes:
  "getRoutingTable env_routing1 ip2 = Inr 0" "getRoutingTable env_routing1 ip2_2 = Inr 0"
  "getRoutingTable env_routing2 ip1 = Inr 0" "getRoutingTable env_routing2 ip1_2 = Inr 0"
  by code_simp+

lemma env_tables:
  "getMACAddr env_routing1 0 = Some mac1" "getMACAddr env_routing2 0 = Some mac2"
  "getARPTable env_routing1 ip2 = Some mac2" "getARPTable env_routing1 ip2_2 = Some mac2_2"
  "getARPTable env_routing2 ip1 = Some mac1" "getARPTable env_routing2 ip1_2 = Some mac1_2"
  by code_simp+

lemma env_targets:
  assumes "l_ports sw = [4, 5, 6, 7]" "mac_table sw = env_table"
  shows "switch_targets sw 4 mac2 = [6]" "switch_targets sw 4 mac2_2 = [7]"
    "switch_targets sw 6 mac1 = [4]" "switch_targets sw 6 mac1_2 = [5]"
proof -
  have "arrayToUINT64 mac1 = 0xBCBCBCBCBCBC" "arrayToUINT64 mac1_2 = 0xCBCBCBCBCBCB"
    "arrayToUINT64 mac2 = 0xCDCDCDCDCDCD" "arrayToUINT64 mac2_2 = 0xDCDCDCDCDCDC"
    by code_simp+
  then show "switch_targets sw 4 mac2 = [6]" "switch_targets sw 4 mac2_2 = [7]"
    "switch_targets sw 6 mac1 = [4]" "switch_targets sw 6 mac1_2 = [5]"
    by (simp_all add: switch_targets_def assms mac_known_def env_table_def mac_broadcast_def
        mac1_def mac2_def mac1_2_def mac2_2_def)
qed

lemma env_ends:
  "other_end 1 4 (env_world h1 h2 sw) = Some 3" "other_end 2 6 (env_world h1 h2 sw) = Some 3"
  "other_end 3 4 (env_world h1 h2 sw) = Some 1" "other_end 3 5 (env_world h1 h2 sw) = Some 1"
  "other_end 3 6 (env_world h1 h2 sw) = Some 2" "other_end 3 7 (env_world h1 h2 sw) = Some 2"
  by (simp_all add: other_end_def env_world_def Wire_new_def wire_destination_def)

lemma env_receivers:
  assumes "h_ports h1 = [4, 5]" "h_ports h2 = [6, 7]" "routing h1 = env_routing1" "routing h2 = env_routing2"
    and "l_ports sw = [4, 5, 6, 7]" "mac_table sw = env_table"
  shows "\<forall>ip \<in> {ip2, ip2_2}. receivers 1 ip (env_world h1 h2 sw) = [Some 2]"
    and "\<forall>ip \<in> {ip1, ip1_2}. receivers 2 ip (env_world h1 h2 sw) = [Some 1]"
    and "\<forall>ip \<in> {ip2, ip2_2}. \<exists>dst. frame_for 1 ip (env_world h1 h2 sw) = Some (mac1, dst, 4)"
proof -
  have "frame_for 1 ip2 (env_world h1 h2 sw) = Some (mac1, mac2, 4)"
    "frame_for 1 ip2_2 (env_world h1 h2 sw) = Some (mac1, mac2_2, 4)"
    "frame_for 2 ip1 (env_world h1 h2 sw) = Some (mac2, mac1, 6)"
    "frame_for 2 ip1_2 (env_world h1 h2 sw) = Some (mac2, mac1_2, 6)"
    by (simp_all add: frame_for_def env_world_def assms env_routes env_tables)
  moreover have "modules (env_world h1 h2 sw) 3 = Some (SwitchM sw)" by (simp add: env_world_def)
  ultimately show "\<forall>ip \<in> {ip2, ip2_2}. receivers 1 ip (env_world h1 h2 sw) = [Some 2]"
    "\<forall>ip \<in> {ip1, ip1_2}. receivers 2 ip (env_world h1 h2 sw) = [Some 1]"
    "\<forall>ip \<in> {ip2, ip2_2}. \<exists>dst. frame_for 1 ip (env_world h1 h2 sw) = Some (mac1, dst, 4)"
    using assms(5,6) by (simp_all add: receivers_def env_targets env_ends)
qed

text \<open>Both test environments build the same two hosts, each from the result of its TCP module.\<close>

lemma testenv_built:
  assumes "installs_tcp target" and "installs_tcp solution" and "canonical g"
    and "mk = TestEnv1_SetUp g g' target solution \<or> mk = TestEnv2_SetUp unrel g g' target solution"
  obtains e h1 h2 sw where "mk NetworkSystem_new = Inr (e, env_world h1 h2 sw, env_sys)" "e = \<lparr>host1 = 1, host2 = 2, switchingHub = 3\<rparr>"
    "h_ports h1 = [4, 5]" "h_ports h2 = [6, 7]" "routing h1 = env_routing1" "routing h2 = env_routing2"
    "l_ports sw = [4, 5, 6, 7]" "mac_table sw = env_table" "link_bounded sw" "\<forall>v. outputQueue sw v = []"
    "\<exists>h. target h = Inr h1" "\<exists>h. solution h = Inr h2"
proof -
  define e where "e = \<lparr>host1 = 1, host2 = 2, switchingHub = 3\<rparr>"
  obtain sw where sw: "l_ports sw = [4, 5, 6, 7]" "mac_table sw = env_table" "link_bounded sw" "\<forall>v. outputQueue sw v = []"
    and mk: "mk NetworkSystem_new =
      bindE (perform (env_stacks target solution e) (env_world (bare_host [4, 5]\<lparr>routing := env_routing1\<rparr>)
        (bare_host [6, 7]\<lparr>routing := env_routing2\<rparr>) sw, env_sys)) (\<lambda>st. Inr (e, st))"
  proof (cases "mk = TestEnv1_SetUp g g' target solution")
    case True
    show thesis
      by (rule that [of "enablePCAPLogging 65535 (Switch_new g g' False\<lparr>l_ports := [4, 5, 6, 7], mac_table := env_table\<rparr>)"])
        (use assms(3) in \<open>simp_all add: True TestEnv1_SetUp_def env_modules_eq foldE_append env_addresses_eq env_switch_eq e_def bindE_assoc\<close>)
  next
    case False
    with assms(4) have F: "mk = TestEnv2_SetUp unrel g g' target solution" by blast
    show thesis
      by (rule that [of "enablePCAPLogging 65535 ((setQueueSize 16 (Switch_new g g' unrel))\<lparr>l_ports := [4, 5, 6, 7], mac_table := env_table\<rparr>)"])
        (use assms(3) in \<open>simp_all add: F TestEnv2_SetUp_def env_modules_eq foldE_append env_addresses_eq env_switch_eq e_def bindE_assoc\<close>)
  qed
  obtain h1 h2 where h: "perform (env_stacks target solution e) (env_world (bare_host [4, 5]\<lparr>routing := env_routing1\<rparr>)
        (bare_host [6, 7]\<lparr>routing := env_routing2\<rparr>) sw, env_sys) = Inr (env_world h1 h2 sw, env_sys)"
      "h_ports h1 = [4, 5]" "h_ports h2 = [6, 7]" "routing h1 = env_routing1" "routing h2 = env_routing2"
      "\<exists>h. target h = Inr h1" "\<exists>h. solution h = Inr h2"
    using env_stacks_eq [OF assms(1,2)] unfolding e_def by blast
  then have "mk NetworkSystem_new = Inr (e, env_world h1 h2 sw, env_sys)" using mk by simp
  from that [OF this e_def h(2-5) sw h(6,7)] show thesis .
qed

section \<open>Properties\<close>



end
