(* ===== verification/Routing_Tests.thy ===== *)
theory Routing_Tests
  imports Topology
begin

text \<open>
  The routing tests (\<^verbatim>\<open>app/rip/testrip.cpp\<close> and \<^verbatim>\<open>app/pwospf/testpwospf.cpp\<close>): their weighted graphs and the costs they
  expect between routers, with a relaxation that computes distances and a check that a table of distances
  is right. The theorem says that the costs the tests expect are those of the shortest paths.
\<close>

section \<open>The graphs and the expected costs\<close>

type_synonym edge = "nat \<times> nat \<times> nat"

record routing_env =
  num_routers :: nat
  graph :: "edge list"
  test_vector :: "edge list"

definition RoutingEnvRipTwoNodes :: routing_env where
  "RoutingEnvRipTwoNodes = \<lparr>num_routers = 2,
     graph = [(0, 1, 1)],
     test_vector = [(0, 1, 1)]\<rparr>"

definition RoutingEnvCustomTwoNodes :: routing_env where
  "RoutingEnvCustomTwoNodes = \<lparr>num_routers = 2,
     graph = [(0, 1, 10)],
     test_vector = [(0, 1, 10)]\<rparr>"

definition RoutingEnvRip1 :: routing_env where
  "RoutingEnvRip1 = \<lparr>num_routers = 4,
     graph = [(0, 1, 1), (0, 2, 1), (0, 3, 1), (1, 2, 1), (2, 3, 1)],
     test_vector = [(0, 1, 1), (0, 2, 1), (0, 3, 1), (1, 2, 1), (1, 3, 2), (2, 3, 1)]\<rparr>"

definition RoutingEnvCustom1 :: routing_env where
  "RoutingEnvCustom1 = \<lparr>num_routers = 4,
     graph = [(0, 1, 1), (0, 2, 3), (0, 3, 7), (1, 2, 1), (2, 3, 2)],
     test_vector = [(0, 1, 1), (0, 2, 2), (0, 3, 4), (1, 2, 1), (1, 3, 3), (2, 3, 2)]\<rparr>"

definition RoutingEnvRip2 :: routing_env where
  "RoutingEnvRip2 = \<lparr>num_routers = 7,
     graph = [(0, 1, 1), (0, 2, 1), (0, 5, 1), (1, 2, 1), (1, 3, 1), (2, 3, 1), (2, 4, 1),
        (2, 5, 1), (3, 4, 1), (4, 5, 1), (4, 6, 1), (5, 6, 1)],
     test_vector = [(0, 1, 1), (0, 2, 1), (0, 3, 2), (0, 4, 2), (0, 5, 1), (0, 6, 2), (1, 2, 1),
        (1, 3, 1), (1, 4, 2), (1, 5, 2), (1, 6, 3), (2, 3, 1), (2, 4, 1), (2, 5, 1),
        (2, 6, 2), (3, 4, 1), (3, 5, 2), (3, 6, 2), (4, 5, 1), (4, 6, 1), (5, 6, 1)]\<rparr>"

definition RoutingEnvCustom2 :: routing_env where
  "RoutingEnvCustom2 = \<lparr>num_routers = 7,
     graph = [(0, 1, 2), (0, 2, 4), (0, 5, 7), (1, 2, 3), (1, 3, 3), (2, 3, 4), (2, 4, 3),
        (2, 5, 8), (3, 4, 6), (4, 5, 6), (4, 6, 8), (5, 6, 12)],
     test_vector = [(0, 1, 2), (0, 2, 4), (0, 3, 5), (0, 4, 7), (0, 5, 7), (0, 6, 15), (1, 2, 3),
        (1, 3, 3), (1, 4, 6), (1, 5, 9), (1, 6, 14), (2, 3, 4), (2, 4, 3), (2, 5, 8),
        (2, 6, 11), (3, 4, 6), (3, 5, 12), (3, 6, 14), (4, 5, 6), (4, 6, 8), (5, 6, 12)]\<rparr>"

definition RoutingEnvRip3 :: routing_env where
  "RoutingEnvRip3 = \<lparr>num_routers = 5,
     graph = [(0, 1, 1), (0, 3, 1), (1, 2, 1), (1, 4, 1), (2, 3, 1), (2, 4, 1)],
     test_vector = [(0, 1, 1), (0, 2, 2), (0, 3, 1), (0, 4, 2), (1, 2, 1), (1, 3, 2), (1, 4, 1),
        (2, 3, 1), (2, 4, 1), (3, 4, 2)]\<rparr>"

definition RoutingEnvCustom3 :: routing_env where
  "RoutingEnvCustom3 = \<lparr>num_routers = 5,
     graph = [(0, 1, 1), (0, 3, 2), (1, 2, 3), (1, 4, 6), (2, 3, 3), (2, 4, 2)],
     test_vector = [(0, 1, 1), (0, 2, 4), (0, 3, 2), (0, 4, 6), (1, 2, 3), (1, 3, 3), (1, 4, 5),
        (2, 3, 3), (2, 4, 2), (3, 4, 5)]\<rparr>"

definition RoutingEnvRip4 :: routing_env where
  "RoutingEnvRip4 = \<lparr>num_routers = 9,
     graph = [(0, 1, 1), (0, 3, 1), (1, 2, 1), (1, 4, 1), (3, 4, 1), (3, 6, 1), (4, 5, 1),
        (4, 7, 1), (5, 8, 1), (6, 7, 1), (7, 8, 1)],
     test_vector = [(0, 1, 1), (0, 2, 2), (0, 3, 1), (0, 4, 2), (0, 5, 3), (0, 6, 2), (0, 7, 3),
        (0, 8, 4), (1, 2, 1), (1, 3, 2), (1, 4, 1), (1, 5, 2), (1, 6, 3), (1, 7, 2),
        (1, 8, 3), (2, 3, 3), (2, 4, 2), (2, 5, 3), (2, 6, 4), (2, 7, 3), (2, 8, 4),
        (3, 4, 1), (3, 5, 2), (3, 6, 1), (3, 7, 2), (3, 8, 3), (4, 5, 1), (4, 6, 2),
        (4, 7, 1), (4, 8, 2), (5, 6, 3), (5, 7, 2), (5, 8, 1), (6, 7, 1), (6, 8, 2),
        (7, 8, 1)]\<rparr>"

definition RoutingEnvCustom4 :: routing_env where
  "RoutingEnvCustom4 = \<lparr>num_routers = 9,
     graph = [(0, 1, 8), (0, 3, 1), (1, 2, 1), (1, 4, 1), (3, 4, 1), (3, 6, 1), (4, 5, 1),
        (4, 7, 1), (5, 8, 1), (6, 7, 1), (7, 8, 1)],
     test_vector = [(0, 1, 3), (0, 2, 4), (0, 3, 1), (0, 4, 2), (0, 5, 3), (0, 6, 2), (0, 7, 3),
        (0, 8, 4), (1, 2, 1), (1, 3, 2), (1, 4, 1), (1, 5, 2), (1, 6, 3), (1, 7, 2),
        (1, 8, 3), (2, 3, 3), (2, 4, 2), (2, 5, 3), (2, 6, 4), (2, 7, 3), (2, 8, 4),
        (3, 4, 1), (3, 5, 2), (3, 6, 1), (3, 7, 2), (3, 8, 3), (4, 5, 1), (4, 6, 2),
        (4, 7, 1), (4, 8, 2), (5, 6, 3), (5, 7, 2), (5, 8, 1), (6, 7, 1), (6, 8, 2),
        (7, 8, 1)]\<rparr>"

definition RoutingEnvOSPFTwoNodes :: routing_env where
  "RoutingEnvOSPFTwoNodes = \<lparr>num_routers = 2,
     graph = [(0, 1, 1)],
     test_vector = [(0, 1, 1)]\<rparr>"

definition RoutingEnvOSPFCustomTwoNodes :: routing_env where
  "RoutingEnvOSPFCustomTwoNodes = \<lparr>num_routers = 2,
     graph = [(0, 1, 10)],
     test_vector = [(0, 1, 10)]\<rparr>"

definition RoutingEnvOSPF1 :: routing_env where
  "RoutingEnvOSPF1 = \<lparr>num_routers = 4,
     graph = [(0, 1, 1), (0, 2, 1), (0, 3, 1), (1, 2, 1), (2, 3, 1)],
     test_vector = [(0, 1, 1), (0, 2, 1), (0, 3, 1), (1, 2, 1), (1, 3, 2), (2, 3, 1)]\<rparr>"

definition RoutingEnvOSPFCustom1 :: routing_env where
  "RoutingEnvOSPFCustom1 = \<lparr>num_routers = 4,
     graph = [(0, 1, 1), (0, 2, 3), (0, 3, 7), (1, 2, 1), (2, 3, 2)],
     test_vector = [(0, 1, 1), (0, 2, 2), (0, 3, 4), (1, 2, 1), (1, 3, 3), (2, 3, 2)]\<rparr>"

definition RoutingEnvOSPF2 :: routing_env where
  "RoutingEnvOSPF2 = \<lparr>num_routers = 7,
     graph = [(0, 1, 1), (0, 2, 1), (0, 5, 1), (1, 2, 1), (1, 3, 1), (2, 3, 1), (2, 4, 1),
        (2, 5, 1), (3, 4, 1), (4, 5, 1), (4, 6, 1), (5, 6, 1)],
     test_vector = [(0, 1, 1), (0, 2, 1), (0, 3, 2), (0, 4, 2), (0, 5, 1), (0, 6, 2), (1, 2, 1),
        (1, 3, 1), (1, 4, 2), (1, 5, 2), (1, 6, 3), (2, 3, 1), (2, 4, 1), (2, 5, 1),
        (2, 6, 2), (3, 4, 1), (3, 5, 2), (3, 6, 2), (4, 5, 1), (4, 6, 1), (5, 6, 1)]\<rparr>"

definition RoutingEnvOSPFCustom2 :: routing_env where
  "RoutingEnvOSPFCustom2 = \<lparr>num_routers = 7,
     graph = [(0, 1, 2), (0, 2, 4), (0, 5, 7), (1, 2, 3), (1, 3, 3), (2, 3, 4), (2, 4, 3),
        (2, 5, 8), (3, 4, 6), (4, 5, 6), (4, 6, 8), (5, 6, 12)],
     test_vector = [(0, 1, 2), (0, 2, 4), (0, 3, 5), (0, 4, 7), (0, 5, 7), (0, 6, 15), (1, 2, 3),
        (1, 3, 3), (1, 4, 6), (1, 5, 9), (1, 6, 14), (2, 3, 4), (2, 4, 3), (2, 5, 8),
        (2, 6, 11), (3, 4, 6), (3, 5, 12), (3, 6, 14), (4, 5, 6), (4, 6, 8), (5, 6, 12)]\<rparr>"

definition RoutingEnvOSPF3 :: routing_env where
  "RoutingEnvOSPF3 = \<lparr>num_routers = 5,
     graph = [(0, 1, 1), (0, 3, 1), (1, 2, 1), (1, 4, 1), (2, 3, 1), (2, 4, 1)],
     test_vector = [(0, 1, 1), (0, 2, 2), (0, 3, 1), (0, 4, 2), (1, 2, 1), (1, 3, 2), (1, 4, 1),
        (2, 3, 1), (2, 4, 1), (3, 4, 2)]\<rparr>"

definition RoutingEnvOSPFCustom3 :: routing_env where
  "RoutingEnvOSPFCustom3 = \<lparr>num_routers = 5,
     graph = [(0, 1, 1), (0, 3, 2), (1, 2, 3), (1, 4, 6), (2, 3, 3), (2, 4, 2)],
     test_vector = [(0, 1, 1), (0, 2, 4), (0, 3, 2), (0, 4, 6), (1, 2, 3), (1, 3, 3), (1, 4, 5),
        (2, 3, 3), (2, 4, 2), (3, 4, 5)]\<rparr>"

definition RoutingEnvOSPF4 :: routing_env where
  "RoutingEnvOSPF4 = \<lparr>num_routers = 9,
     graph = [(0, 1, 1), (0, 3, 1), (1, 2, 1), (1, 4, 1), (3, 4, 1), (3, 6, 1), (4, 5, 1),
        (4, 7, 1), (5, 8, 1), (6, 7, 1), (7, 8, 1)],
     test_vector = [(0, 1, 1), (0, 2, 2), (0, 3, 1), (0, 4, 2), (0, 5, 3), (0, 6, 2), (0, 7, 3),
        (0, 8, 4), (1, 2, 1), (1, 3, 2), (1, 4, 1), (1, 5, 2), (1, 6, 3), (1, 7, 2),
        (1, 8, 3), (2, 3, 3), (2, 4, 2), (2, 5, 3), (2, 6, 4), (2, 7, 3), (2, 8, 4),
        (3, 4, 1), (3, 5, 2), (3, 6, 1), (3, 7, 2), (3, 8, 3), (4, 5, 1), (4, 6, 2),
        (4, 7, 1), (4, 8, 2), (5, 6, 3), (5, 7, 2), (5, 8, 1), (6, 7, 1), (6, 8, 2),
        (7, 8, 1)]\<rparr>"

definition RoutingEnvOSPFCustom4 :: routing_env where
  "RoutingEnvOSPFCustom4 = \<lparr>num_routers = 9,
     graph = [(0, 1, 8), (0, 3, 1), (1, 2, 1), (1, 4, 1), (3, 4, 1), (3, 6, 1), (4, 5, 1),
        (4, 7, 1), (5, 8, 1), (6, 7, 1), (7, 8, 1)],
     test_vector = [(0, 1, 3), (0, 2, 4), (0, 3, 1), (0, 4, 2), (0, 5, 3), (0, 6, 2), (0, 7, 3),
        (0, 8, 4), (1, 2, 1), (1, 3, 2), (1, 4, 1), (1, 5, 2), (1, 6, 3), (1, 7, 2),
        (1, 8, 3), (2, 3, 3), (2, 4, 2), (2, 5, 3), (2, 6, 4), (2, 7, 3), (2, 8, 4),
        (3, 4, 1), (3, 5, 2), (3, 6, 1), (3, 7, 2), (3, 8, 3), (4, 5, 1), (4, 6, 2),
        (4, 7, 1), (4, 8, 2), (5, 6, 3), (5, 7, 2), (5, 8, 1), (6, 7, 1), (6, 8, 2),
        (7, 8, 1)]\<rparr>"

definition routing_envs :: "routing_env list" where
  "routing_envs =
     [RoutingEnvRipTwoNodes, RoutingEnvCustomTwoNodes, RoutingEnvRip1, RoutingEnvCustom1,
      RoutingEnvRip2, RoutingEnvCustom2, RoutingEnvRip3, RoutingEnvCustom3,
      RoutingEnvRip4, RoutingEnvCustom4, RoutingEnvOSPFTwoNodes, RoutingEnvOSPFCustomTwoNodes,
      RoutingEnvOSPF1, RoutingEnvOSPFCustom1, RoutingEnvOSPF2, RoutingEnvOSPFCustom2,
      RoutingEnvOSPF3, RoutingEnvOSPFCustom3, RoutingEnvOSPF4, RoutingEnvOSPFCustom4]"

section \<open>Shortest paths\<close>

text \<open>A walk through the graph, along edges in either direction, with its cost.\<close>

inductive walk :: "edge list \<Rightarrow> nat \<Rightarrow> nat \<Rightarrow> nat \<Rightarrow> bool" for g where
  here: "walk g i i 0"
| along: "walk g i j c \<Longrightarrow> (j, k, d) \<in> set g \<Longrightarrow> walk g i k (c + d)"
| against: "walk g i j c \<Longrightarrow> (k, j, d) \<in> set g \<Longrightarrow> walk g i k (c + d)"

definition is_distance :: "edge list \<Rightarrow> nat \<Rightarrow> nat \<Rightarrow> nat \<Rightarrow> bool" where
  "is_distance g i j c \<longleftrightarrow> walk g i j c \<and> (\<forall>c'. walk g i j c' \<longrightarrow> c \<le> c')"

text \<open>Relaxation of distances, as a reference computation; four rounds are enough for these graphs,
  which is checked and not assumed: no edge improves the result.\<close>

fun better :: "nat option \<Rightarrow> nat \<Rightarrow> nat option \<Rightarrow> nat option" where
  "better None d old = old"
| "better (Some c) d None = Some (c + d)"
| "better (Some c) d (Some x) = Some (if c + d < x then c + d else x)"

fun relax :: "edge \<Rightarrow> nat option list \<Rightarrow> nat option list" where
  "relax (a, b, d) ds =
     (let ds = ds[b := better (ds ! a) d (ds ! b)] in ds[a := better (ds ! b) d (ds ! a)])"

definition distances :: "edge list \<Rightarrow> nat \<Rightarrow> nat \<Rightarrow> nat option list" where
  "distances g n i = (fold relax g ^^ 4) ((replicate n None)[i := Some 0])"

fun close_enough :: "nat option list \<Rightarrow> edge \<Rightarrow> bool" where
  "close_enough ds (a, b, d) =
     (case (ds ! a, ds ! b) of (Some x, Some y) \<Rightarrow> y \<le> x + d \<and> x \<le> y + d | _ \<Rightarrow> False)"

definition distances_ok :: "edge list \<Rightarrow> nat \<Rightarrow> nat \<Rightarrow> nat option list \<Rightarrow> bool" where
  "distances_ok g n i ds \<longleftrightarrow> ds ! i = Some 0 \<and> list_all (close_enough ds) g"

lemma relax_length [simp]: "length (relax e ds) = length ds"
  by (cases e) (simp add: Let_def)

lemma better_walk:
  assumes "better x d y = Some c"
  shows "(\<exists>c'. x = Some c' \<and> c = c' + d) \<or> y = Some c"
  using assms by (cases "(x, d, y)" rule: better.cases) (auto split: if_splits)

definition all_walks :: "edge list \<Rightarrow> nat \<Rightarrow> nat option list \<Rightarrow> bool" where
  "all_walks g i ds \<longleftrightarrow> (\<forall>j c. j < length ds \<longrightarrow> ds ! j = Some c \<longrightarrow> walk g i j c)"

lemma all_walks_update:
  assumes "all_walks g i ds" and "a < length ds" and "(a, b, d) \<in> set g \<or> (b, a, d) \<in> set g"
  shows "all_walks g i (ds[b := better (ds ! a) d (ds ! b)])"
proof -
  have new: "walk g i b c" if "b < length ds" "better (ds ! a) d (ds ! b) = Some c" for c
    using better_walk [OF that(2)] that(1) assms by (auto simp: all_walks_def intro: walk.intros)
  have "walk g i j c" if "j < length ds" "ds[b := better (ds ! a) d (ds ! b)] ! j = Some c" for j c
    using that new assms(1) by (cases "j = b") (auto simp: all_walks_def)
  then show ?thesis by (simp add: all_walks_def)
qed

lemma relax_walks:
  assumes "all_walks g i ds" and "(a, b, d) \<in> set g" and "a < length ds" and "b < length ds"
  shows "all_walks g i (relax (a, b, d) ds)"
proof -
  have "all_walks g i (ds[b := better (ds ! a) d (ds ! b)])"
    using assms by (intro all_walks_update) auto
  then show ?thesis
    using assms all_walks_update [of g i "ds[b := better (ds ! a) d (ds ! b)]" b a d] by (simp add: Let_def)
qed

lemma fold_relax_walks:
  assumes "set es \<subseteq> set g" and "list_all (\<lambda>(a, b, d). a < length ds \<and> b < length ds) es" and "all_walks g i ds"
  shows "all_walks g i (fold relax es ds) \<and> length (fold relax es ds) = length ds"
  using assms
proof (induction es arbitrary: ds)
  case (Cons e es)
  obtain a b d where e: "e = (a, b, d)" by (cases e)
  have "all_walks g i (relax e ds)" using Cons.prems unfolding e by (intro relax_walks) auto
  with Cons show ?case by simp
qed simp

lemma distances_walks:
  assumes "i < n" and "list_all (\<lambda>(a, b, d). a < n \<and> b < n) g"
  shows "all_walks g i (distances g n i) \<and> length (distances g n i) = n"
proof -
  have "all_walks g i ((fold relax g ^^ m) ((replicate n None)[i := Some 0])) \<and>
      length ((fold relax g ^^ m) ((replicate n None)[i := Some 0])) = n" for m
  proof (induction m)
    case 0
    show ?case using assms(1) by (auto simp: all_walks_def nth_list_update intro: walk.here)
  next
    case (Suc m)
    then show ?case using fold_relax_walks [of g g _ i] assms(2) by simp
  qed
  then show ?thesis unfolding distances_def by blast
qed

text \<open>Distances that no edge improves are those of the shortest walks.\<close>

lemma walk_bound:
  assumes "walk g i j c" and "ds ! i = Some 0" and "list_all (close_enough ds) g"
  shows "\<exists>x \<le> c. ds ! j = Some x"
  using assms
proof (induction rule: walk.induct)
  case (here i)
  then show ?case by simp
next
  case (along i j c k d)
  then show ?case by (fastforce simp: list_all_iff split: option.splits)
next
  case (against i j c k d)
  then show ?case by (fastforce simp: list_all_iff split: option.splits)
qed

lemma distances_shortest:
  assumes "list_all (\<lambda>(a, b, d). a < n \<and> b < n) g" and "distances_ok g n i (distances g n i)"
    and "i < n" and "j < n" and "distances g n i ! j = Some c"
  shows "is_distance g i j c"
proof -
  have "walk g i j c" using assms distances_walks [of i n g] by (auto simp: all_walks_def)
  moreover have "c \<le> c'" if "walk g i j c'" for c'
    using walk_bound [OF that, of "distances g n i"] assms by (auto simp: distances_ok_def)
  ultimately show ?thesis by (simp add: is_distance_def)
qed

definition env_checked :: "routing_env \<Rightarrow> bool" where
  "env_checked e \<longleftrightarrow>
     (let g = graph e; n = num_routers e; v = test_vector e in
      list_all (\<lambda>(a, b, d). a < n \<and> b < n) g \<and>
      list_all (\<lambda>i. let ds = distances g n i in distances_ok g n i ds \<and>
         list_all (\<lambda>(a, j, c). a \<noteq> i \<or> j < n \<and> ds ! j = Some c) v) [0..<n] \<and>
      map (\<lambda>(i, j, c). (i, j)) v = concat (map (\<lambda>i. map (Pair i) [Suc i..<n]) [0..<n]))"

lemma env_checked_distance:
  assumes "env_checked e" and "(i, j, c) \<in> set (test_vector e)"
  shows "is_distance (graph e) i j c"
proof -
  let ?g = "graph e" and ?n = "num_routers e"
  have "(i, j) \<in> set (map (\<lambda>(i, j, c). (i, j)) (test_vector e))" using assms(2) by force
  with assms(1) have i: "i < ?n" by (auto simp: env_checked_def Let_def)
  with assms have "distances_ok ?g ?n i (distances ?g ?n i)" "j < ?n" "distances ?g ?n i ! j = Some c"
    by (auto simp: env_checked_def Let_def list_all_iff)
  with assms(1) i show ?thesis by (intro distances_shortest [of ?n]) (auto simp: env_checked_def Let_def)
qed

lemma ospf_envs:
  "RoutingEnvOSPFTwoNodes = RoutingEnvRipTwoNodes" "RoutingEnvOSPFCustomTwoNodes = RoutingEnvCustomTwoNodes"
  "RoutingEnvOSPF1 = RoutingEnvRip1" "RoutingEnvOSPFCustom1 = RoutingEnvCustom1"
  "RoutingEnvOSPF2 = RoutingEnvRip2" "RoutingEnvOSPFCustom2 = RoutingEnvCustom2"
  "RoutingEnvOSPF3 = RoutingEnvRip3" "RoutingEnvOSPFCustom3 = RoutingEnvCustom3"
  "RoutingEnvOSPF4 = RoutingEnvRip4" "RoutingEnvOSPFCustom4 = RoutingEnvCustom4"
  by (simp_all only: RoutingEnvOSPFTwoNodes_def RoutingEnvRipTwoNodes_def RoutingEnvOSPFCustomTwoNodes_def
      RoutingEnvCustomTwoNodes_def RoutingEnvOSPF1_def RoutingEnvRip1_def RoutingEnvOSPFCustom1_def RoutingEnvCustom1_def
      RoutingEnvOSPF2_def RoutingEnvRip2_def RoutingEnvOSPFCustom2_def RoutingEnvCustom2_def RoutingEnvOSPF3_def
      RoutingEnvRip3_def RoutingEnvOSPFCustom3_def RoutingEnvCustom3_def RoutingEnvOSPF4_def RoutingEnvRip4_def
      RoutingEnvOSPFCustom4_def RoutingEnvCustom4_def)

lemmas check_simps = env_checked_def distances_def distances_ok_def upt_rec numeral_eq_Suc Let_def

lemma RipTwoNodes_checked: "env_checked RoutingEnvRipTwoNodes"
  by (simp add: check_simps RoutingEnvRipTwoNodes_def)

lemma CustomTwoNodes_checked: "env_checked RoutingEnvCustomTwoNodes"
  by (simp add: check_simps RoutingEnvCustomTwoNodes_def)

lemma Rip1_checked: "env_checked RoutingEnvRip1"
  by (simp add: check_simps RoutingEnvRip1_def)

lemma Custom1_checked: "env_checked RoutingEnvCustom1"
  by (simp add: check_simps RoutingEnvCustom1_def)

lemma Rip2_checked: "env_checked RoutingEnvRip2"
  by (simp add: check_simps RoutingEnvRip2_def)

lemma Custom2_checked: "env_checked RoutingEnvCustom2"
  by (simp add: check_simps RoutingEnvCustom2_def)

lemma Rip3_checked: "env_checked RoutingEnvRip3"
  by (simp add: check_simps RoutingEnvRip3_def)

lemma Custom3_checked: "env_checked RoutingEnvCustom3"
  by (simp add: check_simps RoutingEnvCustom3_def)

lemma Rip4_checked: "env_checked RoutingEnvRip4"
  by (simp add: check_simps RoutingEnvRip4_def)

lemma Custom4_checked: "env_checked RoutingEnvCustom4"
  by (simp add: check_simps RoutingEnvCustom4_def)

lemmas rip_envs_checked = RipTwoNodes_checked CustomTwoNodes_checked Rip1_checked Custom1_checked Rip2_checked Custom2_checked Rip3_checked Custom3_checked Rip4_checked Custom4_checked

lemma envs_checked: "e \<in> set routing_envs \<Longrightarrow> env_checked e"
  using rip_envs_checked by (auto simp: routing_envs_def ospf_envs)

section \<open>Properties\<close>

text \<open>C9. In all twenty routing tests the expected costs are right: every pair of routers is tested
  exactly once, and the cost expected for it is the least cost of a walk between them in the
  graph of the test.\<close>

theorem expected_costs_are_distances:
  assumes "e \<in> set routing_envs"
  shows "(\<forall>(i, j, c) \<in> set (test_vector e). is_distance (graph e) i j c) \<and>
    map (\<lambda>(i, j, c). (i, j)) (test_vector e) =
      concat (map (\<lambda>i. map (Pair i) [Suc i..<num_routers e]) [0..<num_routers e])"
  using envs_checked [OF assms] env_checked_distance [of e]
  by (auto simp: env_checked_def Let_def)

theorem expected_costs_are_distances_witness:
  "is_distance (graph RoutingEnvCustom4) 0 1 3 \<and> (0, 1, 8) \<in> set (graph RoutingEnvCustom4)"
proof -
  have "RoutingEnvCustom4 \<in> set routing_envs" by (simp add: routing_envs_def)
  from expected_costs_are_distances [OF this] show ?thesis by (auto simp: RoutingEnvCustom4_def)
qed

end
