(* ===== verification/Test_Runs.thy ===== *)
theory Test_Runs
  imports Topology
begin

text \<open>
  How the tests run a network they have built: applications are added to hosts and launched, the
  simulation runs up to a first time limit, \<^verbatim>\<open>cleanUp\<close> stops every host and lets its blocked
  applications go, and a second run lets them finish (\<^verbatim>\<open>runTest\<close> in \<^verbatim>\<open>app/kens/testenv.hpp\<close> and
  \<^verbatim>\<open>app/echo/testecho.cpp\<close>).
\<close>

section \<open>Definitions\<close>

text \<open>An operation of the host \<open>i\<close> that may touch applications and the scheduler.\<close>

definition on_host :: "ModuleID \<Rightarrow> (hctx \<Rightarrow> ('r \<times> hctx) result) \<Rightarrow> world \<times> net \<Rightarrow> ('r \<times> world \<times> net) result" where
  "on_host i f st =
     (case st of (w, s) \<Rightarrow>
       (case modules w i of
          Some (HostM h) \<Rightarrow>
            bindE (f (h, w_env w, s)) (\<lambda>(r, h', e', s').
              Inr (r, w\<lparr>modules := (modules w)(i \<mapsto> HostM h'), w_env := e'\<rparr>, s'))
        | _ \<Rightarrow> Inl NullDeref))"

text \<open>\<open>new\<close> is the address of the application object that \<^verbatim>\<open>make_shared\<close> allocates, \<open>p\<close> its \<^verbatim>\<open>E_Main\<close>.\<close>

definition addApplication :: "runnable \<Rightarrow> ModuleID \<Rightarrow> prog \<Rightarrow> hctx \<Rightarrow> (int \<times> hctx) result" where
  "addApplication new i p st =
     (case st of (h, e, s) \<Rightarrow>
       (case registerProcess new (h, e\<lparr>apps := (apps e)(new \<mapsto> SystemCallApplication_new i p)\<rparr>) of
          None \<Rightarrow> Inl NoReturn
        | Some r \<Rightarrow> bindE r (\<lambda>(pid, h', e'). Inr (pid, h', e', s))))"

text \<open>\<^verbatim>\<open>addApplication\<close> and \<^verbatim>\<open>launchApplication\<close>, as every test calls them.\<close>

definition launch :: "runnable \<Rightarrow> ModuleID \<Rightarrow> prog \<Rightarrow> world \<times> net \<Rightarrow> (world \<times> net) result" where
  "launch new i p st =
     bindE (on_host i (addApplication new i p) st) (\<lambda>(pid, st).
     bindE (on_host i (\<lambda>c. bindE (launchApplication pid c) (\<lambda>c. Inr ((), c))) st) (\<lambda>(_, st). Inr st))"

text \<open>\<^verbatim>\<open>finalizeHostModule\<close>; the modules of the repository do nothing in \<^verbatim>\<open>finalize\<close>.\<close>

definition finalizeHostModule :: "string \<Rightarrow> host \<Rightarrow> host result" where
  "finalizeHostModule name h = (if hostModuleMap h name = None then Inl NullDeref else Inr h)"

definition clean_up :: "(UUID set \<Rightarrow> UUID list) \<Rightarrow> ModuleID \<Rightarrow> world \<times> net \<Rightarrow> (world \<times> net) result" where
  "clean_up uord i st = bindE (on_host i (cleanUp uord) st) (\<lambda>(_, st'). Inr st')"

text \<open>A run to a limit, the operations between the runs, and a second run.\<close>

definition run_twice ::
  "(runnable set \<Rightarrow> runnable list) \<Rightarrow> nat \<Rightarrow> nat \<Rightarrow> Time \<Rightarrow> (world \<times> net \<Rightarrow> (world \<times> net) result) list \<Rightarrow> Time \<Rightarrow>
     world \<times> net \<Rightarrow> (world \<times> net) result option" where
  "run_twice ord fuel n till1 between till2 st =
     (case run ord (net_callbacks fuel) n till1 st of
        Some (Inr st) \<Rightarrow>
          (case perform between st of
             Inl e \<Rightarrow> Some (Inl e)
           | Inr st \<Rightarrow> run ord (net_callbacks fuel) n till2 st)
      | r \<Rightarrow> r)"

definition TestEnv1_runTest ::
  "(runnable set \<Rightarrow> runnable list) \<Rightarrow> (UUID set \<Rightarrow> UUID list) \<Rightarrow> nat \<Rightarrow> nat \<Rightarrow> two_hosts \<Rightarrow> world \<times> net \<Rightarrow> (world \<times> net) result option" where
  "TestEnv1_runTest ord uord fuel n e =
     run_twice ord fuel n (makeTime 1000 SEC)
       [clean_up uord (host1 e), clean_up uord (host2 e),
        with_host (host1 e) (finalizeHostModule ''TCP''), with_host (host2 e) (finalizeHostModule ''TCP'')]
       (makeTime 2000 SEC)"

text \<open>The body of \<^verbatim>\<open>TestEnv2::runTest\<close> is the same.\<close>

definition TestEnv2_runTest ::
  "(runnable set \<Rightarrow> runnable list) \<Rightarrow> (UUID set \<Rightarrow> UUID list) \<Rightarrow> nat \<Rightarrow> nat \<Rightarrow> two_hosts \<Rightarrow> world \<times> net \<Rightarrow> (world \<times> net) result option" where
  "TestEnv2_runTest = TestEnv1_runTest"

definition TestEnv3_runTest ::
  "nat \<Rightarrow> (runnable set \<Rightarrow> runnable list) \<Rightarrow> (UUID set \<Rightarrow> UUID list) \<Rightarrow> nat \<Rightarrow> nat \<Rightarrow> star \<Rightarrow> world \<times> net \<Rightarrow> (world \<times> net) result option" where
  "TestEnv3_runTest timeout ord uord fuel n e =
     run_twice ord fuel n (makeTime (of_nat timeout) SEC)
       (clean_up uord (server_host e) # map (clean_up uord) (client_hosts e) @
        with_host (server_host e) (finalizeHostModule ''TCP'') #
        map (\<lambda>c. with_host c (finalizeHostModule ''TCP'')) (client_hosts e))
       (makeTime (1000 + of_nat timeout) SEC)"

section \<open>What cleaning up a host does\<close>

text \<open>The application that is blocked in a system call of a host.\<close>

definition blocked_in :: "host \<Rightarrow> UUID \<Rightarrow> runnable option" where
  "blocked_in h u = Option.bind (syscallMap h u) (\<lambda>pid. map_option application (processInfoMap h pid))"

text \<open>Every pending call has a waiting application, and no application waits for two calls.\<close>

definition calls_wait :: "host \<Rightarrow> env \<Rightarrow> bool" where
  "calls_wait h e \<longleftrightarrow>
     (\<forall>u \<in> dom (syscallMap h). \<exists>r a. blocked_in h u = Some r \<and> apps e r = Some a \<and> app_state a = WAITING) \<and>
     inj_on (blocked_in h) (dom (syscallMap h))"

text \<open>An application let go with a failed call.\<close>

definition let_go :: "app \<Rightarrow> app" where
  "let_go a = a\<lparr>syscallRet := - 1, app_state := READY\<rparr>"

definition let_go_all :: "runnable set \<Rightarrow> env \<Rightarrow> env" where
  "let_go_all R e = e\<lparr>apps := (\<lambda>r. if r \<in> R then map_option let_go (apps e r) else apps e r)\<rparr>"

lemma calls_wait_step:
  assumes "calls_wait h e" and "syscallMap h u = Some pid"
  obtains r where "blocked_in h u = Some r"
    "\<And>s. returnSystemCall u (- 1) (h, e, s) =
      Inr (h\<lparr>syscallMap := (syscallMap h)(u := None)\<rparr>, let_go_all {r} e, addRunnable r s)"
    "calls_wait (h\<lparr>syscallMap := (syscallMap h)(u := None)\<rparr>) (let_go_all {r} e)"
proof -
  let ?h = "h\<lparr>syscallMap := (syscallMap h)(u := None)\<rparr>"
  obtain r a where a: "blocked_in h u = Some r" "apps e r = Some a" "app_state a = WAITING"
    using assms unfolding calls_wait_def by blast
  then obtain info where info: "processInfoMap h pid = Some info" "application info = r"
    using assms(2) by (auto simp: blocked_in_def bind_eq_Some_conv)
  have same: "blocked_in ?h v = blocked_in h v" if "v \<noteq> u" for v using that by (simp add: blocked_in_def)
  have "pending u pid info a h e" using assms(2) a(2,3) info by (simp add: pending_def)
  from returnSystemCall_pending [OF this] have run: "returnSystemCall u (- 1) (h, e, s) =
      Inr (?h, let_go_all {r} e, addRunnable r s)" for s
    using info a(2) by (simp add: let_go_all_def let_go_def fun_upd_def if_distrib cong: if_cong)
  have inj: "inj_on (blocked_in h) (dom (syscallMap h))" using assms(1) by (simp add: calls_wait_def)
  have ne: "blocked_in h v \<noteq> Some r" if "v \<in> dom (syscallMap h)" "v \<noteq> u" for v
    using inj_onD [OF inj, of v u] that a(1) assms(2) by auto
  have "\<exists>q b. blocked_in ?h v = Some q \<and> apps (let_go_all {r} e) q = Some b \<and> app_state b = WAITING"
    if "v \<in> dom (syscallMap ?h)" for v
  proof -
    have v: "v \<in> dom (syscallMap h)" "v \<noteq> u" using that by (auto split: if_splits)
    with assms(1) obtain q b where "blocked_in h v = Some q" "apps e q = Some b" "app_state b = WAITING"
      unfolding calls_wait_def by blast
    with ne [OF v] same [OF v(2)] show ?thesis by (auto simp: let_go_all_def)
  qed
  moreover have "inj_on (blocked_in ?h) (dom (syscallMap ?h))"
    using inj same by (auto simp: inj_on_def split: if_splits)
  ultimately have "calls_wait ?h (let_go_all {r} e)" unfolding calls_wait_def by blast
  with that a(1) run show thesis by blast
qed

lemma let_go_all_insert: "r \<notin> R \<Longrightarrow> let_go_all R (let_go_all {r} e) = let_go_all (insert r R) e"
  by (auto simp: let_go_all_def fun_eq_iff)

lemma return_all:
  assumes "calls_wait h e" and "distinct us" and "set us \<subseteq> dom (syscallMap h)"
  shows "foldE (\<lambda>u. returnSystemCall u (- 1)) us (h, e, s) =
    Inr (h\<lparr>syscallMap := syscallMap h |` (- set us)\<rparr>, let_go_all {r. \<exists>u \<in> set us. blocked_in h u = Some r} e,
         s\<lparr>runnableReady := {r. \<exists>u \<in> set us. blocked_in h u = Some r} \<union> runnableReady s\<rparr>)"
  using assms
proof (induction us arbitrary: h e s)
  case Nil
  have "let_go_all {} e = e" by (simp add: let_go_all_def)
  then show ?case by simp
next
  case (Cons u us)
  let ?h = "h\<lparr>syscallMap := (syscallMap h)(u := None)\<rparr>"
  from Cons.prems obtain pid where pid: "syscallMap h u = Some pid" by auto
  obtain r where r: "blocked_in h u = Some r" "returnSystemCall u (- 1) (h, e, s) =
      Inr (?h, let_go_all {r} e, addRunnable r s)" "calls_wait ?h (let_go_all {r} e)"
    using calls_wait_step [OF Cons.prems(1) pid] by blast
  let ?R = "{r. \<exists>u \<in> set us. blocked_in h u = Some r}"
  have u: "u \<notin> set us" "set us \<subseteq> dom (syscallMap ?h)" "distinct us" using Cons.prems(2,3) by auto
  have same: "{r. \<exists>u \<in> set us. blocked_in ?h u = Some r} = ?R" using u(1) by (auto simp: blocked_in_def split: if_splits)
  have "r \<notin> ?R"
    using Cons.prems r(1) u(1) by (auto simp: calls_wait_def inj_on_def subset_iff) (metis domI)
  note go = let_go_all_insert [OF this, of e]
  have R: "{r. \<exists>u \<in> set (u # us). blocked_in h u = Some r} = insert r ?R" using r(1) by auto
  have "syscallMap ?h |` (- set us) = syscallMap h |` (- set (u # us))" by (auto simp: restrict_map_def fun_eq_iff)
  then have h: "?h\<lparr>syscallMap := syscallMap ?h |` (- set us)\<rparr> = h\<lparr>syscallMap := syscallMap h |` (- set (u # us))\<rparr>" by simp
  show ?case
    unfolding foldE.simps r(2) bindE_Inr Cons.IH [OF r(3) u(3,2), unfolded same] h R go
    by (simp add: addRunnable_def)
qed

lemma cleanUp_effect:
  assumes "calls_wait h e" and "enumerates uord" and "finite (dom (syscallMap h))"
  shows "cleanUp uord (h, e, s) =
    Inr (int (card (dom (syscallMap h))), h\<lparr>running := False, syscallMap := Map.empty\<rparr>,
      let_go_all {r. \<exists>u. blocked_in h u = Some r} e,
      s\<lparr>runnableReady := {r. \<exists>u. blocked_in h u = Some r} \<union> runnableReady s\<rparr>)"
proof -
  let ?h = "h\<lparr>running := False\<rparr>" and ?us = "uord (dom (syscallMap h))"
  have us: "distinct ?us" "set ?us = dom (syscallMap h)" using assms(2,3) by (simp_all add: enumerates_def)
  have same: "blocked_in ?h = blocked_in h" by (simp add: blocked_in_def fun_eq_iff)
  have "calls_wait ?h e" using assms(1) by (simp add: calls_wait_def same)
  note all = return_all [OF this us(1), of s]
  have "\<exists>u \<in> dom (syscallMap h). blocked_in h u = Some r" if "blocked_in h u = Some r" for u r
    using that by (auto simp: blocked_in_def bind_eq_Some_conv)
  then have "{r. \<exists>u \<in> dom (syscallMap h). blocked_in h u = Some r} = {r. \<exists>u. blocked_in h u = Some r}" by blast
  moreover have "syscallMap h |` (- dom (syscallMap h)) = Map.empty" by (auto simp: restrict_map_def fun_eq_iff)
  moreover have "length ?us = card (dom (syscallMap h))" using us distinct_card by metis
  ultimately show ?thesis using all us by (simp add: cleanUp_def same)
qed

section \<open>Properties\<close>

text \<open>C26. \<^verbatim>\<open>cleanUp\<close> of a host lets every application go that is blocked in a system call of the host: its
  call fails with -1, it is ready and in the scheduler's ready set; no other application is touched, no
  call of the host is pending any more, the host has stopped, and the result is the number of calls that
  were pending.\<close>

theorem cleanUp_lets_go:
  assumes "calls_wait h e" and "enumerates uord" and "finite (dom (syscallMap h))"
  shows "cleanUp uord (h, e, s) =
    Inr (int (card (dom (syscallMap h))), h\<lparr>running := False, syscallMap := Map.empty\<rparr>,
      let_go_all {r. \<exists>u. blocked_in h u = Some r} e,
      s\<lparr>runnableReady := {r. \<exists>u. blocked_in h u = Some r} \<union> runnableReady s\<rparr>)"
  by (rule cleanUp_effect [OF assms])

theorem cleanUp_lets_go_witness:
  "cleanUp sorted_list_of_set (demo_busy_host\<lparr>syscallMap := [7 \<mapsto> 0]\<rparr>, demo_env, initial_system) =
     Inr (1, demo_busy_host\<lparr>syscallMap := Map.empty, running := False\<rparr>,
       demo_env\<lparr>apps := [0 \<mapsto> demo_waiting\<lparr>syscallRet := - 1, app_state := READY\<rparr>]\<rparr>,
       initial_system\<lparr>runnableReady := {0}\<rparr>)"
proof -
  let ?h = "demo_busy_host\<lparr>syscallMap := [7 \<mapsto> 0]\<rparr>"
  have b: "blocked_in ?h u = (if u = 7 then Some 0 else None)" for u
    by (simp add: blocked_in_def demo_busy(1)) (simp add: demo_process_def)
  then have R: "{r. \<exists>u. blocked_in ?h u = Some r} = {0}" by auto
  have "calls_wait ?h demo_env" by (simp add: calls_wait_def b demo_env_def demo_waiting_def inj_on_def)
  moreover have "enumerates (sorted_list_of_set :: UUID set \<Rightarrow> UUID list)" by (simp add: enumerates_def)
  moreover have "finite (dom (syscallMap ?h))" "card (dom (syscallMap ?h)) = 1" by simp_all
  moreover have "let_go_all {0} demo_env = demo_env\<lparr>apps := [0 \<mapsto> demo_waiting\<lparr>syscallRet := - 1, app_state := READY\<rparr>]\<rparr>"
    by (simp add: let_go_all_def let_go_def demo_env_def fun_eq_iff)
  ultimately show ?thesis
    using cleanUp_lets_go [of ?h demo_env sorted_list_of_set initial_system, unfolded R]
    by (simp add: initial_system_def)
qed

end
