(* ===== verification/Route_Fixture.thy ===== *)
theory Route_Fixture
  imports Routing_Tests Test_Runs
begin

text \<open>
  The fixture \<^verbatim>\<open>RouteTesting\<close> of the routing tests: the network for a weighted graph. Every edge
  becomes a switch with a wire to each of its two routers; the speed of the wires is the cost
  constant divided by the cost of the edge, and the addresses come from two counters.
\<close>

section \<open>Definitions\<close>

text \<open>The loops of \<^verbatim>\<open>mac_addr\<close> and \<^verbatim>\<open>network_addr\<close>: base 256 from position \<open>i\<close> down to 1, and what is
  left of the number.\<close>

fun fill_bytes :: "nat \<Rightarrow> nat \<Rightarrow> bytes \<Rightarrow> nat \<times> bytes" where
  "fill_bytes 0 n a = (n, a)"
| "fill_bytes (Suc i) n a = (if n > 0 then fill_bytes i (n div 256) (a[Suc i := of_nat (n mod 256)]) else (n, a))"

definition mac_addr :: "nat \<Rightarrow> mac_t result" where
  "mac_addr mac_id =
     (let (rest, mac) = fill_bytes 5 mac_id [0xBC, 0, 0, 0, 0, 0]
      in bindE (assertE (rest = 0)) (\<lambda>_. Inr mac))"

definition network_addr :: "nat \<Rightarrow> ipv4_t result" where
  "network_addr network_id =
     (let (rest, network) = fill_bytes 2 network_id [10, 0, 0, 0]
      in bindE (assertE (rest = 0)) (\<lambda>_. Inr network))"

record route_testing =
  routers :: "ModuleID list"
  next_mac_id :: nat
  next_network_id :: nat
  switches :: "ModuleID list"

definition RouteTesting_new :: route_testing where
  "RouteTesting_new = \<lparr>routers = [], next_mac_id = 1, next_network_id = 1, switches = []\<rparr>"

type_synonym fixture = "route_testing \<times> world \<times> net"

definition install_router :: "nat \<Rightarrow> fixture \<Rightarrow> fixture result" where
  "install_router i st =
     (case st of (t, st) \<Rightarrow> bindE (addHost st) (\<lambda>(r, st). Inr (t\<lparr>routers := routers t @ [r]\<rparr>, st)))"

text \<open>\<open>eng\<close> gives the engines of the switch of a network.\<close>

definition connect_routers :: "(nat \<Rightarrow> engine \<times> engine) \<Rightarrow> edge \<Rightarrow> fixture \<Rightarrow> fixture result" where
  "connect_routers eng e st =
     (case (e, st) of ((i, j, cost), t, st) \<Rightarrow>
       let network_id = next_network_id t in
       bindE (network_addr network_id) (\<lambda>network.
       bindE (addSwitch (fst (eng network_id)) (snd (eng network_id)) False st) (\<lambda>(sw, st).
       bindE (if cost = 0 then Inl OutOfRange else Inr (CostLCM div of_nat cost)) (\<lambda>bps.
       bindE (indexE (routers t) i) (\<lambda>ri.
       bindE (indexE (routers t) j) (\<lambda>rj.
       bindE (addWire ri sw 1000000 bps True st) (\<lambda>(_, i_port, i_sw, st).
       bindE (addWire rj sw 1000000 bps True st) (\<lambda>(_, j_port, j_sw, st).
       bindE (mac_addr (next_mac_id t)) (\<lambda>i_mac.
       bindE (mac_addr (next_mac_id t + 1)) (\<lambda>j_mac.
         let i_ipv4 = network[3 := 1]; j_ipv4 = network[3 := 2] in
         bindE (perform
           [setMAC ri i_mac i_port, setARP ri j_mac j_ipv4, setIP ri i_ipv4 i_port, setRoute ri network 24 i_port,
            setMAC rj j_mac j_port, setARP rj i_mac i_ipv4, setIP rj j_ipv4 j_port, setRoute rj network 24 j_port,
            with_switch sw (addMACEntry i_sw i_mac), with_switch sw (addMACEntry j_sw j_mac),
            with_switch sw (\<lambda>x. Inr (enablePCAPLogging 65535 x))] st) (\<lambda>st.
           Inr (t\<lparr>next_network_id := network_id + 1, next_mac_id := next_mac_id t + 2,
                  switches := switches t @ [sw]\<rparr>, st))))))))))))"

definition initialize_router :: "host_class \<Rightarrow> string \<Rightarrow> ModuleID \<Rightarrow> world \<times> net \<Rightarrow> (world \<times> net) result" where
  "initialize_router cls name r =
     perform [with_host r (addHostModule EthernetC), with_host r (addHostModule IPv4C),
              with_host r (addHostModule cls), with_host r (initializeHostModule name)]"

text \<open>\<^verbatim>\<open>setupGraph\<close> of the RIP tests, with class \<^verbatim>\<open>RIPAssignment\<close> and module name UDP, and of the OSPF
  tests, with \<^verbatim>\<open>PWOSPFAssignment\<close> and OSPF.\<close>

definition setupGraph ::
  "host_class \<Rightarrow> string \<Rightarrow> nat \<Rightarrow> (nat \<Rightarrow> engine \<times> engine) \<Rightarrow> edge list \<Rightarrow> fixture \<Rightarrow> fixture result" where
  "setupGraph cls name n eng g st =
     bindE (foldE install_router [0..<n] st) (\<lambda>st.
     bindE (foldE (connect_routers eng) g st) (\<lambda>(t, st).
     bindE (foldE (initialize_router cls name) (routers t) st) (\<lambda>st.
       Inr (t, st))))"

text \<open>\<^verbatim>\<open>doTesting\<close>: the expectations of a test vector, as the list of their outcomes.\<close>

definition query_cost :: "string \<Rightarrow> ModuleID \<Rightarrow> ipv4_t \<Rightarrow> world \<Rightarrow> Size result" where
  "query_cost name r ip w =
     (case modules w r of
        Some (HostM h) \<Rightarrow>
          bindE (diagnoseHostModule name (AnyIPv4 ip) h) (\<lambda>v. case v of AnySize c \<Rightarrow> Inr c | _ \<Rightarrow> Inl BadCast)
      | _ \<Rightarrow> Inl NullDeref)"

definition port_ip :: "ModuleID \<Rightarrow> int \<Rightarrow> world \<Rightarrow> ipv4_t result" where
  "port_ip r port w =
     (case modules w r of
        Some (HostM h) \<Rightarrow> (case getIPAddr (routing h) port of None \<Rightarrow> Inl BadOptional | Some ip \<Rightarrow> Inr ip)
      | _ \<Rightarrow> Inl NullDeref)"

definition port_count :: "ModuleID \<Rightarrow> world \<Rightarrow> nat result" where
  "port_count r w =
     (case modules w r of Some (HostM h) \<Rightarrow> Inr (length (h_ports h)) | _ \<Rightarrow> Inl NullDeref)"

definition expect_cost :: "string \<Rightarrow> ModuleID \<Rightarrow> ModuleID \<Rightarrow> nat \<Rightarrow> world \<Rightarrow> nat \<Rightarrow> bool list \<Rightarrow> bool list result" where
  "expect_cost name r r' cost w port outcomes =
     bindE (port_ip r (int port) w) (\<lambda>ip.
     bindE (query_cost name r' ip w) (\<lambda>c. Inr (outcomes @ [c = of_nat cost])))"

definition doTesting :: "string \<Rightarrow> edge list \<Rightarrow> fixture \<Rightarrow> bool list result" where
  "doTesting name v st =
     (case st of (t, w, s) \<Rightarrow>
       foldE (\<lambda>(i, j, cost) outcomes.
         bindE (indexE (routers t) i) (\<lambda>ri.
         bindE (indexE (routers t) j) (\<lambda>rj.
         bindE (port_count ri w) (\<lambda>ni.
         bindE (foldE (expect_cost name ri rj cost w) [0..<ni] outcomes) (\<lambda>outcomes.
         bindE (port_count rj w) (\<lambda>nj.
           foldE (expect_cost name rj ri cost w) [0..<nj] outcomes)))))) v [])"

text \<open>\<^verbatim>\<open>doTesting\<close> of the OSPF tests asks for the first port of each router only.\<close>

definition doTesting_ospf :: "edge list \<Rightarrow> fixture \<Rightarrow> bool list result" where
  "doTesting_ospf v st =
     (case st of (t, w, s) \<Rightarrow>
       foldE (\<lambda>(i, j, cost) outcomes.
         bindE (indexE (routers t) i) (\<lambda>ri.
         bindE (indexE (routers t) j) (\<lambda>rj.
         bindE (expect_cost ''OSPF'' ri rj cost w 0 outcomes) (\<lambda>outcomes.
           expect_cost ''OSPF'' rj ri cost w 0 outcomes)))) v [])"

definition setupGraph_rip :: "nat \<Rightarrow> (nat \<Rightarrow> engine \<times> engine) \<Rightarrow> edge list \<Rightarrow> fixture \<Rightarrow> fixture result" where
  "setupGraph_rip = setupGraph RIPAssignmentC ''UDP''"

definition setupGraph_ospf :: "nat \<Rightarrow> (nat \<Rightarrow> engine \<times> engine) \<Rightarrow> edge list \<Rightarrow> fixture \<Rightarrow> fixture result" where
  "setupGraph_ospf = setupGraph PWOSPFAssignmentC ''OSPF''"

definition cleanUpGraph :: "string \<Rightarrow> (UUID set \<Rightarrow> UUID list) \<Rightarrow> fixture \<Rightarrow> fixture result" where
  "cleanUpGraph name uord st =
     (case st of (t, st) \<Rightarrow>
       bindE (perform (concat (map (\<lambda>r. [clean_up uord r, with_host r (finalizeHostModule name)]) (routers t))) st) (\<lambda>st.
         Inr (t, st)))"

text \<open>\<^verbatim>\<open>runTest\<close> of a routing test: a long run, the queries, and a run after the routers have been stopped. The
  limit of the second run lies before the end of the first one.\<close>

definition routing_run_time :: Size where "routing_run_time = 3000"

definition routing_runTest ::
  "string \<Rightarrow> (edge list \<Rightarrow> fixture \<Rightarrow> bool list result) \<Rightarrow> (runnable set \<Rightarrow> runnable list) \<Rightarrow> (UUID set \<Rightarrow> UUID list) \<Rightarrow> nat \<Rightarrow> nat \<Rightarrow>
     routing_env \<Rightarrow> fixture \<Rightarrow> (bool list \<times> fixture) result option" where
  "routing_runTest name ask ord uord fuel n env st =
     (case st of (t, st) \<Rightarrow>
       (case run ord (net_callbacks fuel) n (makeTime routing_run_time SEC) st of
          None \<Rightarrow> None
        | Some (Inl e) \<Rightarrow> Some (Inl e)
        | Some (Inr st) \<Rightarrow>
            (case bindE (ask (test_vector env) (t, st)) (\<lambda>outcomes.
                  bindE (cleanUpGraph name uord (t, st)) (\<lambda>(t, st). Inr (outcomes, st))) of
               Inl e \<Rightarrow> Some (Inl e)
             | Inr (outcomes, st) \<Rightarrow>
                 map_option (\<lambda>r. bindE r (\<lambda>st. Inr (outcomes, t, st))) (run ord (net_callbacks fuel) n (makeTime 2000 SEC) st))))"

section \<open>Adding to a network\<close>

text \<open>What the set-up of an edge does to one of its two routers.\<close>

definition attach :: "ModuleID \<Rightarrow> mac_t \<Rightarrow> ipv4_t \<Rightarrow> mac_t \<Rightarrow> ipv4_t \<Rightarrow> ipv4_t \<Rightarrow> host \<Rightarrow> host" where
  "attach v mac ip peer_mac peer_ip network h =
     (let p = int (length (h_ports h)) in
      h\<lparr>h_ports := h_ports h @ [v],
        routing := setRoutingTable network 24 p (setIPAddr ip p (setARPTable peer_mac peer_ip (setMACAddr mac p (routing h))))\<rparr>)"

definition edge_switch :: "engine \<times> engine \<Rightarrow> ModuleID \<Rightarrow> mac_t \<Rightarrow> ModuleID \<Rightarrow> mac_t \<Rightarrow> switch" where
  "edge_switch g vi i_mac vj j_mac =
     enablePCAPLogging 65535 (Switch_new (fst g) (snd g) False\<lparr>l_ports := [vi, vj],
       mac_table := [vi \<mapsto> {arrayToUINT64 i_mac}, vj \<mapsto> {arrayToUINT64 j_mac}]\<rparr>)"

definition with_edge ::
  "net \<Rightarrow> switch \<Rightarrow> host \<Rightarrow> host \<Rightarrow> nat \<Rightarrow> ModuleID \<Rightarrow> ModuleID \<Rightarrow> (nat \<Rightarrow> ModuleID) \<Rightarrow> world \<Rightarrow> world" where
  "with_edge s sw hi hj cost ri rj m w =
     w\<lparr>modules := (modules w)(m (Suc 0) \<mapsto> SwitchM sw,
          m 2 \<mapsto> WireM (Wire_new ri (m (Suc 0)) 1000000 (CostLCM div of_nat cost) True s),
          m 3 \<mapsto> WireM (Wire_new rj (m (Suc 0)) 1000000 (CostLCM div of_nat cost) True s),
          ri \<mapsto> HostM hi, rj \<mapsto> HostM hj),
       next_module_id := m 4\<rparr>"

text \<open>The set-up of one edge, on a network where the next three identifiers \<open>m0\<close>, \<open>m1\<close> and \<open>m2\<close> are free.\<close>

lemma connect_eq:
  fixes w :: world
  assumes routers: "indexE (routers t) i = Inr ri" "indexE (routers t) j = Inr rj"
    and hosts: "modules w ri = Some (HostM hi)" "modules w rj = Some (HostM hj)" "ri \<noteq> rj"
    and m: "m (Suc 0) = m0" "m 2 = m1" "m 3 = m2" "m 4 = m3"
    and ids: "next_module_id w = m0" "m0 + 1 = m1" "m1 + 1 = m2" "m2 + 1 = m3" "m0 \<noteq> m1" "m0 \<noteq> m2" "m1 \<noteq> m2"
    and reg: "m0 \<notin> registeredModule s" "m1 \<notin> registeredModule s" "m2 \<notin> registeredModule s"
    and free: "modules w m0 = None" "modules w m1 = None" "modules w m2 = None"
    and addr: "network_addr (next_network_id t) = Inr network" "mac_addr (next_mac_id t) = Inr im"
      "mac_addr (next_mac_id t + 1) = Inr jm"
    and cost: "cost \<noteq> 0"
  shows "connect_routers eng (i, j, cost) (t, w, s) =
    Inr (t\<lparr>next_network_id := next_network_id t + 1, next_mac_id := next_mac_id t + 2, switches := switches t @ [m0]\<rparr>,
      with_edge s (edge_switch (eng (next_network_id t)) m1 im m2 jm)
        (attach m1 im (network[3 := 1]) jm (network[3 := 2]) network hi)
        (attach m2 jm (network[3 := 2]) im (network[3 := 1]) network hj) cost ri rj m w,
      s\<lparr>registeredModule := insert m2 (insert m1 (insert m0 (registeredModule s)))\<rparr>)"
proof -
  have ne: "ri \<noteq> m0" "rj \<noteq> m0" "ri \<noteq> m1" "rj \<noteq> m1" "ri \<noteq> m2" "rj \<noteq> m2"
    using hosts free by auto
  note ne' = ne ne [symmetric] ids(5-7) ids(5-7) [symmetric] hosts(3) hosts(3) [symmetric]
  let ?bps = "CostLCM div of_nat cost" and ?g = "eng (next_network_id t)"
  let ?x = "Switch_new (fst ?g) (snd ?g) False"
  let ?w1 = "w\<lparr>modules := (modules w)(m0 \<mapsto> SwitchM ?x), next_module_id := m1\<rparr>"
  let ?s1 = "s\<lparr>registeredModule := insert m0 (registeredModule s)\<rparr>"
  have 1: "addSwitch (fst ?g) (snd ?g) False (w, s) = Inr (m0, ?w1, ?s1)"
    using reg ids by (simp add: addSwitch_def net_addModule_def addModule_def Let_def)
  let ?w2 = "w\<lparr>modules := (modules w)(m0 \<mapsto> SwitchM (?x\<lparr>l_ports := [m1]\<rparr>),
      m1 \<mapsto> WireM (Wire_new ri m0 1000000 ?bps True s), ri \<mapsto> HostM (hi\<lparr>h_ports := h_ports hi @ [m1]\<rparr>)), next_module_id := m2\<rparr>"
  let ?s2 = "s\<lparr>registeredModule := insert m1 (insert m0 (registeredModule s))\<rparr>"
  have 2: "addWire ri m0 1000000 ?bps True (?w1, ?s1) = Inr (m1, int (length (h_ports hi)), 0, ?w2, ?s2)"
    by (subst addWire_at [where hh = hi and x = ?x])
      (use hosts(1) ids reg free ne' in \<open>simp_all add: fun_eq_iff\<close>)
  let ?w3 = "w\<lparr>modules := (modules w)(m0 \<mapsto> SwitchM (?x\<lparr>l_ports := [m1, m2]\<rparr>),
      m1 \<mapsto> WireM (Wire_new ri m0 1000000 ?bps True s), m2 \<mapsto> WireM (Wire_new rj m0 1000000 ?bps True s),
      ri \<mapsto> HostM (hi\<lparr>h_ports := h_ports hi @ [m1]\<rparr>), rj \<mapsto> HostM (hj\<lparr>h_ports := h_ports hj @ [m2]\<rparr>)), next_module_id := m3\<rparr>"
  let ?s3 = "s\<lparr>registeredModule := insert m2 (insert m1 (insert m0 (registeredModule s)))\<rparr>"
  have 3: "addWire rj m0 1000000 ?bps True (?w2, ?s2) = Inr (m2, int (length (h_ports hj)), 1, ?w3, ?s3)"
    by (subst addWire_at [where hh = hj and x = "?x\<lparr>l_ports := [m1]\<rparr>"])
      (use hosts(2) ids reg free ne' in \<open>simp_all add: fun_eq_iff\<close>)
  show ?thesis
    unfolding connect_routers_def split_conv Let_def addr routers bindE_Inr 1 2 3 if_not_P [OF cost]
    using ne' by (simp add: with_host_at with_switch_at on_routing_def addMACEntry_def attach_def edge_switch_def Let_def with_edge_def m)
     (simp add: fun_eq_iff)
qed

section \<open>The network of a graph\<close>

lemma fill_bytes_rest: "n < 256 ^ k \<Longrightarrow> fst (fill_bytes k n a) = 0"
proof (induction k n a rule: fill_bytes.induct)
  case (2 i n a)
  have "n div 256 < 256 ^ i" using "2.prems" by (simp add: div_less_iff_less_mult mult.commute)
  with "2.IH" show ?case by simp
qed simp

lemma addresses_ok:
  "n < 256 ^ 2 \<Longrightarrow> \<exists>a. network_addr n = Inr a" "n < 256 ^ 5 \<Longrightarrow> \<exists>a. mac_addr n = Inr a"
  using fill_bytes_rest [of n 2 "[10, 0, 0, 0]"] fill_bytes_rest [of n 5 "[0xBC, 0, 0, 0, 0, 0]"]
  by (simp_all add: network_addr_def mac_addr_def case_prod_unfold Let_def)

definition router_id :: "nat \<Rightarrow> ModuleID" where
  "router_id r = of_nat (Suc r)"

fun incident :: "nat \<Rightarrow> edge \<Rightarrow> bool" where
  "incident r (i, j, c) \<longleftrightarrow> r = i \<or> r = j"

fun valid_edge :: "nat \<Rightarrow> edge \<Rightarrow> bool" where
  "valid_edge n (i, j, c) \<longleftrightarrow> i < n \<and> j < n \<and> i \<noteq> j \<and> 1 \<le> c \<and> c \<le> MaxCost"

text \<open>A wire made for an edge.\<close>

definition wire_of :: "world \<Rightarrow> ModuleID \<Rightarrow> edge \<Rightarrow> bool" where
  "wire_of w v e \<longleftrightarrow> (\<exists>x. modules w v = Some (WireM x) \<and> w_bps x = CostLCM div of_nat (snd (snd e)))"

text \<open>Every port has an address.\<close>

definition addressed :: "nat \<Rightarrow> routing_info \<Rightarrow> bool" where
  "addressed n rt \<longleftrightarrow> (\<forall>p < n. getIPAddr rt (int p) \<noteq> None)"

text \<open>What holds when \<open>n\<close> routers have been added and the edges \<open>es\<close> connected: the ports of a router
  are wires made for the edges at it, in order.\<close>

definition fixture_inv :: "nat \<Rightarrow> edge list \<Rightarrow> fixture \<Rightarrow> bool" where
  "fixture_inv n es st \<longleftrightarrow>
     (case st of (t, w, s) \<Rightarrow>
       routers t = map router_id [0..<n] \<and> next_network_id t = Suc (length es) \<and> next_mac_id t = Suc (2 * length es) \<and>
       next_module_id w = of_nat (Suc (n + 3 * length es)) \<and>
       registeredModule s = of_nat ` {1..n + 3 * length es} \<and> dom (modules w) = of_nat ` {1..n + 3 * length es} \<and>
       (\<forall>r < n. \<exists>ports rt. modules w (router_id r) = Some (HostM (bare_host ports\<lparr>routing := rt\<rparr>)) \<and>
          addressed (length ports) rt \<and> list_all2 (wire_of w) ports (filter (incident r) es)))"

lemma fixture_inv_start: "fixture_inv 0 [] (RouteTesting_new, NetworkSystem_new)"
  unfolding fixture_inv_def RouteTesting_new_def NetworkSystem_new_def initial_system_def split_conv by simp

lemma fixture_ids:
  assumes "a < 2 ^ 64" and "b < 2 ^ 64"
  shows "(of_nat a :: u64) \<in> of_nat ` {1..b} \<longleftrightarrow> a \<in> {1..b}"
proof
  assume "(of_nat a :: u64) \<in> of_nat ` {1..b}"
  then obtain k where k: "k \<in> {1..b}" "(of_nat a :: u64) = of_nat k" by (rule imageE) blast
  then have "k < 2 ^ 64" using assms(2) by simp
  with k assms(1) have "a = k" using of_nat_eq_u64 by blast
  with k(1) show "a \<in> {1..b}" by simp
qed (rule imageI)

lemma install_router_inv:
  assumes "fixture_inv n [] st" and "Suc n < 2 ^ 64"
  shows "\<exists>st'. install_router i st = Inr st' \<and> fixture_inv (Suc n) [] st'"
proof -
  obtain t w s where st: "st = (t, w, s)" by (cases st)
  note I = assms(1) [unfolded fixture_inv_def st split_conv]
  let ?m = "of_nat (Suc n) :: ModuleID"
  have m: "next_module_id w = ?m" using I by simp
  have fresh: "?m \<notin> registeredModule s" "modules w ?m = None"
    using I fixture_ids [of "Suc n" n] assms(2) by (auto simp: domIff)
  have ne: "router_id r \<noteq> ?m" if "r < n" for r
    using of_nat_eq_u64 [of "Suc r" "Suc n"] that assms(2) by (simp add: router_id_def)
  let ?w = "w\<lparr>modules := (modules w)(?m \<mapsto> HostM (bare_host [])), next_module_id := ?m + 1\<rparr>"
  let ?s = "s\<lparr>registeredModule := insert ?m (registeredModule s)\<rparr>"
  have run: "install_router i st = Inr (t\<lparr>routers := routers t @ [?m]\<rparr>, ?w, ?s)"
    using fresh m by (simp add: st install_router_def addHost_def Host_new_bare net_addModule_def addModule_def Let_def)
  have "\<exists>ports rt. modules ?w (router_id r) = Some (HostM (bare_host ports\<lparr>routing := rt\<rparr>)) \<and> ports = []"
    if "r < Suc n" for r
  proof (cases "r = n")
    case True
    then show ?thesis
      by (intro exI [of _ "[]"] exI [of _ empty_routing]) (simp add: router_id_def bare_host_def)
  next
    case False
    with that have "r < n" by simp
    with I ne [OF this] show ?thesis by auto
  qed
  with I have "fixture_inv (Suc n) [] (t\<lparr>routers := routers t @ [?m]\<rparr>, ?w, ?s)"
    by (auto simp: fixture_inv_def router_id_def atLeastAtMostSuc_conv addressed_def)
  with run show ?thesis by blast
qed

lemma install_routers_inv:
  assumes "Suc n < 2 ^ 64"
  shows "\<exists>st'. foldE install_router [0..<n] (RouteTesting_new, NetworkSystem_new) = Inr st' \<and> fixture_inv n [] st'"
  using assms
proof (induction n)
  case 0
  show ?case using fixture_inv_start by simp
next
  case (Suc n)
  then obtain st' where "foldE install_router [0..<n] (RouteTesting_new, NetworkSystem_new) = Inr st'" "fixture_inv n [] st'"
    by auto
  with install_router_inv [of n st' n] Suc.prems show ?case by (auto simp: foldE_append)
qed

lemma fixture_invD:
  assumes "fixture_inv n es (t, w, s)"
  shows "routers t = map router_id [0..<n]" "next_network_id t = Suc (length es)" "next_mac_id t = Suc (2 * length es)"
    "next_module_id w = of_nat (Suc (n + 3 * length es))" "registeredModule s = of_nat ` {1..n + 3 * length es}"
    "dom (modules w) = of_nat ` {1..n + 3 * length es}"
    "r < n \<Longrightarrow> \<exists>ports rt. modules w (router_id r) = Some (HostM (bare_host ports\<lparr>routing := rt\<rparr>)) \<and>
       addressed (length ports) rt \<and> list_all2 (wire_of w) ports (filter (incident r) es)"
  using assms unfolding fixture_inv_def split_conv by blast+

text \<open>Connecting an edge leaves the wires there are and adds two for the edge.\<close>

lemma with_edge_wires:
  fixes s :: net and sw :: switch and hi hj :: host and c :: nat
  assumes "modules w ri = Some (HostM hi0)" and "modules w rj = Some (HostM hj0)"
    and "\<forall>d. 0 < d \<and> d < 4 \<longrightarrow> modules w (m d) = None" and "m 2 \<noteq> m 3"
  defines "w' \<equiv> with_edge s sw hi hj c ri rj m w"
  shows "modules w v \<noteq> None \<Longrightarrow> v \<noteq> ri \<Longrightarrow> v \<noteq> rj \<Longrightarrow> modules w' v = modules w v"
    "list_all2 (wire_of w) ps es \<Longrightarrow> list_all2 (wire_of w') ps es"
    "wire_of w' (m 2) (i, j, c)" "wire_of w' (m 3) (i, j, c)"
proof -
  have m: "modules w (m (Suc 0)) = None" "modules w (m 2) = None" "modules w (m 3) = None" using assms(3) by (simp_all del: One_nat_def)
  show keep: "modules w' v = modules w v" if "modules w v \<noteq> None" "v \<noteq> ri" "v \<noteq> rj" for v
  proof -
    have "v \<noteq> m (Suc 0)" "v \<noteq> m 2" "v \<noteq> m 3" using that(1) m by auto
    with that show ?thesis by (simp add: w'_def with_edge_def)
  qed
  have "wire_of w' v a" if "wire_of w v a" for v a
  proof -
    from that obtain x where x: "modules w v = Some (WireM x)" "w_bps x = CostLCM div of_nat (snd (snd a))"
      by (auto simp: wire_of_def)
    then have "v \<noteq> ri" "v \<noteq> rj" using assms(1,2) by auto
    with keep x show ?thesis by (simp add: wire_of_def)
  qed
  then show "list_all2 (wire_of w) ps es \<Longrightarrow> list_all2 (wire_of w') ps es" by (auto elim: list_all2_mono)
  show "wire_of w' (m 2) (i, j, c)" "wire_of w' (m 3) (i, j, c)"
    using assms(1,2,4) m by (auto simp: w'_def with_edge_def wire_of_def Wire_new_def)
qed

lemma getIPAddr_set:
  "getIPAddr (setIPAddr ip q r) p = (case getIPAddr r p of None \<Rightarrow> if p = q then Some ip else None | Some a \<Rightarrow> Some a)"
  "getIPAddr (setRoutingTable nw k q r) p = getIPAddr r p" "getIPAddr (setARPTable mac ip r) p = getIPAddr r p"
  "getIPAddr (setMACAddr mac q r) p = getIPAddr r p"
  by (auto simp: getIPAddr_def setIPAddr_def setRoutingTable_def setARPTable_def setMACAddr_def find_append split: option.splits)

lemma attach_bare:
  "\<exists>rt'. attach v mac ip pm pip nw (bare_host ps\<lparr>routing := rt\<rparr>) = bare_host (ps @ [v])\<lparr>routing := rt'\<rparr> \<and>
     (addressed (length ps) rt \<longrightarrow> addressed (Suc (length ps)) rt')"
  by (rule exI, rule conjI)
    (simp add: attach_def Let_def bare_host_def, auto simp: addressed_def getIPAddr_set less_Suc_eq bare_host_def split: option.splits)

lemma with_edge_hosts:
  assumes "r < n" and ij: "i < n" "j < n" "i \<noteq> j"
    and rid: "\<And>a b. a < n \<Longrightarrow> b < n \<Longrightarrow> router_id a = router_id b \<longleftrightarrow> a = b"
    and H: "modules w (router_id i) = Some (HostM (bare_host pa\<lparr>routing := ti\<rparr>))"
      "modules w (router_id j) = Some (HostM (bare_host pb\<lparr>routing := tj\<rparr>))"
    and free: "\<forall>d. 0 < d \<and> d < 4 \<longrightarrow> modules w (m d) = None" and md: "m 2 \<noteq> m 3"
    and P: "modules w (router_id r) = Some (HostM (bare_host ports\<lparr>routing := rt\<rparr>))"
      "list_all2 (wire_of w) ports (filter (incident r) es)" "addressed (length ports) rt"
    and hi: "hi = attach (m 2) ai bi ci di ei (bare_host pa\<lparr>routing := ti\<rparr>)"
    and hj: "hj = attach (m 3) aj bj cj dj ej (bare_host pb\<lparr>routing := tj\<rparr>)"
  shows "\<exists>ports rt. modules (with_edge s sw hi hj c (router_id i) (router_id j) m w) (router_id r) =
      Some (HostM (bare_host ports\<lparr>routing := rt\<rparr>)) \<and> addressed (length ports) rt \<and>
    list_all2 (wire_of (with_edge s sw hi hj c (router_id i) (router_id j) m w)) ports (filter (incident r) (es @ [(i, j, c)]))"
proof -
  note W = with_edge_wires [OF H free md, where s = s and sw = sw and hi = hi and hj = hj and c = c]
  obtain ri rj where A: "hi = bare_host (pa @ [m 2])\<lparr>routing := ri\<rparr>" "hj = bare_host (pb @ [m 3])\<lparr>routing := rj\<rparr>"
      "addressed (length pa) ti \<longrightarrow> addressed (Suc (length pa)) ri" "addressed (length pb) tj \<longrightarrow> addressed (Suc (length pb)) rj"
    using hi hj attach_bare by metis
  consider "r = i" | "r = j" | "r \<noteq> i" "r \<noteq> j" by blast
  then show ?thesis
  proof cases
    case 1
    then have "ports = pa" "rt = ti" using P(1) H(1) by (simp_all add: bare_host_def)
    with 1 W(2) [OF P(2)] W(3) rid ij P(3) A(3) show ?thesis
      by (intro exI [of _ "pa @ [m 2]"] exI [of _ ri]) (simp add: with_edge_def A(1) list_all2_appendI)
  next
    case 2
    then have "ports = pb" "rt = tj" using P(1) H(2) by (simp_all add: bare_host_def)
    with 2 W(2) [OF P(2)] W(4) P(3) A(4) show ?thesis
      by (intro exI [of _ "pb @ [m 3]"] exI [of _ rj]) (simp add: with_edge_def A(2) list_all2_appendI)
  next
    case 3
    with W(1) [of "router_id r"] P W(2) [OF P(2)] rid assms(1) ij show ?thesis
      by (intro exI [of _ ports] exI [of _ rt]) simp
  qed
qed

text \<open>The identifiers of the next modules are fresh.\<close>

lemma fixture_fresh:
  assumes "fixture_inv n es (t, w, s)" and "n + 3 * length es + 4 < 2 ^ 64"
  defines "m \<equiv> \<lambda>d. of_nat (n + 3 * length es + d) :: ModuleID"
  shows "0 < d \<Longrightarrow> d < 4 \<Longrightarrow> m d \<notin> registeredModule s" "0 < d \<Longrightarrow> d < 4 \<Longrightarrow> modules w (m d) = None"
    "a < b \<Longrightarrow> b < 4 \<Longrightarrow> m a \<noteq> m b" "p < n \<Longrightarrow> q < n \<Longrightarrow> router_id p = router_id q \<longleftrightarrow> p = q"
    "m d + 1 = m (Suc d)" "next_module_id w = m (Suc 0)"
proof -
  note I = fixture_invD [OF assms(1)]
  have new: "m d \<notin> of_nat ` {1..n + 3 * length es}" if "0 < d" "d < 4" for d
    unfolding m_def using that assms(2) by (subst fixture_ids) auto
  then show "0 < d \<Longrightarrow> d < 4 \<Longrightarrow> m d \<notin> registeredModule s" "0 < d \<Longrightarrow> d < 4 \<Longrightarrow> modules w (m d) = None"
    using I(5,6) by blast+
  show "a < b \<Longrightarrow> b < 4 \<Longrightarrow> m a \<noteq> m b"
    unfolding m_def using assms(2) by (subst of_nat_eq_u64) auto
  show "p < n \<Longrightarrow> q < n \<Longrightarrow> router_id p = router_id q \<longleftrightarrow> p = q"
    unfolding router_id_def using assms(2) by (subst of_nat_eq_u64) auto
  show "m d + 1 = m (Suc d)" "next_module_id w = m (Suc 0)" using I(4) by (simp_all add: m_def)
qed

lemma connect_inv:
  assumes "fixture_inv n es st" and "valid_edge n e" and "length es < 65535" and "n + 3 * length es + 4 < 2 ^ 64"
  shows "\<exists>st'. connect_routers eng e st = Inr st' \<and> fixture_inv n (es @ [e]) st'"
proof -
  obtain t w s where st: "st = (t, w, s)" by (cases st)
  obtain i j c where e: "e = (i, j, c)" by (cases e)
  note I = fixture_invD [OF assms(1) [unfolded st]]
  define m where "m d = (of_nat (n + 3 * length es + d) :: ModuleID)" for d
  note new = fixture_fresh [OF assms(1) [unfolded st] assms(4), folded m_def]
  have V: "i < n" "j < n" "i \<noteq> j" "1 \<le> c" "c \<le> MaxCost" using assms(2) e by auto
  obtain pa ti pb tj where H: "modules w (router_id i) = Some (HostM (bare_host pa\<lparr>routing := ti\<rparr>))"
      "modules w (router_id j) = Some (HostM (bare_host pb\<lparr>routing := tj\<rparr>))"
    using I(7) [OF V(1)] I(7) [OF V(2)] by blast
  obtain network im jm where addr: "network_addr (next_network_id t) = Inr network" "mac_addr (next_mac_id t) = Inr im"
      "mac_addr (next_mac_id t + 1) = Inr jm"
    using addresses_ok(1) [of "next_network_id t"] addresses_ok(2) [of "next_mac_id t"] addresses_ok(2) [of "next_mac_id t + 1"]
      I(2,3) assms(3) by auto
  have R: "indexE (routers t) i = Inr (router_id i)" "indexE (routers t) j = Inr (router_id j)" using I(1) V by simp_all
  have none: "\<forall>d. 0 < d \<and> d < 4 \<longrightarrow> modules w (m d) = None" using new(2) by simp
  have c: "c \<noteq> 0" and ij: "router_id i \<noteq> router_id j" using V new(4) by auto
  define hi where "hi = attach (m 2) im (network[3 := 1]) jm (network[3 := 2]) network (bare_host pa\<lparr>routing := ti\<rparr>)"
  define hj where "hj = attach (m 3) jm (network[3 := 2]) im (network[3 := 1]) network (bare_host pb\<lparr>routing := tj\<rparr>)"
  let ?w = "with_edge s (edge_switch (eng (next_network_id t)) (m 2) im (m 3) jm) hi hj c (router_id i) (router_id j) m w"
  have run: "connect_routers eng (i, j, c) (t, w, s) =
    Inr (t\<lparr>next_network_id := next_network_id t + 1, next_mac_id := next_mac_id t + 2, switches := switches t @ [m (Suc 0)]\<rparr>,
      ?w, s\<lparr>registeredModule := insert (m 3) (insert (m 2) (insert (m (Suc 0)) (registeredModule s)))\<rparr>)"
    unfolding hi_def hj_def
    by (rule connect_eq [where m = m, OF R H ij HOL.refl HOL.refl HOL.refl HOL.refl new(6)])
      (simp_all add: new(1,2,3,5) numeral_eq_Suc addr c del: One_nat_def)
  have "{1..n + 3 * length (es @ [e])} =
      insert (n + 3 * length es + 3) (insert (n + 3 * length es + 2) (insert (n + 3 * length es + 1) {1..n + 3 * length es}))" by auto
  then have span: "of_nat ` {1..n + 3 * length (es @ [e])} =
      insert (m 3) (insert (m 2) (insert (m (Suc 0)) (of_nat ` {1..n + 3 * length es})))"
    by (simp only: m_def image_insert One_nat_def)
  have dom: "dom (modules ?w) = insert (m 3) (insert (m 2) (insert (m (Suc 0)) (dom (modules w))))"
    using H by (auto simp: with_edge_def)
  have hosts: "\<exists>ports rt. modules ?w (router_id r) = Some (HostM (bare_host ports\<lparr>routing := rt\<rparr>)) \<and>
       addressed (length ports) rt \<and> list_all2 (wire_of ?w) ports (filter (incident r) (es @ [(i, j, c)]))" if r: "r < n" for r
    using I(7) [OF r] with_edge_hosts [OF r V(1-3) new(4) H none new(3) [of 2 3] _ _ _ hi_def hj_def] by fastforce
  have "fixture_inv n (es @ [e]) (t\<lparr>next_network_id := next_network_id t + 1, next_mac_id := next_mac_id t + 2, switches := switches t @ [m (Suc 0)]\<rparr>,
      ?w, s\<lparr>registeredModule := insert (m 3) (insert (m 2) (insert (m (Suc 0)) (registeredModule s)))\<rparr>)"
    unfolding fixture_inv_def split_conv span dom I(6) I(5) using hosts I(1-3)
    by (simp add: e with_edge_def m_def)
  with run show ?thesis unfolding st e by blast
qed

lemma connect_all_inv:
  assumes "fixture_inv n [] st" and "list_all (valid_edge n) g" and "length g \<le> 65535" and "n < 2 ^ 63"
  shows "\<exists>st'. foldE (connect_routers eng) g st = Inr st' \<and> fixture_inv n g st'"
  using assms(2,3)
proof (induction g rule: rev_induct)
  case Nil
  with assms(1) show ?case by simp
next
  case (snoc e g)
  then obtain st' where st': "foldE (connect_routers eng) g st = Inr st'" "fixture_inv n g st'" by auto
  have "valid_edge n e" "length g < 65535" "n + 3 * length g + 4 < 2 ^ 64" using snoc.prems assms(4) by simp_all
  with st' connect_inv [of n g st' e eng] show ?case by (auto simp: foldE_append)
qed

text \<open>The two assignments, and the module each of them adds to a router.\<close>

definition routing_assignment :: "host_class \<Rightarrow> string \<Rightarrow> bool" where
  "routing_assignment cls name \<longleftrightarrow> (cls, name) = (RIPAssignmentC, ''UDP'') \<or> (cls, name) = (PWOSPFAssignmentC, ''OSPF'')"

definition assignment_module :: "host_class \<Rightarrow> host_module" where
  "assignment_module cls = (if cls = RIPAssignmentC then RIPMod else PWOSPFMod)"

text \<open>The stack of a router: its ports and its routing tables stay.\<close>

lemma initialize_router_at:
  assumes "modules w r = Some (HostM (bare_host ps\<lparr>routing := rt\<rparr>))"
    and "routing_assignment cls name"
  shows "\<exists>h. initialize_router cls name r (w, s) = Inr (w\<lparr>modules := (modules w)(r \<mapsto> HostM h)\<rparr>, s) \<and>
    h_ports h = ps \<and> hostModuleMap h name = Some (assignment_module cls) \<and> routing h = rt"
proof -
  let ?h = "\<lambda>d t. bare_host ps\<lparr>routing := rt, hostModuleMap := [''Ethernet'' \<mapsto> EthernetMod, ''IPv4'' \<mapsto> IPv4Mod 0, name \<mapsto> d],
      timerModuleMap := [''DefaultSyscall'' \<mapsto> DefaultTimer, name \<mapsto> t]\<rparr>"
  note run = initialize_router_def with_host_at assms(1) addHostModule_def insert_new_def initializeHostModule_def bare_host_def
  from assms(2) show ?thesis unfolding routing_assignment_def
  proof
    assume "(cls, name) = (RIPAssignmentC, ''UDP'')"
    then show ?thesis by (intro exI [of _ "?h RIPMod RIPTimer"]) (simp add: run assignment_module_def)
  next
    assume "(cls, name) = (PWOSPFAssignmentC, ''OSPF'')"
    then show ?thesis by (intro exI [of _ "?h PWOSPFMod PWOSPFTimer"]) (simp add: run assignment_module_def)
  qed
qed

lemma initialize_all:
  assumes "routing_assignment cls name"
  shows "distinct rs \<Longrightarrow> \<forall>r \<in> set rs. \<exists>ps rt. modules w r = Some (HostM (bare_host ps\<lparr>routing := rt\<rparr>)) \<Longrightarrow>
    \<exists>w'. foldE (initialize_router cls name) rs (w, s) = Inr (w', s) \<and>
      (\<forall>v. v \<notin> set rs \<longrightarrow> modules w' v = modules w v) \<and>
      (\<forall>r \<in> set rs. \<exists>h. modules w' r = Some (HostM h) \<and> hostModuleMap h name = Some (assignment_module cls) \<and>
        modules w r = Some (HostM (bare_host (h_ports h)\<lparr>routing := routing h\<rparr>)))"
proof (induction rs arbitrary: w)
  case (Cons r rs)
  from Cons.prems obtain ps rt where r: "modules w r = Some (HostM (bare_host ps\<lparr>routing := rt\<rparr>))" by auto
  obtain h where h: "initialize_router cls name r (w, s) = Inr (w\<lparr>modules := (modules w)(r \<mapsto> HostM h)\<rparr>, s)"
      "h_ports h = ps" "hostModuleMap h name = Some (assignment_module cls)" "routing h = rt"
    using initialize_router_at [OF r assms] by blast
  let ?w = "w\<lparr>modules := (modules w)(r \<mapsto> HostM h)\<rparr>"
  have ne: "r \<notin> set rs" "distinct rs" using Cons.prems by auto
  have "\<forall>q \<in> set rs. modules ?w q = modules w q" using ne by auto
  moreover have "\<forall>q \<in> set rs. \<exists>ps rt. modules ?w q = Some (HostM (bare_host ps\<lparr>routing := rt\<rparr>))"
    using Cons.prems(2) ne by fastforce
  ultimately show ?case using Cons.IH [of ?w] ne h r by fastforce
qed simp

text \<open>The cost a router measures at a port.\<close>

lemma ports_costs:
  assumes "list_all2 (wire_of w) (h_ports h) es" and "\<forall>e \<in> set es. valid_edge n e"
  shows "map (\<lambda>p. bindE (Host_getWireSpeed (int p) h w) linkCost) [0..<length (h_ports h)] =
    map (\<lambda>(i, j, c). Inr (of_nat c)) es"
proof (rule nth_equalityI)
  show "length (map (\<lambda>p. bindE (Host_getWireSpeed (int p) h w) linkCost) [0..<length (h_ports h)]) =
      length (map (\<lambda>(i, j, c). Inr (of_nat c)) es)"
    using list_all2_lengthD [OF assms(1)] by simp
  fix p assume "p < length (map (\<lambda>p. bindE (Host_getWireSpeed (int p) h w) linkCost) [0..<length (h_ports h)])"
  then have p: "p < length (h_ports h)" by simp
  obtain i j c where e: "es ! p = (i, j, c)" by (cases "es ! p")
  have "wire_of w (h_ports h ! p) (i, j, c)" using list_all2_nthD [OF assms(1) p] e by simp
  then obtain x where x: "modules w (h_ports h ! p) = Some (WireM x)" "w_bps x = CostLCM div of_nat c"
    by (auto simp: wire_of_def)
  have len: "p < length es" using p list_all2_lengthD [OF assms(1)] by simp
  then have "(i, j, c) \<in> set es" using e nth_mem [OF len] by simp
  with assms(2) have "1 \<le> c" "c \<le> MaxCost" by fastforce+
  then have "linkCost (w_bps x) = Inr (of_nat c)" unfolding x(2) by (rule linkCost_of_cost)
  with p len e x(1) show "map (\<lambda>p. bindE (Host_getWireSpeed (int p) h w) linkCost) [0..<length (h_ports h)] ! p =
      map (\<lambda>(i, j, c). Inr (of_nat c)) es ! p"
    by (simp add: Host_getWireSpeed_def indexE_def NetworkSystem_getWireSpeed_def Wire_getWireSpeed_def)
qed

text \<open>The network of a graph.\<close>

lemma setupGraph_ok:
  assumes "routing_assignment cls name" and "list_all (valid_edge n) g" and "length g \<le> 65535" and "n < 2 ^ 63"
  shows "\<exists>t w s. setupGraph cls name n eng g (RouteTesting_new, NetworkSystem_new) = Inr (t, w, s) \<and>
    routers t = map router_id [0..<n] \<and>
    (\<forall>r < n. \<exists>h. modules w (router_id r) = Some (HostM h) \<and> hostModuleMap h name = Some (assignment_module cls) \<and>
       addressed (length (h_ports h)) (routing h) \<and> list_all2 (wire_of w) (h_ports h) (filter (incident r) g))"
proof -
  obtain st where st: "foldE install_router [0..<n] (RouteTesting_new, NetworkSystem_new) = Inr st" "fixture_inv n [] st"
    using install_routers_inv [of n] assms(4) by auto
  obtain t w s where up: "foldE (connect_routers eng) g st = Inr (t, w, s)" "fixture_inv n g (t, w, s)"
    using connect_all_inv [OF st(2) assms(2-4)] by (metis prod_cases3)
  note I = fixture_invD [OF up(2)]
  have rt: "distinct (routers t)"
    using assms(4) of_nat_eq_u64 by (auto simp: I(1) distinct_map inj_on_def router_id_def)
  have hosts: "\<forall>r \<in> set (routers t). \<exists>ps rt. modules w r = Some (HostM (bare_host ps\<lparr>routing := rt\<rparr>))"
    using I(7) by (fastforce simp: I(1))
  obtain w' where w': "foldE (initialize_router cls name) (routers t) (w, s) = Inr (w', s)"
      "\<And>v. v \<notin> set (routers t) \<Longrightarrow> modules w' v = modules w v"
      "\<And>r. r \<in> set (routers t) \<Longrightarrow> \<exists>h. modules w' r = Some (HostM h) \<and> hostModuleMap h name = Some (assignment_module cls) \<and>
        modules w r = Some (HostM (bare_host (h_ports h)\<lparr>routing := routing h\<rparr>))"
    using initialize_all [OF assms(1) rt hosts, of s] by blast
  have "setupGraph cls name n eng g (RouteTesting_new, NetworkSystem_new) = Inr (t, w', s)"
    by (simp add: setupGraph_def st up w'(1))
  moreover have "\<exists>h. modules w' (router_id r) = Some (HostM h) \<and> hostModuleMap h name = Some (assignment_module cls) \<and>
       addressed (length (h_ports h)) (routing h) \<and> list_all2 (wire_of w') (h_ports h) (filter (incident r) g)" if r: "r < n" for r
  proof -
    have "router_id r \<in> set (routers t)" using I(1) r by simp
    then obtain h where h: "modules w' (router_id r) = Some (HostM h)" "hostModuleMap h name = Some (assignment_module cls)"
        "modules w (router_id r) = Some (HostM (bare_host (h_ports h)\<lparr>routing := routing h\<rparr>))"
      using w'(3) by blast
    have "list_all2 (wire_of w) (h_ports h) (filter (incident r) g)" and a: "addressed (length (h_ports h)) (routing h)"
      using I(7) [OF r] h(3) by (auto simp: bare_host_def)
    then have "list_all2 (wire_of w') (h_ports h) (filter (incident r) g)"
    proof (elim list_all2_mono)
      fix v e assume "wire_of w v e"
      then obtain x where x: "modules w v = Some (WireM x)" "w_bps x = CostLCM div of_nat (snd (snd e))"
        by (auto simp: wire_of_def)
      then have "v \<notin> set (routers t)" using hosts by auto
      with x w'(2) show "wire_of w' v e" by (simp add: wire_of_def)
    qed
    with h a show ?thesis by blast
  qed
  ultimately show ?thesis using I(1) by blast
qed

text \<open>What the expectations of a test come to: the assignments as shipped answer every query with -1, which is no cost.\<close>

lemma expect_cost_shipped:
  assumes "modules w r = Some (HostM h)" and "getIPAddr (routing h) (int p) \<noteq> None"
    and "modules w r' = Some (HostM h')" and "hostModuleMap h' name = Some (assignment_module cls)" and "cost < 2 ^ 64 - 1"
  shows "expect_cost name r r' cost w p outcomes = Inr (outcomes @ [False])"
proof -
  obtain ip where ip: "getIPAddr (routing h) (int p) = Some ip" using assms(2) by auto
  have "unat (- 1 :: Size) \<noteq> unat (of_nat cost :: Size)"
    using assms(5) by (simp add: unsigned_of_nat take_bit_eq_mod unsigned_minus_1_eq_mask mask_eq_exp_minus_1)
  then have "(- 1 :: Size) \<noteq> of_nat cost" by metis
  then show ?thesis
    using assms ip by (simp add: expect_cost_def port_ip_def query_cost_def diagnoseHostModule_def assignment_module_def
        ripQuery_def pwospfQuery_def)
qed

lemma foldE_replicate:
  assumes "\<And>x outs. x \<in> set xs \<Longrightarrow> f x outs = Inr (outs @ replicate (k x) False)"
  shows "foldE f xs outs = Inr (outs @ replicate (\<Sum>x \<leftarrow> xs. k x) False)"
  using assms by (induction xs arbitrary: outs) (simp_all add: replicate_add)

text \<open>C40. The fixture of the routing tests builds the network of its graph: with the module of either assignment,
  the routers of a graph come up with one port per edge at them, in the order of the edges, and the cost that
  \<^verbatim>\<open>linkCost\<close> computes from the speed of the wire at a port is the cost of its edge.\<close>

theorem setupGraph_link_costs:
  assumes "routing_assignment cls name" and "list_all (valid_edge n) g" and "length g \<le> 65535" and "n < 2 ^ 63"
  shows "\<exists>t w s. setupGraph cls name n eng g (RouteTesting_new, NetworkSystem_new) = Inr (t, w, s) \<and>
    length (routers t) = n \<and>
    (\<forall>r < n. \<exists>h. modules w (routers t ! r) = Some (HostM h) \<and> hostModuleMap h name \<noteq> None \<and>
       map (\<lambda>p. bindE (Host_getWireSpeed (int p) h w) linkCost) [0..<length (h_ports h)] =
       map (\<lambda>(i, j, c). Inr (of_nat c)) (filter (incident r) g))"
proof -
  obtain t w s where up: "setupGraph cls name n eng g (RouteTesting_new, NetworkSystem_new) = Inr (t, w, s)"
      "routers t = map router_id [0..<n]"
      "\<And>r. r < n \<Longrightarrow> \<exists>h. modules w (router_id r) = Some (HostM h) \<and> hostModuleMap h name = Some (assignment_module cls) \<and>
       addressed (length (h_ports h)) (routing h) \<and> list_all2 (wire_of w) (h_ports h) (filter (incident r) g)"
    using setupGraph_ok [OF assms] by blast
  have "\<exists>h. modules w (routers t ! r) = Some (HostM h) \<and> hostModuleMap h name \<noteq> None \<and>
       map (\<lambda>p. bindE (Host_getWireSpeed (int p) h w) linkCost) [0..<length (h_ports h)] =
       map (\<lambda>(i, j, c). Inr (of_nat c)) (filter (incident r) g)" if r: "r < n" for r
  proof -
    obtain h where h: "modules w (router_id r) = Some (HostM h)" "hostModuleMap h name = Some (assignment_module cls)"
        "list_all2 (wire_of w) (h_ports h) (filter (incident r) g)"
      using up(3) [OF r] by blast
    have "map (\<lambda>p. bindE (Host_getWireSpeed (int p) h w) linkCost) [0..<length (h_ports h)] =
       map (\<lambda>(i, j, c). Inr (of_nat c)) (filter (incident r) g)"
      using h(3) by (rule ports_costs [where n = n]) (use assms(2) in \<open>auto simp: list_all_iff\<close>)
    with h(1,2) up(2) r show ?thesis by auto
  qed
  with up(1,2) show ?thesis by auto
qed

theorem setupGraph_link_costs_witness:
  "\<exists>t w s h. setupGraph RIPAssignmentC ''UDP'' 4 (\<lambda>k. (sconst 0, sconst 0)) (graph RoutingEnvCustom1)
       (RouteTesting_new, NetworkSystem_new) = Inr (t, w, s) \<and> modules w (routers t ! 0) = Some (HostM h) \<and>
     map (\<lambda>p. bindE (Host_getWireSpeed (int p) h w) linkCost) [0..<length (h_ports h)] = [Inr 1, Inr 3, Inr 7]"
proof -
  have edges: "list_all (valid_edge 4) (graph RoutingEnvCustom1)" "length (graph RoutingEnvCustom1) \<le> 65535"
    "map (\<lambda>(i, j, c). Inr (of_nat c)) (filter (incident 0) (graph RoutingEnvCustom1)) = [Inr 1, Inr 3, Inr (7 :: Size)]"
    by (simp_all add: RoutingEnvCustom1_def MaxCost_def)
  have "(0 :: nat) < 4" "(4 :: nat) < 2 ^ 63" by simp_all
  then show ?thesis
    using setupGraph_link_costs [of RIPAssignmentC "''UDP''" 4 "graph RoutingEnvCustom1" "\<lambda>k. (sconst 0, sconst 0)", OF _ edges(1,2)]
    unfolding edges(3) [symmetric] routing_assignment_def by blast
qed

lemma expectations_up:
  assumes "list_all (valid_edge n) g" and "length g \<le> 65535" and "n < 2 ^ 63" and ra: "routing_assignment cls name"
  defines "deg \<equiv> \<lambda>r. length (filter (incident r) g)"
  shows "\<exists>t w s. setupGraph cls name n eng g (RouteTesting_new, NetworkSystem_new) = Inr (t, w, s) \<and>
      (\<forall>r < n. indexE (routers t) r = Inr (router_id r) \<and> port_count (router_id r) w = Inr (deg r)) \<and>
      (\<forall>r < n. \<forall>r' < n. \<forall>c p outs. c < 2 ^ 64 - 1 \<longrightarrow> p < deg r \<longrightarrow>
         expect_cost name (router_id r) (router_id r') c w p outs = Inr (outs @ [False]))"
proof -
  obtain t w s where up: "setupGraph cls name n eng g (RouteTesting_new, NetworkSystem_new) = Inr (t, w, s)"
      "routers t = map router_id [0..<n]"
      "\<And>r. r < n \<Longrightarrow> \<exists>h. modules w (router_id r) = Some (HostM h) \<and> hostModuleMap h name = Some (assignment_module cls) \<and>
       addressed (length (h_ports h)) (routing h) \<and> list_all2 (wire_of w) (h_ports h) (filter (incident r) g)"
    using setupGraph_ok [OF ra assms(1-3)] by blast
  have "port_count (router_id r) w = Inr (deg r)" if "r < n" for r
    using up(3) [OF that] by (auto simp: port_count_def deg_def dest: list_all2_lengthD)
  moreover have "expect_cost name (router_id r) (router_id r') c w p outs = Inr (outs @ [False])"
    if r: "r < n" "r' < n" "c < 2 ^ 64 - 1" "p < deg r" for r r' c p outs
  proof -
    obtain h h' where h: "modules w (router_id r) = Some (HostM h)" "addressed (length (h_ports h)) (routing h)"
        "length (h_ports h) = deg r" "modules w (router_id r') = Some (HostM h')" "hostModuleMap h' name = Some (assignment_module cls)"
      using up(3) [OF r(1)] up(3) [OF r(2)] unfolding deg_def by (metis list_all2_lengthD)
    have "getIPAddr (routing h) (int p) \<noteq> None" using h(2,3) r(4) by (simp add: addressed_def)
    with h r(3) show ?thesis by (intro expect_cost_shipped)
  qed
  ultimately show ?thesis using up(1,2) by (intro exI [of _ t] exI [of _ w] exI [of _ s]) simp
qed

text \<open>C27. The routing tests reach all their expectations: on the network of any valid graph, the queries of a test
  vector are made without an error (every port has an address, every answer has the type that is read), one for
  each port of the two routers of a pair in the RIP tests and two for a pair in the OSPF tests. The
  assignments as shipped know no route, so every expectation fails.\<close>

theorem routing_tests_reach_expectations:
  assumes "list_all (valid_edge n) g" and "length g \<le> 65535" and "n < 2 ^ 63"
    and "list_all (\<lambda>(i, j, c). i < n \<and> j < n \<and> c < 2 ^ 64 - 1 \<and> (\<exists>e \<in> set g. incident i e) \<and> (\<exists>e \<in> set g. incident j e)) v"
  shows "(\<exists>st. setupGraph_rip n eng g (RouteTesting_new, NetworkSystem_new) = Inr st \<and>
      doTesting ''UDP'' v st =
        Inr (replicate (\<Sum>(i, j, c) \<leftarrow> v. length (filter (incident i) g) + length (filter (incident j) g)) False)) \<and>
    (\<exists>st. setupGraph_ospf n eng g (RouteTesting_new, NetworkSystem_new) = Inr st \<and>
      doTesting_ospf v st = Inr (replicate (2 * length v) False))"
proof -
  let ?deg = "\<lambda>r. length (filter (incident r) g)"
  have v: "i < n" "j < n" "c < 2 ^ 64 - 1" "0 < ?deg i" "0 < ?deg j" if "(i, j, c) \<in> set v" for i j c
    using assms(4) that by (auto simp: list_all_iff filter_empty_conv)
  obtain t w s where rip: "setupGraph_rip n eng g (RouteTesting_new, NetworkSystem_new) = Inr (t, w, s)"
      "\<And>r. r < n \<Longrightarrow> indexE (routers t) r = Inr (router_id r) \<and> port_count (router_id r) w = Inr (?deg r)"
      "\<And>r r' c p outs. r < n \<Longrightarrow> r' < n \<Longrightarrow> c < 2 ^ 64 - 1 \<Longrightarrow> p < ?deg r \<Longrightarrow>
         expect_cost ''UDP'' (router_id r) (router_id r') c w p outs = Inr (outs @ [False])"
    using expectations_up [OF assms(1-3), of RIPAssignmentC "''UDP''" eng] unfolding setupGraph_rip_def routing_assignment_def by blast
  have ask: "foldE (expect_cost ''UDP'' (router_id r) (router_id r') c w) [0..<?deg r] outs = Inr (outs @ replicate (?deg r) False)"
    if "r < n" "r' < n" "c < 2 ^ 64 - 1" for r r' c outs
    using foldE_replicate [of "[0..<?deg r]" "expect_cost ''UDP'' (router_id r) (router_id r') c w" "\<lambda>_. 1" outs] rip(3) that
    by (simp add: sum_list_triv)
  have "doTesting ''UDP'' v (t, w, s) = Inr ([] @ replicate (\<Sum>x \<leftarrow> v. case x of (i, j, c) \<Rightarrow> ?deg i + ?deg j) False)"
    unfolding doTesting_def split_conv
    by (rule foldE_replicate) (auto simp: rip(2) v(1,2) ask [OF v(1,2,3)] ask [OF v(2,1,3)] replicate_add)
  moreover obtain t' w' s' where ospf: "setupGraph_ospf n eng g (RouteTesting_new, NetworkSystem_new) = Inr (t', w', s')"
      "\<And>r. r < n \<Longrightarrow> indexE (routers t') r = Inr (router_id r)"
      "\<And>r r' c p outs. r < n \<Longrightarrow> r' < n \<Longrightarrow> c < 2 ^ 64 - 1 \<Longrightarrow> p < ?deg r \<Longrightarrow>
         expect_cost ''OSPF'' (router_id r) (router_id r') c w' p outs = Inr (outs @ [False])"
    using expectations_up [OF assms(1-3), of PWOSPFAssignmentC "''OSPF''" eng] unfolding setupGraph_ospf_def routing_assignment_def by blast
  have "doTesting_ospf v (t', w', s') = Inr ([] @ replicate (\<Sum>x \<leftarrow> v. 2) False)"
    unfolding doTesting_ospf_def split_conv
    by (rule foldE_replicate) (auto simp: ospf(2) v(1,2) ospf(3) [OF v(1,2,3,4)] ospf(3) [OF v(2,1,3,5)] numeral_2_eq_2)
  ultimately show ?thesis using rip(1) ospf(1) by (auto simp: sum_list_triv mult.commute)
qed

theorem routing_tests_reach_expectations_witness:
  "\<exists>st. setupGraph_rip 2 (\<lambda>k. (sconst 0, sconst 0)) (graph RoutingEnvCustomTwoNodes) (RouteTesting_new, NetworkSystem_new) = Inr st \<and>
     doTesting ''UDP'' (test_vector RoutingEnvCustomTwoNodes) st = Inr [False, False]"
proof -
  have "list_all (valid_edge 2) (graph RoutingEnvCustomTwoNodes)" "length (graph RoutingEnvCustomTwoNodes) \<le> 65535" "(2 :: nat) < 2 ^ 63"
    "list_all (\<lambda>(i, j, c). i < 2 \<and> j < 2 \<and> c < 2 ^ 64 - 1 \<and> (\<exists>e \<in> set (graph RoutingEnvCustomTwoNodes). incident i e) \<and>
       (\<exists>e \<in> set (graph RoutingEnvCustomTwoNodes). incident j e)) (test_vector RoutingEnvCustomTwoNodes)"
    by (simp_all add: RoutingEnvCustomTwoNodes_def MaxCost_def)
  from routing_tests_reach_expectations [OF this, of "\<lambda>k. (sconst 0, sconst 0)"] show ?thesis
    by (simp add: RoutingEnvCustomTwoNodes_def numeral_2_eq_2)
qed

end
