(* ===== verification/TCP_Application.thy ===== *)
theory TCP_Application
  imports Host
begin

text \<open>
  \<^verbatim>\<open>E::TCPApplication\<close> (\<^verbatim>\<open>src/Networking/TCP/E_TCPApplication.cpp\<close>): the functions an application calls.
  Each stores its arguments in a \<^verbatim>\<open>SystemCallParameter\<close> and issues one system call; here a function
  takes the rest of the program, which receives what the call returns. Pointers are addresses.
\<close>

section \<open>Definitions\<close>

text \<open>A \<^verbatim>\<open>SystemCallParameter\<close> whose first elements are assigned: the others are default
  constructed, and the first alternative of the variant is a pointer.\<close>

definition make_param :: "system_call \<Rightarrow> param_val list \<Rightarrow> syscall_param" where
  "make_param n ps = \<lparr>syscallNumber = n, params = ps @ replicate (max_param - length ps) (Ptr 0)\<rparr>"

text \<open>The conversion of \<^verbatim>\<open>size_t\<close> and \<^verbatim>\<open>socklen_t\<close> to \<^verbatim>\<open>int\<close>.\<close>

definition to_int :: "'a::len word \<Rightarrow> int" where
  "to_int x = sint (ucast x :: u32)"

type_synonym continuation = "int \<Rightarrow> Time \<Rightarrow> memory \<Rightarrow> prog"

definition tcp_socket :: "int \<Rightarrow> int \<Rightarrow> int \<Rightarrow> continuation \<Rightarrow> prog" where
  "tcp_socket domain type_unused protocol k =
     Invoke (make_param SOCKET [I32 domain, I32 type_unused, I32 protocol]) k"

definition tcp_close :: "int \<Rightarrow> continuation \<Rightarrow> prog" where
  "tcp_close fd k = Invoke (make_param CLOSE [I32 fd]) k"

definition tcp_bind :: "int \<Rightarrow> u64 \<Rightarrow> u32 \<Rightarrow> continuation \<Rightarrow> prog" where
  "tcp_bind sockfd addr addrlen k = Invoke (make_param BIND [I32 sockfd, Ptr addr, I32 (to_int addrlen)]) k"

definition tcp_getsockname :: "int \<Rightarrow> u64 \<Rightarrow> u64 \<Rightarrow> continuation \<Rightarrow> prog" where
  "tcp_getsockname sockfd addr addrlen k = Invoke (make_param GETSOCKNAME [I32 sockfd, Ptr addr, Ptr addrlen]) k"

definition tcp_getpeername :: "int \<Rightarrow> u64 \<Rightarrow> u64 \<Rightarrow> continuation \<Rightarrow> prog" where
  "tcp_getpeername sockfd addr addrlen k = Invoke (make_param GETPEERNAME [I32 sockfd, Ptr addr, Ptr addrlen]) k"

definition tcp_read :: "int \<Rightarrow> u64 \<Rightarrow> u64 \<Rightarrow> continuation \<Rightarrow> prog" where
  "tcp_read fd buf cnt k = Invoke (make_param READ [I32 fd, Ptr buf, I32 (to_int cnt)]) k"

definition tcp_write :: "int \<Rightarrow> u64 \<Rightarrow> u64 \<Rightarrow> continuation \<Rightarrow> prog" where
  "tcp_write fd buf cnt k = Invoke (make_param WRITE [I32 fd, Ptr buf, I32 (to_int cnt)]) k"

definition tcp_connect :: "int \<Rightarrow> u64 \<Rightarrow> u32 \<Rightarrow> continuation \<Rightarrow> prog" where
  "tcp_connect sockfd addr addrlen k = Invoke (make_param CONNECT [I32 sockfd, Ptr addr, I32 (to_int addrlen)]) k"

definition tcp_listen :: "int \<Rightarrow> int \<Rightarrow> continuation \<Rightarrow> prog" where
  "tcp_listen sockfd backlog k = Invoke (make_param LISTEN [I32 sockfd, I32 backlog]) k"

definition tcp_accept :: "int \<Rightarrow> u64 \<Rightarrow> u64 \<Rightarrow> continuation \<Rightarrow> prog" where
  "tcp_accept sockfd addr addrlen k = Invoke (make_param ACCEPT [I32 sockfd, Ptr addr, Ptr addrlen]) k"

definition tcp_nsleep :: "u64 \<Rightarrow> continuation \<Rightarrow> prog" where
  "tcp_nsleep nanosleep k = Invoke (make_param NSLEEP [U64 nanosleep]) k"

definition tcp_usleep :: "u64 \<Rightarrow> continuation \<Rightarrow> prog" where
  "tcp_usleep microsleep k = tcp_nsleep (1000 * microsleep) k"

definition tcp_msleep :: "u64 \<Rightarrow> continuation \<Rightarrow> prog" where
  "tcp_msleep millisleep k = tcp_usleep (1000 * millisleep) k"

definition tcp_sleep :: "u64 \<Rightarrow> continuation \<Rightarrow> prog" where
  "tcp_sleep seconds k = tcp_msleep (1000 * seconds) k"

definition tcp_gettimeofday :: "u64 \<Rightarrow> u64 \<Rightarrow> continuation \<Rightarrow> prog" where
  "tcp_gettimeofday tv tz k = Invoke (make_param GETTIMEOFDAY [Ptr tv, Ptr tz]) k"

lemmas tcp_defs =
  tcp_socket_def tcp_close_def tcp_bind_def tcp_getsockname_def tcp_getpeername_def tcp_read_def tcp_write_def
  tcp_connect_def tcp_listen_def tcp_accept_def tcp_nsleep_def tcp_usleep_def tcp_msleep_def tcp_sleep_def
  tcp_gettimeofday_def

section \<open>Lemmas\<close>

text \<open>The calls that belong to a socket, and the descriptor they are made on.\<close>

inductive socket_call :: "prog \<Rightarrow> int \<Rightarrow> bool" where
  "socket_call (tcp_socket AF_INET ty IPPROTO_TCP k) fd"
| "socket_call (tcp_close fd k) fd"
| "socket_call (tcp_bind fd a len k) fd"
| "socket_call (tcp_getsockname fd a lp k) fd"
| "socket_call (tcp_getpeername fd a lp k) fd"
| "socket_call (tcp_read fd buf cnt k) fd"
| "socket_call (tcp_write fd buf cnt k) fd"
| "socket_call (tcp_connect fd a len k) fd"
| "socket_call (tcp_listen fd backlog k) fd"
| "socket_call (tcp_accept fd a lp k) fd"

lemma params_make_param [simp]:
  "params (make_param n [a]) = [a, Ptr 0, Ptr 0]" "params (make_param n [a, b]) = [a, b, Ptr 0]"
  "params (make_param n [a, b, c]) = [a, b, c]" "syscallNumber (make_param n ps) = n"
  by (simp_all add: make_param_def max_param_def numeral_3_eq_3)

lemma socket_call_namespace:
  assumes "socket_call (Invoke param k) fd" and "map_of (fdToDomain info) fd = Some (AF_INET, IPPROTO_TCP)"
  shows "syscall_namespace param info = Inr (AF_INET, IPPROTO_TCP)"
  using assms(1)
  by cases (simp_all add: tcp_defs syscall_namespace_def get_param_def assms(2))

section \<open>Properties\<close>

text \<open>C19. Every call an application makes through \<^verbatim>\<open>TCPApplication\<close> is dispatched: the alternatives its
  functions store in the parameters are the ones the host reads, so a socket call of a process
  that holds the descriptor reaches the TCP module with a fresh call identifier, whatever the
  other arguments are. The module as shipped leaves it pending: the application stays blocked.\<close>

theorem socket_calls_dispatched:
  assumes "processInfoMap h pid = Some info" and "apps e (application info) = Some a"
    and "app_pid a = pid" and "pid \<noteq> - 1"
    and "interfaceMap h (AF_INET, IPPROTO_TCP) = Some TCPIface" and "dom (syscallMap h) \<noteq> UNIV"
    and "socket_call p fd" and "map_of (fdToDomain info) fd = Some (AF_INET, IPPROTO_TCP)"
  shows "\<exists>u param k. p = Invoke param k \<and> u \<notin> dom (syscallMap h) \<and>
    Host_syscall self pid param (h, e, s) =
      Inr (h\<lparr>syscallIDStart := u + 1, syscallMap := (syscallMap h)(u \<mapsto> pid)\<rparr>, e, s)"
proof -
  from assms(7) obtain param k where p: "p = Invoke param k" "syscallNumber param \<notin> {NSLEEP, GETTIMEOFDAY}"
    by cases (simp_all add: tcp_defs)
  have ns: "syscall_namespace param info = Inr (AF_INET, IPPROTO_TCP)"
    using socket_call_namespace assms(7,8) p(1) by blast
  obtain u where "u \<notin> dom (syscallMap h)" "Host_syscall self pid param (h, e, s) =
      iface_systemCallback self TCPIface u pid param
        (h\<lparr>syscallIDStart := u + 1, syscallMap := (syscallMap h)(u \<mapsto> pid)\<rparr>, e, s)"
    using Host_syscall_dispatch [OF assms(1-4) ns assms(5,6)] by blast
  with p show ?thesis
    by (cases "syscallNumber param") (auto simp: iface_systemCallback_def TCP_systemCallback_def)
qed

theorem socket_calls_dispatched_witness:
  "\<exists>u. Host_syscall 9 0 (make_param READ [I32 3, Ptr 64, I32 100])
      (demo_busy_host\<lparr>interfaceMap := [(AF_INET, IPPROTO_TCP) \<mapsto> TCPIface]\<rparr>, demo_env, initial_system) =
    Inr (demo_busy_host\<lparr>interfaceMap := [(AF_INET, IPPROTO_TCP) \<mapsto> TCPIface], syscallIDStart := u + 1, syscallMap := [u \<mapsto> 0]\<rparr>,
         demo_env, initial_system)"
proof -
  let ?h = "demo_busy_host\<lparr>interfaceMap := [(AF_INET, IPPROTO_TCP) \<mapsto> TCPIface]\<rparr>"
  have pre: "processInfoMap ?h 0 = Some demo_process" "(0 :: int) \<noteq> - 1"
    "interfaceMap ?h (AF_INET, IPPROTO_TCP) = Some TCPIface" "syscallMap ?h = Map.empty" "dom (syscallMap ?h) \<noteq> UNIV"
    "map_of (fdToDomain demo_process) 3 = Some (AF_INET, IPPROTO_TCP)"
    by (simp_all add: demo_busy_host_def demo_process_def demo_host_def AF_INET_def IPPROTO_TCP_def)
  have call: "socket_call (tcp_read 3 64 100 k) 3" for k by (rule socket_call.intros)
  have p: "tcp_read 3 64 100 k = Invoke (make_param READ [I32 3, Ptr 64, I32 100]) k" for k
    by (simp add: tcp_read_def to_int_def)
  from socket_calls_dispatched [OF pre(1) demo_busy(2,3) pre(2,3,5) call pre(6), of undefined 9 initial_system]
  show ?thesis unfolding p pre(4) by auto
qed

text \<open>\<^verbatim>\<open>usleep\<close>, \<^verbatim>\<open>msleep\<close> and \<^verbatim>\<open>sleep\<close> are \<^verbatim>\<open>nsleep\<close> of the same time as long as it fits in 64 bits of
  nanoseconds; beyond that the request wraps around and the application sleeps for less.\<close>

theorem sleep_units:
  "\<exists>n. tcp_usleep (of_nat t) k = tcp_nsleep n k \<and> unat n = t * 10 ^ 3 mod 2 ^ 64"
  "\<exists>n. tcp_msleep (of_nat t) k = tcp_nsleep n k \<and> unat n = t * 10 ^ 6 mod 2 ^ 64"
  "\<exists>n. tcp_sleep (of_nat t) k = tcp_nsleep n k \<and> unat n = t * 10 ^ 9 mod 2 ^ 64"
proof -
  have U: "unat (of_nat c * of_nat t :: u64) = t * c mod 2 ^ 64" for c :: nat
    by (simp add: unsigned_of_nat take_bit_eq_mod mult.commute flip: of_nat_mult)
  show "\<exists>n. tcp_usleep (of_nat t) k = tcp_nsleep n k \<and> unat n = t * 10 ^ 3 mod 2 ^ 64"
    using U [of "10 ^ 3"] by (intro exI [of _ "1000 * of_nat t"]) (simp add: tcp_usleep_def)
  show "\<exists>n. tcp_msleep (of_nat t) k = tcp_nsleep n k \<and> unat n = t * 10 ^ 6 mod 2 ^ 64"
    using U [of "10 ^ 6"] by (intro exI [of _ "1000000 * of_nat t"]) (simp add: tcp_msleep_def tcp_usleep_def)
  show "\<exists>n. tcp_sleep (of_nat t) k = tcp_nsleep n k \<and> unat n = t * 10 ^ 9 mod 2 ^ 64"
    using U [of "10 ^ 9"]
    by (intro exI [of _ "1000000000 * of_nat t"]) (simp add: tcp_sleep_def tcp_msleep_def tcp_usleep_def)
qed

end
