(* ===== verification/Test_Runtime.thy ===== *)
theory Test_Runtime
  imports TCP_Application
begin

text \<open>
  What the test applications of \<^verbatim>\<open>app/kens\<close> are written in: socket addresses, the conversions of the
  C library they use, their environments, and the form in which their \<^verbatim>\<open>E_Main\<close> is modelled. The
  tests run against a TCP implementation that is not in the repository, so everything below
  the functions of \<^verbatim>\<open>TCPApplication\<close> is a parameter, a \<open>layer\<close>: a request with the contents of the
  objects its pointers designate gives the result and the contents of the output objects, or
  \<open>NoReturn\<close> for a call that blocks for ever. A test application is a function of the layer; it
  records the outcome of each \<^verbatim>\<open>EXPECT\<close> in order.
\<close>

section \<open>Addresses and conversions\<close>

definition SOCK_STREAM :: int where "SOCK_STREAM = 1"
definition INADDR_ANY :: u32 where "INADDR_ANY = 0"

record sockaddr_in =
  sin_family :: u16
  sin_port :: u16
  sin_addr :: u32
  sin_zero :: bytes

text \<open>After \<^verbatim>\<open>memset(&addr, 0, len)\<close>.\<close>

definition zero_addr :: sockaddr_in where
  "zero_addr = \<lparr>sin_family = 0, sin_port = 0, sin_addr = 0, sin_zero = replicate 8 0\<rparr>"

definition sizeof_addr :: u32 where "sizeof_addr = 16"

text \<open>The machine is little-endian.\<close>

definition htons :: "u16 \<Rightarrow> u16" where
  "htons x = 256 * x + x div 256"

definition htonl :: "u32 \<Rightarrow> u32" where
  "htonl x = 0x1000000 * x + 0x10000 * (x div 0x100 mod 0x100) + 0x100 * (x div 0x10000 mod 0x100) + x div 0x1000000"

definition addr_of_bytes :: "bytes \<Rightarrow> u32" where
  "addr_of_bytes b = foldr (\<lambda>x n. ucast x + 256 * n) b 0"

definition inet_port :: "int \<Rightarrow> u16" where
  "inet_port n = htons (of_int n)"

definition is_digit :: "char \<Rightarrow> bool" where
  "is_digit c \<longleftrightarrow> 48 \<le> (of_char c :: nat) \<and> (of_char c :: nat) \<le> 57"

definition is_space :: "char \<Rightarrow> bool" where
  "is_space c \<longleftrightarrow> (of_char c :: nat) = 32 \<or> 9 \<le> (of_char c :: nat) \<and> (of_char c :: nat) \<le> 13"

text \<open>\<^verbatim>\<open>atol\<close> is \<^verbatim>\<open>strtol\<close> in base 10: white space, a sign, digits; a value outside \<^verbatim>\<open>long\<close> is clamped.
  \<^verbatim>\<open>atoi\<close> converts its result to \<^verbatim>\<open>int\<close>.\<close>

definition atol :: "string \<Rightarrow> int" where
  "atol s =
     (let t = dropWhile is_space s;
          neg = (t \<noteq> [] \<and> hd t = CHR ''-'');
          u = (if t \<noteq> [] \<and> hd t \<in> {CHR ''-'', CHR ''+''} then tl t else t);
          v = int (parse_dec (takeWhile is_digit u))
      in max (- (2 ^ 63)) (min (2 ^ 63 - 1) (if neg then - v else v)))"

definition atoi :: "string \<Rightarrow> int" where
  "atoi s = sint (of_int (atol s) :: u32)"

fun split_on :: "char \<Rightarrow> string \<Rightarrow> string list" where
  "split_on d [] = [[]]"
| "split_on d (c # s) =
     (if c = d then [] # split_on d s
      else (case split_on d s of [] \<Rightarrow> [[c]] | p # ps \<Rightarrow> (c # p) # ps))"

text \<open>\<^verbatim>\<open>inet_addr\<close> on four decimal numbers below 256 separated by dots, the form the tests use; the
  octal, hexadecimal and shortened forms are not needed and are treated as malformed.\<close>

definition inet_addr :: "string \<Rightarrow> u32" where
  "inet_addr s =
     (let ps = split_on CHR ''.'' s
      in if length ps = 4 \<and> list_all (\<lambda>p. p \<noteq> [] \<and> list_all is_digit p \<and> (length p = 1 \<or> hd p \<noteq> CHR ''0'') \<and> parse_dec p < 256) ps
         then addr_of_bytes (map (\<lambda>p. of_nat (parse_dec p)) ps) else 0xFFFFFFFF)"

text \<open>\<^verbatim>\<open>snprintf("%u.%u.%u.%u", ip[0], ip[1], ip[2], ip[3])\<close>.\<close>

definition dotted :: "ipv4_t \<Rightarrow> string" where
  "dotted ip =
     print_u64 (unat (ip ! 0)) @ ''.'' @ print_u64 (unat (ip ! 1)) @ ''.'' @
     print_u64 (unat (ip ! 2)) @ ''.'' @ print_u64 (unat (ip ! 3))"

text \<open>\<^verbatim>\<open>std::unordered_map<std::string, std::string>\<close>: \<^verbatim>\<open>operator[]\<close> of a missing key gives an empty
  string. The assignment of an \<^verbatim>\<open>int\<close> to a \<^verbatim>\<open>std::string\<close> is the one from \<^verbatim>\<open>char\<close>.\<close>

type_synonym test_env = "string \<Rightarrow> string"

definition empty_env :: test_env where
  "empty_env k = ''''"

definition string_of_int :: "int \<Rightarrow> string" where
  "string_of_int n = [char_of (n mod 256)]"

section \<open>Applications over a socket layer\<close>

datatype request =
    Socket int int int
  | Close int
  | Bind int sockaddr_in u32
  | Getsockname int u32
  | Getpeername int u32
  | Read int int
  | Write int bytes int
  | Connect int sockaddr_in u32
  | Listen int int
  | Accept int u32
  | Nsleep u64
  | Gettimeofday

text \<open>The result, and the objects behind the output pointers after the call.\<close>

record answer =
  ret :: int
  out_addr :: sockaddr_in
  out_len :: u32
  out_data :: bytes
  out_sec :: int
  out_usec :: int

type_synonym 's layer = "request \<Rightarrow> 's \<Rightarrow> (answer \<times> 's) result"

type_synonym 's main = "'s \<times> bool list \<Rightarrow> (int \<times> 's \<times> bool list) result"

definition req :: "'s layer \<Rightarrow> request \<Rightarrow> (answer \<Rightarrow> 's main) \<Rightarrow> 's main" where
  "req L r k st = (case st of (s, outcomes) \<Rightarrow> bindE (L r s) (\<lambda>(a, s'). k a (s', outcomes)))"

definition expect :: "bool list \<Rightarrow> 's main \<Rightarrow> 's main" where
  "expect bs k st = (case st of (s, outcomes) \<Rightarrow> k (s, outcomes @ bs))"

definition leave :: "int \<Rightarrow> 's main" where
  "leave v st = (case st of (s, outcomes) \<Rightarrow> Inr (v, s, outcomes))"

definition stuck :: "err \<Rightarrow> 's main" where
  "stuck e st = Inl e"

text \<open>\<^verbatim>\<open>usleep\<close> of a \<^verbatim>\<open>long\<close>.\<close>

definition usleep :: "'s layer \<Rightarrow> int \<Rightarrow> 's main \<Rightarrow> 's main" where
  "usleep L t k = req L (Nsleep (1000 * of_int t)) (\<lambda>_. k)"

definition AF_INET16 :: u16 where "AF_INET16 = of_int AF_INET"

definition in_addr :: "u32 \<Rightarrow> int \<Rightarrow> sockaddr_in" where
  "in_addr a port = zero_addr\<lparr>sin_family := AF_INET16, sin_addr := a, sin_port := inet_port port\<rparr>"

section \<open>Tests\<close>

text \<open>The application classes of the connection tests, and what the body of a \<^verbatim>\<open>TEST_F\<close> does before it runs
  the simulation: the applications it adds, each with its host and a copy of its environment,
  and the order in which it launches them. The bodies read the addresses of the hosts; they
  are a parameter \<open>ip\<close>, of the host and the port.\<close>

datatype app_class =
    TestTransfer_Accept | TestTransfer_Connect | TestClose_Accept | TestClose_Connect
  | TestHandshake_Accept | TestHandshake_Connect | TestHandshake_SimultaneousConnect
  | TestCongestion_Accept | TestCongestion_Connect

type_synonym test_app = "nat \<times> app_class \<times> test_env"

record test_plan =
  added :: "test_app list"
  launched :: "test_app list"

section \<open>Lemmas\<close>

lemma req_step [simp]: "L r s = Inr (a, s') \<Longrightarrow> req L r k (s, outcomes) = k a (s', outcomes)"
  by (simp add: req_def)

lemma expect_step [simp]: "expect bs k (s, outcomes) = k (s, outcomes @ bs)"
  by (simp add: expect_def)

lemma leave_step [simp]: "leave v (s, outcomes) = Inr (v, s, outcomes)"
  by (simp add: leave_def)

lemma print_u64_digits: "print_u64 n \<noteq> [] \<and> list_all is_digit (print_u64 n) \<and> (length (print_u64 n) = 1 \<or> hd (print_u64 n) \<noteq> CHR ''0'')"
proof (induction n rule: print_u64.induct)
  case (1 n)
  show ?case
  proof (cases "n < 10")
    case True
    then show ?thesis by (subst (1 2 3 4) print_u64.simps) (simp add: is_digit_def)
  next
    case False
    have nz: "hd (print_u64 m) \<noteq> CHR ''0''" if "m \<noteq> 0" "m < 10" for m
    proof -
      have "print_u64 m = [char_of (48 + m)]" using that by (subst print_u64.simps) simp
      moreover have "of_char (char_of (48 + m :: nat) :: char) \<noteq> (of_char CHR ''0'' :: nat)"
        unfolding of_char_digit [OF that(2)] using that(1) by simp
      ultimately show ?thesis by (metis list.sel(1))
    qed
    let ?d = "print_u64 (n div 10)"
    have IH: "?d \<noteq> []" "list_all is_digit ?d" "length ?d = 1 \<or> hd ?d \<noteq> CHR ''0''" using "1.IH" False by auto
    have "hd ?d \<noteq> CHR ''0''"
    proof (cases "n div 10 < 10")
      case True
      then show ?thesis using nz False by (simp add: div_eq_0_iff)
    next
      case big: False
      then have "print_u64 (n div 10) = print_u64 (n div 10 div 10) @ [char_of (48 + n div 10 mod 10)]"
        by (subst print_u64.simps) simp
      moreover have "print_u64 (n div 10 div 10) \<noteq> []" by (subst print_u64.simps) simp
      ultimately have "length ?d \<noteq> 1" by simp
      with IH(3) show ?thesis by blast
    qed
    moreover have "print_u64 n = ?d @ [char_of (48 + n mod 10)]" using False by (subst print_u64.simps) simp
    moreover have "is_digit (char_of (48 + n mod 10))"
      unfolding is_digit_def by (subst of_char_digit [of "n mod 10"]; simp)+
    ultimately show ?thesis using IH(1,2) by simp
  qed
qed

lemma digit_not_special:
  assumes "is_digit c"
  shows "\<not> is_space c" "c \<noteq> CHR ''-''" "c \<noteq> CHR ''+''" "c \<noteq> CHR ''.''"
  using assms by (auto simp: is_digit_def is_space_def)

lemma atol_digits:
  assumes "p \<noteq> []" and "list_all is_digit p" and "parse_dec p < 2 ^ 63"
  shows "atol p = int (parse_dec p)"
proof -
  have h: "is_digit (hd p)" "takeWhile is_digit p = p"
    using assms(1,2) by (auto simp: list_all_iff)
  then have "dropWhile is_space p = p" "hd p \<notin> {CHR ''-'', CHR ''+''}"
    using digit_not_special [of "hd p"] assms(1) by (auto simp: dropWhile_eq_self_iff)
  then show ?thesis using assms(3) unfolding atol_def h(2) Let_def by (auto simp: h(2))
qed

lemma atol_print_u64 [simp]: "n < 2 ^ 63 \<Longrightarrow> atol (print_u64 n) = int n"
  using atol_digits [of "print_u64 n"] print_u64_digits [of n] by (simp add: parse_print_u64)

lemma atoi_print_u64 [simp]: "n < 2 ^ 31 \<Longrightarrow> atoi (print_u64 n) = int n"
  by (simp add: atoi_def signed_of_int signed_take_bit_int_eq_self del: of_int_of_nat_eq)

text \<open>A time is printed by a test and read back by its application.\<close>

lemma atol_printTime: "unat (getTime t u) < 2 ^ 63 \<Longrightarrow> atol (printTime t u) = int (unat (getTime t u))"
  by (simp add: printTime_def getTime_def)

lemma split_on_digits:
  "list_all is_digit p \<Longrightarrow> split_on CHR ''.'' (p @ CHR ''.'' # s) = p # split_on CHR ''.'' s"
  "list_all is_digit p \<Longrightarrow> split_on CHR ''.'' p = [p]"
  by (induction p) (auto dest: digit_not_special(4))

text \<open>Reading the dotted form of an address gives the address.\<close>

lemma inet_addr_dotted:
  assumes "length ip = 4"
  shows "inet_addr (dotted ip) = addr_of_bytes ip"
proof -
  from assms obtain a b c d where ip: "ip = [a, b, c, d]"
    by (auto simp: numeral_eq_Suc length_Suc_conv)
  let ?p = "\<lambda>x :: u8. print_u64 (unat x)"
  have dig: "list_all is_digit (?p x)" "?p x \<noteq> []" "length (?p x) = 1 \<or> hd (?p x) \<noteq> CHR ''0''" for x
    using print_u64_digits by blast+
  have lt: "unat x < 256" for x :: u8 using unsigned_less [of x] by simp
  have "split_on CHR ''.'' (dotted ip) = [?p a, ?p b, ?p c, ?p d]"
    by (simp add: dotted_def ip split_on_digits dig(1))
  then show ?thesis
    using dig lt by (simp add: inet_addr_def parse_print_u64 ip)
qed

end
