(* ===== verification/Test_Sockets.thy ===== *)
theory Test_Sockets
  imports Test_Runtime
begin

text \<open>
  The tests of \<^verbatim>\<open>socket\<close>, \<^verbatim>\<open>close\<close>, \<^verbatim>\<open>bind\<close> and \<^verbatim>\<open>getsockname\<close>: \<^verbatim>\<open>app/kens/testopen.cpp\<close> and
  \<^verbatim>\<open>app/kens/testbind.cpp\<close>. \<^verbatim>\<open>TestOpen\<close> is proved to pass on the descriptors the host itself provides
  to a TCP module; the bind tests are proved to follow from the rules of binding, so that
  they accept every implementation of these rules.
\<close>

section \<open>Definitions\<close>

text \<open>The first loop of a round of \<^verbatim>\<open>TestOpen\<close>: the descriptors, the failed and the successful calls.\<close>

fun open_loop :: "'s layer \<Rightarrow> nat \<Rightarrow> int list \<times> nat \<times> nat \<Rightarrow> (int list \<times> nat \<times> nat \<Rightarrow> 's main) \<Rightarrow> 's main" where
  "open_loop L 0 acc k = k acc"
| "open_loop L (Suc n) (fds, failed, success) k =
     req L (Socket AF_INET SOCK_STREAM IPPROTO_TCP) (\<lambda>a.
       open_loop L n
         (if ret a < 0 then (fds @ [ret a], failed + 1, success) else (fds @ [ret a], failed, success + 1)) k)"

fun duplicates :: "int list \<Rightarrow> nat" where
  "duplicates [] = 0"
| "duplicates (x # xs) = length (filter (\<lambda>y. x = y) xs) + duplicates xs"

fun close_loop :: "'s layer \<Rightarrow> int list \<Rightarrow> 's main \<Rightarrow> 's main" where
  "close_loop L [] k = k"
| "close_loop L (fd # fds) k = req L (Close fd) (\<lambda>_. close_loop L fds k)"

fun open_rounds :: "'s layer \<Rightarrow> nat \<Rightarrow> nat \<Rightarrow> nat \<times> nat \<times> nat \<Rightarrow> (nat \<times> nat \<times> nat \<Rightarrow> 's main) \<Rightarrow> 's main" where
  "open_rounds L test_size 0 acc k = k acc"
| "open_rounds L test_size (Suc j) (failed, duplicated, success) k =
     open_loop L test_size ([], failed, success) (\<lambda>(fd_array, failed, success).
       close_loop L fd_array
         (open_rounds L test_size j (failed, duplicated + duplicates fd_array, success) k))"

definition TestOpen :: "'s layer \<Rightarrow> 's main" where
  "TestOpen L =
     (let test_size = 1024; test_repeat = 128
      in open_rounds L test_size test_repeat (0, 0, 0) (\<lambda>(failed, duplicated, success).
           expect [success = test_size * test_repeat, failed = 0, duplicated = 0] (leave 0)))"

abbreviation new_socket :: "'s layer \<Rightarrow> (int \<Rightarrow> 's main) \<Rightarrow> 's main" where
  "new_socket L k \<equiv> req L (Socket AF_INET SOCK_STREAM IPPROTO_TCP) (\<lambda>a. k (ret a))"

definition TestBind_Simple :: "'s layer \<Rightarrow> 's main" where
  "TestBind_Simple L =
     new_socket L (\<lambda>fd.
     req L (Bind fd (in_addr (htonl INADDR_ANY) 9999) sizeof_addr) (\<lambda>r.
     expect [ret r = 0] (
     req L (Close fd) (\<lambda>_. leave 0))))"

definition TestBind_DoubleBind :: "'s layer \<Rightarrow> 's main" where
  "TestBind_DoubleBind L =
     new_socket L (\<lambda>fd.
     let addr = in_addr (htonl INADDR_ANY) 9999 in
     req L (Bind fd addr sizeof_addr) (\<lambda>r.
     expect [ret r = 0] (
     req L (Bind fd (addr\<lparr>sin_port := inet_port 10000\<rparr>) sizeof_addr) (\<lambda>r.
     expect [ret r \<noteq> 0] (
     req L (Close fd) (\<lambda>_. leave 0))))))"

definition TestBind_GetSockName :: "'s layer \<Rightarrow> 's main" where
  "TestBind_GetSockName L =
     new_socket L (\<lambda>fd.
     let addr = in_addr (htonl INADDR_ANY) 9999 in
     req L (Bind fd addr sizeof_addr) (\<lambda>r.
     expect [ret r = 0] (
     req L (Getsockname fd (2 * sizeof_addr)) (\<lambda>r.
     expect [ret r = 0, addr = out_addr r] (
     req L (Close fd) (\<lambda>_. leave 0))))))"

definition TestBind_OverlapPort :: "'s layer \<Rightarrow> 's main" where
  "TestBind_OverlapPort L =
     new_socket L (\<lambda>fd1.
     req L (Bind fd1 (in_addr (htonl INADDR_ANY) 9999) sizeof_addr) (\<lambda>r.
     expect [ret r = 0] (
     new_socket L (\<lambda>fd2.
     req L (Bind fd2 (in_addr (inet_addr ''192.168.0.7'') 9999) sizeof_addr) (\<lambda>r.
     expect [ret r \<noteq> 0] (
     req L (Close fd1) (\<lambda>_.
     req L (Close fd2) (\<lambda>_. leave 0))))))))"

definition TestBind_OverlapClosed :: "'s layer \<Rightarrow> 's main" where
  "TestBind_OverlapClosed L =
     new_socket L (\<lambda>fd1.
     req L (Bind fd1 (in_addr (htonl INADDR_ANY) 9999) sizeof_addr) (\<lambda>r.
     expect [ret r = 0] (
     req L (Close fd1) (\<lambda>_.
     new_socket L (\<lambda>fd2.
     req L (Bind fd2 (in_addr (inet_addr ''192.168.0.7'') 9999) sizeof_addr) (\<lambda>r.
     expect [ret r = 0] (
     req L (Close fd2) (\<lambda>_. leave 0))))))))"

definition TestBind_DifferentIP_SamePort :: "'s layer \<Rightarrow> 's main" where
  "TestBind_DifferentIP_SamePort L =
     new_socket L (\<lambda>fd1.
     req L (Bind fd1 (in_addr (inet_addr ''192.168.0.7'') 9999) sizeof_addr) (\<lambda>r.
     expect [ret r = 0] (
     new_socket L (\<lambda>fd2.
     req L (Bind fd2 (in_addr (inet_addr ''192.168.0.8'') 9999) sizeof_addr) (\<lambda>r.
     expect [ret r = 0] (
     req L (Close fd1) (\<lambda>_.
     req L (Close fd2) (\<lambda>_. leave 0))))))))"

definition TestBind_SameIP_DifferentPort :: "'s layer \<Rightarrow> 's main" where
  "TestBind_SameIP_DifferentPort L =
     new_socket L (\<lambda>fd1.
     req L (Bind fd1 (in_addr (inet_addr ''192.168.0.7'') 9999) sizeof_addr) (\<lambda>r.
     expect [ret r = 0] (
     new_socket L (\<lambda>fd2.
     req L (Bind fd2 (in_addr (inet_addr ''192.168.0.7'') 10000) sizeof_addr) (\<lambda>r.
     expect [ret r = 0] (
     req L (Close fd1) (\<lambda>_.
     req L (Close fd2) (\<lambda>_. leave 0))))))))"

section \<open>Layers\<close>

definition plain_answer :: "int \<Rightarrow> answer" where
  "plain_answer v = \<lparr>ret = v, out_addr = zero_addr, out_len = 0, out_data = [], out_sec = 0, out_usec = 0\<rparr>"

text \<open>The descriptors of process \<open>pid\<close>, opened and closed with the functions the host offers to a TCP
  module for \<^verbatim>\<open>socket\<close> and \<^verbatim>\<open>close\<close>.\<close>

definition fd_layer :: "int \<Rightarrow> host layer" where
  "fd_layer pid r h =
     (case r of
        Socket domain type_unused protocol \<Rightarrow>
          bindE (createFileDescriptor domain protocol pid h) (\<lambda>(fd, h'). Inr (plain_answer fd, h'))
      | Close fd \<Rightarrow> Inr (plain_answer 0, removeFileDescriptor pid fd h)
      | _ \<Rightarrow> Inl NoReturn)"

text \<open>The rules of binding. \<open>\<alpha>\<close> gives the open sockets of a state, with the address each is bound to.
  Two addresses conflict when their ports are equal and their hosts are equal or one is
  \<^verbatim>\<open>INADDR_ANY\<close>.\<close>

definition conflict :: "sockaddr_in \<Rightarrow> sockaddr_in \<Rightarrow> bool" where
  "conflict a b \<longleftrightarrow> sin_port a = sin_port b \<and>
     (sin_addr a = sin_addr b \<or> sin_addr a = INADDR_ANY \<or> sin_addr b = INADDR_ANY)"

definition bind_rules :: "'s layer \<Rightarrow> ('s \<Rightarrow> int \<rightharpoonup> sockaddr_in option) \<Rightarrow> bool" where
  "bind_rules L \<alpha> \<longleftrightarrow>
     (\<forall>s. \<exists>a s'. L (Socket AF_INET SOCK_STREAM IPPROTO_TCP) s = Inr (a, s') \<and>
        ret a \<notin> dom (\<alpha> s) \<and> \<alpha> s' = (\<alpha> s)(ret a \<mapsto> None)) \<and>
     (\<forall>s fd. \<exists>a s'. L (Close fd) s = Inr (a, s') \<and> \<alpha> s' = (\<alpha> s)(fd := None)) \<and>
     (\<forall>s fd addr. \<alpha> s fd = Some None \<and> (\<forall>fd' b. \<alpha> s fd' = Some (Some b) \<longrightarrow> \<not> conflict addr b) \<longrightarrow>
        (\<exists>a s'. L (Bind fd addr sizeof_addr) s = Inr (a, s') \<and> ret a = 0 \<and> \<alpha> s' = (\<alpha> s)(fd \<mapsto> Some addr))) \<and>
     (\<forall>s fd addr b. \<alpha> s fd = Some (Some b) \<or> \<alpha> s fd = Some None \<and> (\<exists>fd' b. \<alpha> s fd' = Some (Some b) \<and> conflict addr b) \<longrightarrow>
        (\<exists>a s'. L (Bind fd addr sizeof_addr) s = Inr (a, s') \<and> ret a \<noteq> 0 \<and> \<alpha> s' = \<alpha> s)) \<and>
     (\<forall>s fd addr len. \<alpha> s fd = Some (Some addr) \<longrightarrow>
        (\<exists>a s'. L (Getsockname fd len) s = Inr (a, s') \<and> ret a = 0 \<and> out_addr a = addr \<and> \<alpha> s' = \<alpha> s))"

section \<open>Descriptors of the host\<close>

lemma omap_insert_filter: "k \<notin> fst ` set xs \<Longrightarrow> filter (\<lambda>(j, _). j \<noteq> k) (omap_insert k v xs) = xs"
  by (induction k v xs rule: omap_insert.induct) (force simp: filter_id_conv)+

definition with_fds :: "host \<Rightarrow> int \<Rightarrow> process_info \<Rightarrow> (int \<times> namespace) list \<Rightarrow> host" where
  "with_fds h pid info F = h\<lparr>processInfoMap := (processInfoMap h)(pid \<mapsto> info\<lparr>fdToDomain := F\<rparr>)\<rparr>"

lemma with_fds_simps [simp]:
  "processInfoMap (with_fds h pid info F) pid = Some (info\<lparr>fdToDomain := F\<rparr>)"
  "with_fds (with_fds h pid info F) pid (info\<lparr>fdToDomain := F\<rparr>) G = with_fds h pid info G"
  "processInfoMap h pid = Some info \<Longrightarrow> with_fds h pid info (fdToDomain info) = h"
  by (simp_all add: with_fds_def fun_upd_idem)

text \<open>A descriptor is free as long as the process has fewer than the host offers.\<close>

lemma next_fd_room:
  assumes "fds_ok F" and "int (length F) < MAX_FD - 3"
  shows "3 \<le> next_fd 3 F" "next_fd 3 F \<notin> fst ` set F" "next_fd 3 F < MAX_FD"
proof -
  have S: "3 \<le> next_fd 3 F" "next_fd 3 F \<notin> fst ` set F" "\<forall>k. 3 \<le> k \<longrightarrow> k < next_fd 3 F \<longrightarrow> k \<in> fst ` set F"
    using next_fd_spec [of F 3] assms(1) by (auto simp: fds_ok_def)
  then show "3 \<le> next_fd 3 F" "next_fd 3 F \<notin> fst ` set F" by auto
  have "card {3..<next_fd 3 F} \<le> card (fst ` set F)" using S(3) by (intro card_mono) auto
  also have "\<dots> \<le> length F" using card_image_le [of "set F" fst] card_length [of F] by simp
  finally show "next_fd 3 F < MAX_FD" using assms(2) S(1) by simp
qed

lemma fd_layer_socket:
  assumes "processInfoMap h pid = Some info" and "fds_ok (fdToDomain info)" and "int (length (fdToDomain info)) < MAX_FD - 3"
  shows "\<exists>fd F. 0 \<le> fd \<and> fd \<notin> fst ` set (fdToDomain info) \<and> fds_ok F \<and> length F = Suc (length (fdToDomain info)) \<and>
    fst ` set F = insert fd (fst ` set (fdToDomain info)) \<and> filter (\<lambda>(k, _). k \<noteq> fd) F = fdToDomain info \<and>
    fd_layer pid (Socket d t p) h = Inr (plain_answer fd, with_fds h pid info F)"
proof -
  let ?fds = "fdToDomain info" and ?fd = "next_fd 3 (fdToDomain info)"
  note N = next_fd_room [OF assms(2,3)]
  let ?F = "omap_insert ?fd (d, p) ?fds"
  have I: "sorted_wrt (<) (map fst ?F)" "fst ` set ?F = insert ?fd (fst ` set ?fds)"
    using omap_insert_spec [OF _ N(2), of "(d, p)"] assms(2) by (simp_all add: fds_ok_def)
  have len: "length (omap_insert k v xs) = Suc (length xs)" if "k \<notin> fst ` set xs" for k v and xs :: "(int \<times> namespace) list"
    using that by (induction k v xs rule: omap_insert.induct) auto
  have "fds_ok ?F" using I N(1,3) assms(2) by (simp add: fds_ok_def)
  moreover have "fd_layer pid (Socket d t p) h = Inr (plain_answer ?fd, with_fds h pid info ?F)"
    using assms(1) N(3) by (simp add: fd_layer_def createFileDescriptor_def Let_def with_fds_def)
  ultimately show ?thesis
    using N omap_insert_filter [OF N(2)] I(2) len [OF N(2)] by (intro exI [of _ ?fd] exI [of _ ?F]) simp
qed

lemma open_loop_ok:
  assumes "processInfoMap h pid = Some info" and "fds_ok (fdToDomain info)"
    and "int (length (fdToDomain info)) + int n \<le> MAX_FD - 3"
  shows "\<exists>new F. distinct new \<and> length new = n \<and> set new \<inter> fst ` set (fdToDomain info) = {} \<and> fds_ok F \<and>
    filter (\<lambda>(k, _). k \<notin> set new) F = fdToDomain info \<and>
    open_loop (fd_layer pid) n (fds0, failed, success) k (h, outcomes) =
      k (fds0 @ new, failed, success + n) (with_fds h pid info F, outcomes)"
  using assms
proof (induction n arbitrary: h info fds0 success)
  case 0
  show ?case
    by (rule exI [of _ "[]"], rule exI [of _ "fdToDomain info"]) (use 0 in simp)
next
  case (Suc n)
  obtain fd F where S: "0 \<le> fd" "fd \<notin> fst ` set (fdToDomain info)" "fds_ok F"
      "length F = Suc (length (fdToDomain info))" "fst ` set F = insert fd (fst ` set (fdToDomain info))"
      "filter (\<lambda>(k, _). k \<noteq> fd) F = fdToDomain info"
      "fd_layer pid (Socket AF_INET SOCK_STREAM IPPROTO_TCP) h = Inr (plain_answer fd, with_fds h pid info F)"
    using fd_layer_socket [OF Suc.prems(1,2), of AF_INET SOCK_STREAM IPPROTO_TCP] Suc.prems(3) by auto
  let ?h = "with_fds h pid info F" and ?i = "info\<lparr>fdToDomain := F\<rparr>"
  have "processInfoMap ?h pid = Some ?i" "fds_ok (fdToDomain ?i)" "int (length (fdToDomain ?i)) + int n \<le> MAX_FD - 3"
    using S(3,4) Suc.prems(3) by simp_all
  from Suc.IH [OF this, of "fds0 @ [fd]" "success + 1"] obtain new F' where IH: "distinct new" "length new = n"
      "set new \<inter> fst ` set F = {}" "fds_ok F'" "filter (\<lambda>(k, _). k \<notin> set new) F' = F"
      "open_loop (fd_layer pid) n (fds0 @ [fd], failed, success + 1) k (?h, outcomes) =
        k ((fds0 @ [fd]) @ new, failed, success + 1 + n) (with_fds ?h pid ?i F', outcomes)"
    by auto
  have "filter (\<lambda>(k, _). k \<notin> set (fd # new)) F' = filter (\<lambda>(k, _). k \<noteq> fd) (filter (\<lambda>(k, _). k \<notin> set new) F')"
    by (simp add: case_prod_unfold conj_commute)
  with IH S show ?case
    by (intro exI [of _ "fd # new"] exI [of _ F']) (auto simp: plain_answer_def)
qed

lemma close_loop_ok:
  assumes "processInfoMap h pid = Some info"
  shows "close_loop (fd_layer pid) fds k (h, outcomes) =
    k (with_fds h pid info (filter (\<lambda>(k, _). k \<notin> set fds) (fdToDomain info)), outcomes)"
  using assms
proof (induction fds arbitrary: h info)
  case Nil
  then show ?case by (simp add: case_prod_unfold)
next
  case (Cons fd fds)
  have "fd_layer pid (Close fd) h = Inr (plain_answer 0, with_fds h pid info (filter (\<lambda>(k, _). k \<noteq> fd) (fdToDomain info)))"
    using Cons.prems by (simp add: fd_layer_def removeFileDescriptor_def with_fds_def)
  then show ?case
    by (simp add: Cons.IH [where info = "info\<lparr>fdToDomain := filter (\<lambda>(k, _). k \<noteq> fd) (fdToDomain info)\<rparr>"]
        case_prod_unfold conj_commute)
qed

lemma duplicates_distinct: "distinct xs \<Longrightarrow> duplicates xs = 0"
  by (induction xs) (auto simp: filter_empty_conv)

lemma open_rounds_ok:
  assumes "processInfoMap h pid = Some info" and "fds_ok (fdToDomain info)"
    and "int (length (fdToDomain info)) + int n \<le> MAX_FD - 3"
  shows "open_rounds (fd_layer pid) n j (failed, dup, success) k (h, outcomes) =
    k (failed, dup, success + n * j) (h, outcomes)"
proof (induction j arbitrary: success)
  case (Suc j)
  obtain new F where N: "distinct new" "filter (\<lambda>(k, _). k \<notin> set new) F = fdToDomain info"
      "open_loop (fd_layer pid) n ([], failed, success) (\<lambda>(fd_array, failed, success).
        close_loop (fd_layer pid) fd_array
          (open_rounds (fd_layer pid) n j (failed, dup + duplicates fd_array, success) k)) (h, outcomes) =
       close_loop (fd_layer pid) new
          (open_rounds (fd_layer pid) n j (failed, dup + duplicates new, success + n) k) (with_fds h pid info F, outcomes)"
    using open_loop_ok [OF assms, of "[]" failed success "\<lambda>(fd_array, failed, success).
        close_loop (fd_layer pid) fd_array
          (open_rounds (fd_layer pid) n j (failed, dup + duplicates fd_array, success) k)" outcomes] by auto
  then show ?case
    using assms(1) by (simp add: duplicates_distinct close_loop_ok [where info = "info\<lparr>fdToDomain := F\<rparr>"] Suc.IH add.assoc)
qed simp

section \<open>Binding\<close>

lemma bind_rulesD:
  assumes "bind_rules L \<alpha>"
  shows "\<exists>a s'. L (Socket AF_INET SOCK_STREAM IPPROTO_TCP) s = Inr (a, s') \<and> ret a \<notin> dom (\<alpha> s) \<and> \<alpha> s' = (\<alpha> s)(ret a \<mapsto> None)"
    "\<exists>a s'. L (Close fd) s = Inr (a, s') \<and> \<alpha> s' = (\<alpha> s)(fd := None)"
    "\<alpha> s fd = Some None \<Longrightarrow> (\<And>fd' b. \<alpha> s fd' = Some (Some b) \<Longrightarrow> \<not> conflict addr b) \<Longrightarrow>
      \<exists>a s'. L (Bind fd addr sizeof_addr) s = Inr (a, s') \<and> ret a = 0 \<and> \<alpha> s' = (\<alpha> s)(fd \<mapsto> Some addr)"
    "\<alpha> s fd = Some (Some b) \<Longrightarrow>
      \<exists>a s'. L (Bind fd addr sizeof_addr) s = Inr (a, s') \<and> ret a \<noteq> 0 \<and> \<alpha> s' = \<alpha> s"
    "\<alpha> s fd = Some None \<Longrightarrow> \<alpha> s fd' = Some (Some b) \<Longrightarrow> conflict addr b \<Longrightarrow>
      \<exists>a s'. L (Bind fd addr sizeof_addr) s = Inr (a, s') \<and> ret a \<noteq> 0 \<and> \<alpha> s' = \<alpha> s"
    "\<alpha> s fd = Some (Some addr) \<Longrightarrow>
      \<exists>a s'. L (Getsockname fd len) s = Inr (a, s') \<and> ret a = 0 \<and> out_addr a = addr \<and> \<alpha> s' = \<alpha> s"
  using assms unfolding bind_rules_def by blast+

lemma in_addr_simps [simp]:
  "sin_port (in_addr a n) = inet_port n" "sin_addr (in_addr a n) = a"
  by (simp_all add: in_addr_def)

lemma test_addresses [simp]:
  "htonl INADDR_ANY = 0" "htonl 0 = 0" "inet_addr ''192.168.0.7'' = 0x0700A8C0" "inet_addr ''192.168.0.8'' = 0x0800A8C0"
  "inet_port 9999 = 0x0F27" "inet_port 10000 = 0x1027"
  by (simp_all add: htonl_def INADDR_ANY_def inet_addr_def is_digit_def parse_dec_def addr_of_bytes_def inet_port_def
      htons_def split: list.splits)

text \<open>A test passes: it returns 0, every expectation holds, and no socket of its own stays open.\<close>

definition passes :: "('s \<Rightarrow> int \<rightharpoonup> sockaddr_in option) \<Rightarrow> 's main \<Rightarrow> 's \<Rightarrow> bool" where
  "passes \<alpha> test s \<longleftrightarrow> (\<exists>s' outcomes. test (s, []) = Inr (0, s', outcomes) \<and> list_all id outcomes \<and> \<alpha> s' = \<alpha> s)"

definition ends_in :: "('s \<Rightarrow> int \<rightharpoonup> sockaddr_in option) \<Rightarrow> (int \<rightharpoonup> sockaddr_in option) \<Rightarrow> (int \<rightharpoonup> sockaddr_in option) \<Rightarrow> 's main \<Rightarrow> bool" where
  "ends_in \<alpha> B A test \<longleftrightarrow>
     (\<forall>s bs. \<alpha> s = A \<longrightarrow> list_all id bs \<longrightarrow>
        (\<exists>s' bs'. test (s, bs) = Inr (0, s', bs') \<and> list_all id bs' \<and> \<alpha> s' = B))"

text \<open>The rules of binding as rules for tests.\<close>

lemma ends_in_req:
  assumes "\<And>s. \<alpha> s = A \<Longrightarrow> \<exists>a s'. L r s = Inr (a, s') \<and> P a \<and> \<alpha> s' = A' a"
    and "\<And>a. P a \<Longrightarrow> ends_in \<alpha> B (A' a) (k a)"
  shows "ends_in \<alpha> B A (req L r k)"
  unfolding ends_in_def
proof (intro allI impI)
  fix s bs
  assume "\<alpha> s = A" and bs: "list_all id bs"
  with assms(1) obtain a s' where s': "L r s = Inr (a, s')" "P a" "\<alpha> s' = A' a" by blast
  with assms(2) [of a] bs show "\<exists>s' bs'. req L r k (s, bs) = Inr (0, s', bs') \<and> list_all id bs' \<and> \<alpha> s' = B"
    by (auto simp: ends_in_def)
qed

lemma ends_in_expect: "list_all id bs \<Longrightarrow> ends_in \<alpha> B A k \<Longrightarrow> ends_in \<alpha> B A (expect bs k)"
  by (auto simp: ends_in_def)

lemma ends_in_leave: "A = B \<Longrightarrow> ends_in \<alpha> B A (leave 0)"
  by (simp add: ends_in_def)

lemma ends_in_socket:
  assumes "bind_rules L \<alpha>" and "\<And>fd. fd \<notin> dom A \<Longrightarrow> ends_in \<alpha> B (A(fd \<mapsto> None)) (k fd)"
  shows "ends_in \<alpha> B A (new_socket L k)"
  by (rule ends_in_req [where P = "\<lambda>a. ret a \<notin> dom A" and A' = "\<lambda>a. A(ret a \<mapsto> None)"])
    (use bind_rulesD(1) [OF assms(1)] assms(2) in blast)+

lemma ends_in_close:
  assumes "bind_rules L \<alpha>" and "\<And>a. ends_in \<alpha> B (A(fd := None)) (k a)"
  shows "ends_in \<alpha> B A (req L (Close fd) k)"
  by (rule ends_in_req [where P = "\<lambda>_. True" and A' = "\<lambda>_. A(fd := None)"])
    (use bind_rulesD(2) [OF assms(1)] assms(2) in blast)+

lemma ends_in_bind:
  assumes "bind_rules L \<alpha>" and "A fd = Some None" and "\<And>fd' b. A fd' = Some (Some b) \<Longrightarrow> \<not> conflict addr b"
    and "\<And>a. ret a = 0 \<Longrightarrow> ends_in \<alpha> B (A(fd \<mapsto> Some addr)) (k a)"
  shows "ends_in \<alpha> B A (req L (Bind fd addr sizeof_addr) k)"
  by (rule ends_in_req [where P = "\<lambda>a. ret a = 0" and A' = "\<lambda>_. A(fd \<mapsto> Some addr)"])
    (use bind_rulesD(3) [OF assms(1)] assms(2-4) in blast)+

lemma ends_in_bind_refused:
  assumes "bind_rules L \<alpha>" and "A fd = Some (Some b) \<or> A fd = Some None \<and> (\<exists>fd' b. A fd' = Some (Some b) \<and> conflict addr b)"
    and "\<And>a. ret a \<noteq> 0 \<Longrightarrow> ends_in \<alpha> B A (k a)"
  shows "ends_in \<alpha> B A (req L (Bind fd addr sizeof_addr) k)"
  by (rule ends_in_req [where P = "\<lambda>a. ret a \<noteq> 0" and A' = "\<lambda>_. A"])
    (use bind_rulesD(4,5) [OF assms(1)] assms(2,3) in blast)+

lemma ends_in_getsockname:
  assumes "bind_rules L \<alpha>" and "A fd = Some (Some addr)"
    and "\<And>a. ret a = 0 \<Longrightarrow> out_addr a = addr \<Longrightarrow> ends_in \<alpha> B A (k a)"
  shows "ends_in \<alpha> B A (req L (Getsockname fd len) k)"
  by (rule ends_in_req [where P = "\<lambda>a. ret a = 0 \<and> out_addr a = addr" and A' = "\<lambda>_. A"])
    (use bind_rulesD(6) [OF assms(1)] assms(2,3) in blast)+

lemmas binding_simps = conflict_def INADDR_ANY_def fun_eq_iff

lemma accepted_bind_tests:
  assumes R: "bind_rules L \<alpha>"
  shows "ends_in \<alpha> Map.empty Map.empty (TestBind_Simple L)"
    "ends_in \<alpha> Map.empty Map.empty (TestBind_GetSockName L)"
    "ends_in \<alpha> Map.empty Map.empty (TestBind_OverlapClosed L)"
    "ends_in \<alpha> Map.empty Map.empty (TestBind_DifferentIP_SamePort L)"
    "ends_in \<alpha> Map.empty Map.empty (TestBind_SameIP_DifferentPort L)"
  unfolding TestBind_Simple_def TestBind_GetSockName_def TestBind_OverlapClosed_def TestBind_DifferentIP_SamePort_def TestBind_SameIP_DifferentPort_def Let_def
  by (rule ends_in_socket [OF R] ends_in_close [OF R] ends_in_getsockname [OF R] ends_in_bind [OF R]
      ends_in_expect ends_in_leave
    | (auto simp: binding_simps split: if_splits; fail))+

lemma refused_bind_tests:
  assumes R: "bind_rules L \<alpha>"
  shows "ends_in \<alpha> Map.empty Map.empty (TestBind_DoubleBind L)"
    "ends_in \<alpha> Map.empty Map.empty (TestBind_OverlapPort L)"
proof -
  show "ends_in \<alpha> Map.empty Map.empty (TestBind_DoubleBind L)"
    unfolding TestBind_DoubleBind_def Let_def
    by (rule ends_in_socket [OF R], rule ends_in_bind [OF R]; (simp split: if_splits; fail)?)
      (rule ends_in_expect, simp, rule ends_in_bind_refused [OF R],
       (rule ends_in_close [OF R] ends_in_expect ends_in_leave | (simp add: binding_simps; fail))+)
  show "ends_in \<alpha> Map.empty Map.empty (TestBind_OverlapPort L)"
    unfolding TestBind_OverlapPort_def
    by (rule ends_in_socket [OF R], rule ends_in_bind [OF R]; (simp split: if_splits; fail)?)
      (rule ends_in_expect, simp, rule ends_in_socket [OF R], rule ends_in_bind_refused [OF R],
       (rule ends_in_close [OF R] ends_in_expect ends_in_leave | (auto simp: binding_simps; fail))+)
qed

lemma ends_in_passes: "ends_in \<alpha> (\<alpha> s) (\<alpha> s) test \<Longrightarrow> passes \<alpha> test s"
  by (auto simp: ends_in_def passes_def)

section \<open>Properties\<close>

text \<open>C17. \<^verbatim>\<open>TestOpen\<close> passes on the descriptors of the host: when the process has 1024 descriptors to
  spare, all 131072 calls of \<^verbatim>\<open>socket\<close> succeed, no two descriptors of a round are equal, the three
  expectations hold, and the host is left as it was.\<close>

theorem TestOpen_passes:
  assumes "processInfoMap h pid = Some info" and "fds_ok (fdToDomain info)"
    and "int (length (fdToDomain info)) + 1024 \<le> MAX_FD - 3"
  shows "TestOpen (fd_layer pid) (h, []) = Inr (0, h, [True, True, True])"
  using open_rounds_ok [OF assms(1,2), of 1024] assms(3) by (simp add: TestOpen_def Let_def)

theorem TestOpen_passes_witness:
  "TestOpen (fd_layer 0) (demo_busy_host, []) = Inr (0, demo_busy_host, [True, True, True])"
  by (rule TestOpen_passes [OF demo_busy(1)]) (simp_all add: demo_process_def fds_ok_def MAX_FD_def)


text \<open>An instance: the list of the sockets ever opened, with \<open>None\<close> for a closed one.\<close>

definition sock_at :: "sockaddr_in option option list \<Rightarrow> int \<rightharpoonup> sockaddr_in option" where
  "sock_at t fd = (if 0 \<le> fd \<and> nat fd < length t then t ! nat fd else None)"

definition list_layer :: "sockaddr_in option option list layer" where
  "list_layer r t =
     (case r of
        Socket _ _ _ \<Rightarrow> Inr (plain_answer (int (length t)), t @ [Some None])
      | Close fd \<Rightarrow> Inr (plain_answer 0, if 0 \<le> fd then t[nat fd := None] else t)
      | Bind fd addr len \<Rightarrow>
          if sock_at t fd = Some None \<and> list_all (\<lambda>x. case x of Some (Some b) \<Rightarrow> \<not> conflict addr b | _ \<Rightarrow> True) t
          then Inr (plain_answer 0, t[nat fd := Some (Some addr)])
          else Inr (plain_answer (- 1), t)
      | Getsockname fd len \<Rightarrow>
          (case sock_at t fd of Some (Some a) \<Rightarrow> Inr (plain_answer 0\<lparr>out_addr := a\<rparr>, t) | _ \<Rightarrow> Inr (plain_answer (- 1), t))
      | _ \<Rightarrow> Inl NoReturn)"

lemma sock_at_no_conflict:
  "list_all (\<lambda>x. case x of Some (Some b) \<Rightarrow> \<not> conflict addr b | _ \<Rightarrow> True) t \<longleftrightarrow>
   (\<forall>fd b. sock_at t fd = Some (Some b) \<longrightarrow> \<not> conflict addr b)"
proof -
  have "(\<exists>fd. sock_at t fd = Some x) \<longleftrightarrow> Some x \<in> set t" for x
    by (auto simp: sock_at_def in_set_conv_nth intro: exI [of _ "int _"] split: if_splits)
  then show ?thesis by (fastforce simp: list_all_iff split: option.splits)
qed

lemma sock_at_simps:
  "sock_at (t @ [x]) = (sock_at t)(int (length t) := x)"
  "0 \<le> fd \<Longrightarrow> sock_at (t[nat fd := None]) = (sock_at t)(fd := None)"
  "sock_at t fd = Some z \<Longrightarrow> sock_at (t[nat fd := y]) = (sock_at t)(fd := y)"
  "int (length t) \<notin> dom (sock_at t)" "fd < 0 \<Longrightarrow> sock_at t fd = None"
  by (auto simp: sock_at_def fun_eq_iff nth_append nth_list_update split: if_splits)

lemma list_layer_rules: "bind_rules list_layer sock_at"
  unfolding bind_rules_def
proof (intro conjI allI impI)
  fix t fd
  show "\<exists>a s'. list_layer (Close fd) t = Inr (a, s') \<and> sock_at s' = (sock_at t)(fd := None)"
    using sock_at_simps(2,5) [of fd t] by (auto simp: list_layer_def fun_upd_idem)
qed (auto simp: list_layer_def sock_at_no_conflict plain_answer_def sock_at_simps)


end
