(* ===== verification/Test_Transfer.thy ===== *)
theory Test_Transfer
  imports Test_Runtime
begin

text \<open>
  The data transfer tests (\<^verbatim>\<open>app/kens/testtransfer.cpp\<close>): a server and a client, one of which sends a
  pseudo-random byte stream that the other compares with its own copy of the stream. The
  engine and the distribution of the C++ library are a parameter: \<open>draw seed k\<close> is draw number
  \<open>k\<close> of an engine with that seed. Fuel bounds the passes of a loop: \<open>n\<close> the rounds of a transfer
  and \<open>f\<close> the calls of one round.
\<close>

section \<open>The applications\<close>

text \<open>The start of the server: one connection.\<close>

definition serve_one :: "'s layer \<Rightarrow> test_env \<Rightarrow> (int \<Rightarrow> int \<Rightarrow> 's main) \<Rightarrow> 's main" where
  "serve_one L env k =
     req L (Socket AF_INET SOCK_STREAM IPPROTO_TCP) (\<lambda>server.
     let server_socket = ret server;
         addr = in_addr (inet_addr (env ''LISTEN_ADDR'')) (atoi (env ''LISTEN_PORT''))
     in
     req L (Bind server_socket addr sizeof_addr) (\<lambda>r.
     expect [ret r = 0] (
     usleep L (atol (env ''LISTEN_TIME'')) (
     req L (Listen server_socket (atoi (env ''BACKLOG''))) (\<lambda>r.
     expect [ret r = 0] (
     usleep L (atol (env ''ACCEPT_TIME'')) (
     req L (Accept server_socket sizeof_addr) (\<lambda>client.
     expect [ret client \<ge> 0, out_len client = sizeof_addr, sin_family (out_addr client) = AF_INET16] (
     req L (Getsockname (ret client) sizeof_addr) (\<lambda>r.
     let temp_addr = out_addr r in
     expect [ret r = 0, sin_addr addr = 0 \<or> sin_addr addr = sin_addr temp_addr,
             sin_family addr = sin_family temp_addr, sin_port addr = sin_port temp_addr]
       (k server_socket (ret client))))))))))))"

text \<open>The start of the client.\<close>

definition connect_to :: "'s layer \<Rightarrow> test_env \<Rightarrow> (int \<Rightarrow> 's main) \<Rightarrow> 's main" where
  "connect_to L env k =
     usleep L (atol (env ''CONNECT_TIME'')) (
     req L (Socket AF_INET SOCK_STREAM IPPROTO_TCP) (\<lambda>client.
     let client_socket = ret client;
         addr = in_addr (inet_addr (env ''CONNECT_ADDR'')) (atoi (env ''CONNECT_PORT''))
     in
     req L (Connect client_socket addr sizeof_addr) (\<lambda>r.
     expect [ret r \<ge> 0] (
     req L (Getpeername client_socket sizeof_addr) (\<lambda>r.
     let temp_addr = out_addr r in
     expect [ret r = 0, sin_addr addr = sin_addr temp_addr, sin_family addr = sin_family temp_addr,
             sin_port addr = sin_port temp_addr]
       (k client_socket))))))"

text \<open>Sleeping until a time given in microseconds.\<close>

definition sleep_until :: "'s layer \<Rightarrow> int \<Rightarrow> 's main \<Rightarrow> 's main" where
  "sleep_until L start_time k =
     req L Gettimeofday (\<lambda>tv.
     expect [ret tv = 0] (
     let sleep_time = start_time - 1000 * 1000 * out_sec tv - out_usec tv in
     expect [sleep_time \<ge> 0] (
     usleep L sleep_time k)))"

text \<open>The inner loops. The buffers have \<open>size\<close> bytes; a count that makes \<open>remaining\<close> negative sends the
  next call outside the buffer. \<open>recv_buffer\<close> is allocated once, so its contents live on.\<close>

primrec write_all :: "nat \<Rightarrow> 's layer \<Rightarrow> int \<Rightarrow> bytes \<Rightarrow> int \<Rightarrow> int \<Rightarrow> (int \<times> int \<Rightarrow> 's main) \<Rightarrow> 's main" where
  "write_all 0 L fd send_buffer remaining total_size k = stuck NoReturn"
| "write_all (Suc f) L fd send_buffer remaining total_size k =
     req L (Write fd (drop (length send_buffer - nat remaining) send_buffer) remaining) (\<lambda>a.
     let write_byte = ret a in
     if write_byte < 0 then k (write_byte, total_size)
     else
       let total_size = total_size + write_byte; remaining = remaining - write_byte in
       expect [remaining \<ge> 0] (
         if remaining = 0 then k (write_byte, total_size)
         else if remaining < 0 then stuck OutOfBounds
         else write_all f L fd send_buffer remaining total_size k))"

primrec read_all ::
  "nat \<Rightarrow> 's layer \<Rightarrow> int \<Rightarrow> bytes \<Rightarrow> int \<Rightarrow> int \<Rightarrow> (int \<times> int \<times> int \<times> bytes \<Rightarrow> 's main) \<Rightarrow> 's main" where
  "read_all 0 L fd recv_buffer remaining total_size k = stuck NoReturn"
| "read_all (Suc f) L fd recv_buffer remaining total_size k =
     req L (Read fd remaining) (\<lambda>a.
     let read_byte = ret a; pos = length recv_buffer - nat remaining in
     if pos + length (out_data a) > length recv_buffer then stuck OutOfBounds
     else
       let recv_buffer = take pos recv_buffer @ out_data a @ drop (pos + length (out_data a)) recv_buffer in
       if read_byte < 0 then k (read_byte, total_size, remaining, recv_buffer)
       else
         let total_size = total_size + read_byte; remaining = remaining - read_byte in
         expect [remaining \<ge> 0] (
           if remaining = 0 then k (read_byte, total_size, remaining, recv_buffer)
           else if remaining < 0 then stuck OutOfBounds
           else read_all f L fd recv_buffer remaining total_size k))"

text \<open>The outer loop: \<open>pos\<close> draws have been made.\<close>

definition draw_bytes :: "(nat \<Rightarrow> int) \<Rightarrow> nat \<Rightarrow> nat \<Rightarrow> bytes" where
  "draw_bytes draw pos n = map (\<lambda>k. of_int (draw k)) [pos..<pos + n]"

primrec transfer_loop ::
  "nat \<Rightarrow> nat \<Rightarrow> 's layer \<Rightarrow> int \<Rightarrow> (nat \<Rightarrow> int) \<Rightarrow> bool \<Rightarrow> nat \<Rightarrow> int \<Rightarrow> nat \<Rightarrow> bytes \<Rightarrow> int \<Rightarrow> int \<Rightarrow>
   (int \<Rightarrow> 's main) \<Rightarrow> 's main" where
  "transfer_loop 0 f L fd draw sending buffer_size loop_count pos recv_buffer loop total_size k = stuck NoReturn"
| "transfer_loop (Suc n) f L fd draw sending buffer_size loop_count pos recv_buffer loop total_size k =
     (let send_buffer = draw_bytes draw pos buffer_size;
          continue = (\<lambda>recv_buffer total_size.
            if loop_count \<noteq> 0 \<and> loop_count \<le> loop + 1 then k total_size
            else transfer_loop n f L fd draw sending buffer_size loop_count (pos + buffer_size) recv_buffer
                   (loop + 1) total_size k)
      in if sending then
           write_all f L fd send_buffer (int buffer_size) total_size (\<lambda>(write_byte, total_size).
             if write_byte < 0 then k total_size else continue recv_buffer total_size)
         else
           read_all f L fd recv_buffer (int buffer_size) total_size (\<lambda>(read_byte, total_size, remaining, recv_buffer).
             let got = buffer_size - nat remaining in
             expect (map2 (=) (take got send_buffer) (take got recv_buffer)) (
               if read_byte < 0 then k total_size else continue recv_buffer total_size)))"

text \<open>From the reading of the parameters to the check of the size. \<open>junk\<close> is what \<^verbatim>\<open>malloc\<close> leaves in the
  receive buffer.\<close>

definition transfer ::
  "nat \<Rightarrow> nat \<Rightarrow> (u32 \<Rightarrow> nat \<Rightarrow> int) \<Rightarrow> u8 \<Rightarrow> 's layer \<Rightarrow> test_env \<Rightarrow> int \<Rightarrow> 's main \<Rightarrow> 's main" where
  "transfer n f draw junk L env fd k =
     (let seed = of_int (atoi (env ''RANDOM_SEED''));
          sending = (atoi (env ''SENDER'') \<noteq> 0);
          buffer_size = nat (atoi (env ''BUFFER_SIZE''));
          loop_count = atoi (env ''LOOP_COUNT'');
          expect_size = atoi (env ''EXPECT_SIZE'')
      in transfer_loop n f L fd (draw seed) sending buffer_size loop_count 0 (replicate buffer_size junk) 0 0
           (\<lambda>total_size. expect [expect_size = total_size] k))"

definition TestTransfer_Accept_main ::
  "nat \<Rightarrow> nat \<Rightarrow> (u32 \<Rightarrow> nat \<Rightarrow> int) \<Rightarrow> u8 \<Rightarrow> 's layer \<Rightarrow> test_env \<Rightarrow> 's main" where
  "TestTransfer_Accept_main n f draw junk L env =
     serve_one L env (\<lambda>server_socket client_fd.
     sleep_until L (atol (env ''START_TIME'')) (
     transfer n f draw junk L env client_fd (
     req L (Close client_fd) (\<lambda>_.
     req L (Close server_socket) (\<lambda>_. leave 0)))))"

definition TestTransfer_Connect_main ::
  "nat \<Rightarrow> nat \<Rightarrow> (u32 \<Rightarrow> nat \<Rightarrow> int) \<Rightarrow> u8 \<Rightarrow> 's layer \<Rightarrow> test_env \<Rightarrow> 's main" where
  "TestTransfer_Connect_main n f draw junk L env =
     connect_to L env (\<lambda>client_socket.
     sleep_until L (atol (env ''START_TIME'')) (
     transfer n f draw junk L env client_socket (
     req L (Close client_socket) (\<lambda>_. leave 0))))"

section \<open>The tests\<close>

definition TestTransfer_Connect_Send_Symmetric :: "int \<Rightarrow> (nat \<Rightarrow> nat \<Rightarrow> ipv4_t) \<Rightarrow> test_plan" where
  "TestTransfer_Connect_Send_Symmetric seed ip =
     (let host2_ip = dotted (ip 2 0);
          accept_env = empty_env(''RANDOM_SEED'' := string_of_int seed, ''LISTEN_ADDR'' := ''0.0.0.0'',
            ''LISTEN_PORT'' := ''9999'', ''BACKLOG'' := ''1'', ''LISTEN_TIME'' := ''0'',
            ''ACCEPT_TIME'' := printTime (makeTime 1000 USEC) USEC,
            ''START_TIME'' := printTime (makeTime 1 SEC) USEC);
          connect_env = empty_env(''RANDOM_SEED'' := string_of_int seed, ''CONNECT_PORT'' := ''9999'',
            ''CONNECT_TIME'' := printTime (makeTime 2000 USEC) USEC,
            ''START_TIME'' := printTime (makeTime 1 SEC) USEC, ''CONNECT_ADDR'' := host2_ip,
            ''BUFFER_SIZE'' := ''1024'', ''LOOP_COUNT'' := ''128'', ''SENDER'' := ''1'',
            ''EXPECT_SIZE'' := ''131072'');
          client_pid = (1, TestTransfer_Connect, connect_env);
          accept_env = accept_env(''SENDER'' := ''0'', ''BUFFER_SIZE'' := ''1024'',
            ''LOOP_COUNT'' := ''128'', ''EXPECT_SIZE'' := ''131072'');
          server_pid = (2, TestTransfer_Accept, accept_env)
      in \<lparr>added = [client_pid, server_pid],
          launched = [server_pid, client_pid]\<rparr>)"

definition TestTransfer_Connect_Send_EOF :: "int \<Rightarrow> (nat \<Rightarrow> nat \<Rightarrow> ipv4_t) \<Rightarrow> test_plan" where
  "TestTransfer_Connect_Send_EOF seed ip =
     (let host2_ip = dotted (ip 2 0);
          accept_env = empty_env(''RANDOM_SEED'' := string_of_int seed, ''LISTEN_ADDR'' := ''0.0.0.0'',
            ''LISTEN_PORT'' := ''9999'', ''BACKLOG'' := ''1'', ''LISTEN_TIME'' := ''0'',
            ''ACCEPT_TIME'' := printTime (makeTime 1000 USEC) USEC,
            ''START_TIME'' := printTime (makeTime 1 SEC) USEC);
          connect_env = empty_env(''RANDOM_SEED'' := string_of_int seed, ''CONNECT_PORT'' := ''9999'',
            ''CONNECT_TIME'' := printTime (makeTime 2000 USEC) USEC,
            ''START_TIME'' := printTime (makeTime 1 SEC) USEC, ''CONNECT_ADDR'' := host2_ip,
            ''BUFFER_SIZE'' := ''1024'', ''LOOP_COUNT'' := ''128'', ''SENDER'' := ''1'',
            ''EXPECT_SIZE'' := ''131072'');
          client_pid = (1, TestTransfer_Connect, connect_env);
          accept_env = accept_env(''SENDER'' := ''0'', ''BUFFER_SIZE'' := ''1024'',
            ''LOOP_COUNT'' := ''0'', ''EXPECT_SIZE'' := ''131072'');
          server_pid = (2, TestTransfer_Accept, accept_env)
      in \<lparr>added = [client_pid, server_pid],
          launched = [server_pid, client_pid]\<rparr>)"

definition TestTransfer_Connect_Recv_Symmetric :: "int \<Rightarrow> (nat \<Rightarrow> nat \<Rightarrow> ipv4_t) \<Rightarrow> test_plan" where
  "TestTransfer_Connect_Recv_Symmetric seed ip =
     (let host2_ip = dotted (ip 2 0);
          accept_env = empty_env(''RANDOM_SEED'' := string_of_int seed, ''LISTEN_ADDR'' := ''0.0.0.0'',
            ''LISTEN_PORT'' := ''9999'', ''BACKLOG'' := ''1'', ''LISTEN_TIME'' := ''0'',
            ''ACCEPT_TIME'' := printTime (makeTime 1000 USEC) USEC,
            ''START_TIME'' := printTime (makeTime 1 SEC) USEC);
          connect_env = empty_env(''RANDOM_SEED'' := string_of_int seed, ''CONNECT_PORT'' := ''9999'',
            ''CONNECT_TIME'' := printTime (makeTime 2000 USEC) USEC,
            ''START_TIME'' := printTime (makeTime 1 SEC) USEC, ''CONNECT_ADDR'' := host2_ip,
            ''BUFFER_SIZE'' := ''1024'', ''LOOP_COUNT'' := ''128'', ''SENDER'' := ''0'',
            ''EXPECT_SIZE'' := ''131072'');
          client_pid = (1, TestTransfer_Connect, connect_env);
          accept_env = accept_env(''SENDER'' := ''1'', ''BUFFER_SIZE'' := ''1024'',
            ''LOOP_COUNT'' := ''128'', ''EXPECT_SIZE'' := ''131072'');
          server_pid = (2, TestTransfer_Accept, accept_env)
      in \<lparr>added = [client_pid, server_pid],
          launched = [server_pid, client_pid]\<rparr>)"

definition TestTransfer_Connect_Recv_EOF :: "int \<Rightarrow> (nat \<Rightarrow> nat \<Rightarrow> ipv4_t) \<Rightarrow> test_plan" where
  "TestTransfer_Connect_Recv_EOF seed ip =
     (let host2_ip = dotted (ip 2 0);
          accept_env = empty_env(''RANDOM_SEED'' := string_of_int seed, ''LISTEN_ADDR'' := ''0.0.0.0'',
            ''LISTEN_PORT'' := ''9999'', ''BACKLOG'' := ''1'', ''LISTEN_TIME'' := ''0'',
            ''ACCEPT_TIME'' := printTime (makeTime 1000 USEC) USEC,
            ''START_TIME'' := printTime (makeTime 1 SEC) USEC);
          connect_env = empty_env(''RANDOM_SEED'' := string_of_int seed, ''CONNECT_PORT'' := ''9999'',
            ''CONNECT_TIME'' := printTime (makeTime 2000 USEC) USEC,
            ''START_TIME'' := printTime (makeTime 1 SEC) USEC, ''CONNECT_ADDR'' := host2_ip,
            ''BUFFER_SIZE'' := ''1024'', ''LOOP_COUNT'' := ''0'', ''SENDER'' := ''0'',
            ''EXPECT_SIZE'' := ''131072'');
          client_pid = (1, TestTransfer_Connect, connect_env);
          accept_env = accept_env(''SENDER'' := ''1'', ''BUFFER_SIZE'' := ''1024'',
            ''LOOP_COUNT'' := ''128'', ''EXPECT_SIZE'' := ''131072'');
          server_pid = (2, TestTransfer_Accept, accept_env)
      in \<lparr>added = [client_pid, server_pid],
          launched = [server_pid, client_pid]\<rparr>)"

definition TestTransfer_Connect_Recv_SmallBuffer1 :: "int \<Rightarrow> (nat \<Rightarrow> nat \<Rightarrow> ipv4_t) \<Rightarrow> test_plan" where
  "TestTransfer_Connect_Recv_SmallBuffer1 seed ip =
     (let host2_ip = dotted (ip 2 0);
          accept_env = empty_env(''RANDOM_SEED'' := string_of_int seed, ''LISTEN_ADDR'' := ''0.0.0.0'',
            ''LISTEN_PORT'' := ''9999'', ''BACKLOG'' := ''1'', ''LISTEN_TIME'' := ''0'',
            ''ACCEPT_TIME'' := printTime (makeTime 1000 USEC) USEC,
            ''START_TIME'' := printTime (makeTime 1 SEC) USEC);
          connect_env = empty_env(''RANDOM_SEED'' := string_of_int seed, ''CONNECT_PORT'' := ''9999'',
            ''CONNECT_TIME'' := printTime (makeTime 2000 USEC) USEC,
            ''START_TIME'' := printTime (makeTime 1 SEC) USEC, ''CONNECT_ADDR'' := host2_ip,
            ''BUFFER_SIZE'' := ''128'', ''LOOP_COUNT'' := ''0'', ''SENDER'' := ''0'',
            ''EXPECT_SIZE'' := ''131072'');
          client_pid = (1, TestTransfer_Connect, connect_env);
          accept_env = accept_env(''SENDER'' := ''1'', ''BUFFER_SIZE'' := ''1024'',
            ''LOOP_COUNT'' := ''128'', ''EXPECT_SIZE'' := ''131072'');
          server_pid = (2, TestTransfer_Accept, accept_env)
      in \<lparr>added = [client_pid, server_pid],
          launched = [server_pid, client_pid]\<rparr>)"

definition TestTransfer_Connect_Recv_SmallBuffer2 :: "int \<Rightarrow> (nat \<Rightarrow> nat \<Rightarrow> ipv4_t) \<Rightarrow> test_plan" where
  "TestTransfer_Connect_Recv_SmallBuffer2 seed ip =
     (let host2_ip = dotted (ip 2 0);
          accept_env = empty_env(''RANDOM_SEED'' := string_of_int seed, ''LISTEN_ADDR'' := ''0.0.0.0'',
            ''LISTEN_PORT'' := ''9999'', ''BACKLOG'' := ''1'', ''LISTEN_TIME'' := ''0'',
            ''ACCEPT_TIME'' := printTime (makeTime 1000 USEC) USEC,
            ''START_TIME'' := printTime (makeTime 1 SEC) USEC);
          connect_env = empty_env(''RANDOM_SEED'' := string_of_int seed, ''CONNECT_PORT'' := ''9999'',
            ''CONNECT_TIME'' := printTime (makeTime 2000 USEC) USEC,
            ''START_TIME'' := printTime (makeTime 1 SEC) USEC, ''CONNECT_ADDR'' := host2_ip,
            ''BUFFER_SIZE'' := ''67'', ''LOOP_COUNT'' := ''0'', ''SENDER'' := ''0'',
            ''EXPECT_SIZE'' := ''64819'');
          client_pid = (1, TestTransfer_Connect, connect_env);
          accept_env = accept_env(''SENDER'' := ''1'', ''BUFFER_SIZE'' := ''53'',
            ''LOOP_COUNT'' := ''1223'', ''EXPECT_SIZE'' := ''64819'');
          server_pid = (2, TestTransfer_Accept, accept_env)
      in \<lparr>added = [client_pid, server_pid],
          launched = [server_pid, client_pid]\<rparr>)"

definition TestTransfer_Accept_Send_Symmetric :: "int \<Rightarrow> (nat \<Rightarrow> nat \<Rightarrow> ipv4_t) \<Rightarrow> test_plan" where
  "TestTransfer_Accept_Send_Symmetric seed ip =
     (let host1_ip = dotted (ip 1 0);
          accept_env = empty_env(''RANDOM_SEED'' := string_of_int seed, ''LISTEN_ADDR'' := ''0.0.0.0'',
            ''LISTEN_PORT'' := ''9999'', ''BACKLOG'' := ''1'', ''LISTEN_TIME'' := ''0'',
            ''ACCEPT_TIME'' := printTime (makeTime 1000 USEC) USEC,
            ''START_TIME'' := printTime (makeTime 1 SEC) USEC, ''BUFFER_SIZE'' := ''1024'',
            ''LOOP_COUNT'' := ''128'', ''SENDER'' := ''1'', ''EXPECT_SIZE'' := ''131072'');
          connect_env = empty_env(''RANDOM_SEED'' := string_of_int seed, ''CONNECT_PORT'' := ''9999'',
            ''CONNECT_TIME'' := printTime (makeTime 2000 USEC) USEC,
            ''START_TIME'' := printTime (makeTime 1 SEC) USEC);
          server_pid = (1, TestTransfer_Accept, accept_env);
          connect_env = connect_env(''CONNECT_ADDR'' := host1_ip, ''SENDER'' := ''0'',
            ''BUFFER_SIZE'' := ''1024'', ''LOOP_COUNT'' := ''128'', ''EXPECT_SIZE'' := ''131072'');
          client_pid = (2, TestTransfer_Connect, connect_env)
      in \<lparr>added = [server_pid, client_pid],
          launched = [server_pid, client_pid]\<rparr>)"

definition TestTransfer_Accept_Send_EOF :: "int \<Rightarrow> (nat \<Rightarrow> nat \<Rightarrow> ipv4_t) \<Rightarrow> test_plan" where
  "TestTransfer_Accept_Send_EOF seed ip =
     (let host1_ip = dotted (ip 1 0);
          accept_env = empty_env(''RANDOM_SEED'' := string_of_int seed, ''LISTEN_ADDR'' := ''0.0.0.0'',
            ''LISTEN_PORT'' := ''9999'', ''BACKLOG'' := ''1'', ''LISTEN_TIME'' := ''0'',
            ''ACCEPT_TIME'' := printTime (makeTime 1000 USEC) USEC,
            ''START_TIME'' := printTime (makeTime 1 SEC) USEC, ''BUFFER_SIZE'' := ''1024'',
            ''LOOP_COUNT'' := ''128'', ''SENDER'' := ''1'', ''EXPECT_SIZE'' := ''131072'');
          connect_env = empty_env(''RANDOM_SEED'' := string_of_int seed, ''CONNECT_PORT'' := ''9999'',
            ''CONNECT_TIME'' := printTime (makeTime 2000 USEC) USEC,
            ''START_TIME'' := printTime (makeTime 1 SEC) USEC);
          server_pid = (1, TestTransfer_Accept, accept_env);
          connect_env = connect_env(''CONNECT_ADDR'' := host1_ip, ''SENDER'' := ''0'',
            ''BUFFER_SIZE'' := ''1024'', ''LOOP_COUNT'' := ''0'', ''EXPECT_SIZE'' := ''131072'');
          client_pid = (2, TestTransfer_Connect, connect_env)
      in \<lparr>added = [server_pid, client_pid],
          launched = [server_pid, client_pid]\<rparr>)"

definition TestTransfer_Accept_Recv_Symmetric :: "int \<Rightarrow> (nat \<Rightarrow> nat \<Rightarrow> ipv4_t) \<Rightarrow> test_plan" where
  "TestTransfer_Accept_Recv_Symmetric seed ip =
     (let host1_ip = dotted (ip 1 0);
          accept_env = empty_env(''RANDOM_SEED'' := string_of_int seed, ''LISTEN_ADDR'' := ''0.0.0.0'',
            ''LISTEN_PORT'' := ''9999'', ''BACKLOG'' := ''1'', ''LISTEN_TIME'' := ''0'',
            ''ACCEPT_TIME'' := printTime (makeTime 1000 USEC) USEC,
            ''START_TIME'' := printTime (makeTime 1 SEC) USEC, ''BUFFER_SIZE'' := ''1024'',
            ''LOOP_COUNT'' := ''128'', ''SENDER'' := ''0'', ''EXPECT_SIZE'' := ''131072'');
          connect_env = empty_env(''RANDOM_SEED'' := string_of_int seed, ''CONNECT_PORT'' := ''9999'',
            ''CONNECT_TIME'' := printTime (makeTime 2000 USEC) USEC,
            ''START_TIME'' := printTime (makeTime 1 SEC) USEC);
          server_pid = (1, TestTransfer_Accept, accept_env);
          connect_env = connect_env(''CONNECT_ADDR'' := host1_ip, ''SENDER'' := ''1'',
            ''BUFFER_SIZE'' := ''1024'', ''LOOP_COUNT'' := ''128'', ''EXPECT_SIZE'' := ''131072'');
          client_pid = (2, TestTransfer_Connect, connect_env)
      in \<lparr>added = [server_pid, client_pid],
          launched = [server_pid, client_pid]\<rparr>)"

definition TestTransfer_Accept_Recv_EOF :: "int \<Rightarrow> (nat \<Rightarrow> nat \<Rightarrow> ipv4_t) \<Rightarrow> test_plan" where
  "TestTransfer_Accept_Recv_EOF seed ip =
     (let host1_ip = dotted (ip 1 0);
          accept_env = empty_env(''RANDOM_SEED'' := string_of_int seed, ''LISTEN_ADDR'' := ''0.0.0.0'',
            ''LISTEN_PORT'' := ''9999'', ''BACKLOG'' := ''1'', ''LISTEN_TIME'' := ''0'',
            ''ACCEPT_TIME'' := printTime (makeTime 1000 USEC) USEC,
            ''START_TIME'' := printTime (makeTime 1 SEC) USEC, ''BUFFER_SIZE'' := ''1024'',
            ''LOOP_COUNT'' := ''0'', ''SENDER'' := ''0'', ''EXPECT_SIZE'' := ''131072'');
          connect_env = empty_env(''RANDOM_SEED'' := string_of_int seed, ''CONNECT_PORT'' := ''9999'',
            ''CONNECT_TIME'' := printTime (makeTime 2000 USEC) USEC,
            ''START_TIME'' := printTime (makeTime 1 SEC) USEC);
          server_pid = (1, TestTransfer_Accept, accept_env);
          connect_env = connect_env(''CONNECT_ADDR'' := host1_ip, ''SENDER'' := ''1'',
            ''BUFFER_SIZE'' := ''1024'', ''LOOP_COUNT'' := ''128'', ''EXPECT_SIZE'' := ''131072'');
          client_pid = (2, TestTransfer_Connect, connect_env)
      in \<lparr>added = [server_pid, client_pid],
          launched = [server_pid, client_pid]\<rparr>)"

definition TestTransfer_Accept_Recv_SmallBuffer1 :: "int \<Rightarrow> (nat \<Rightarrow> nat \<Rightarrow> ipv4_t) \<Rightarrow> test_plan" where
  "TestTransfer_Accept_Recv_SmallBuffer1 seed ip =
     (let host1_ip = dotted (ip 1 0);
          accept_env = empty_env(''RANDOM_SEED'' := string_of_int seed, ''LISTEN_ADDR'' := ''0.0.0.0'',
            ''LISTEN_PORT'' := ''9999'', ''BACKLOG'' := ''1'', ''LISTEN_TIME'' := ''0'',
            ''ACCEPT_TIME'' := printTime (makeTime 1000 USEC) USEC,
            ''START_TIME'' := printTime (makeTime 1 SEC) USEC, ''BUFFER_SIZE'' := ''128'',
            ''LOOP_COUNT'' := ''0'', ''SENDER'' := ''0'', ''EXPECT_SIZE'' := ''131072'');
          connect_env = empty_env(''RANDOM_SEED'' := string_of_int seed, ''CONNECT_PORT'' := ''9999'',
            ''CONNECT_TIME'' := printTime (makeTime 2000 USEC) USEC,
            ''START_TIME'' := printTime (makeTime 1 SEC) USEC);
          server_pid = (1, TestTransfer_Accept, accept_env);
          connect_env = connect_env(''CONNECT_ADDR'' := host1_ip, ''SENDER'' := ''1'',
            ''BUFFER_SIZE'' := ''1024'', ''LOOP_COUNT'' := ''128'', ''EXPECT_SIZE'' := ''131072'');
          client_pid = (2, TestTransfer_Connect, connect_env)
      in \<lparr>added = [server_pid, client_pid],
          launched = [server_pid, client_pid]\<rparr>)"

definition TestTransfer_Accept_Recv_SmallBuffer2 :: "int \<Rightarrow> (nat \<Rightarrow> nat \<Rightarrow> ipv4_t) \<Rightarrow> test_plan" where
  "TestTransfer_Accept_Recv_SmallBuffer2 seed ip =
     (let host1_ip = dotted (ip 1 0);
          accept_env = empty_env(''RANDOM_SEED'' := string_of_int seed, ''LISTEN_ADDR'' := ''0.0.0.0'',
            ''LISTEN_PORT'' := ''9999'', ''BACKLOG'' := ''1'', ''LISTEN_TIME'' := ''0'',
            ''ACCEPT_TIME'' := printTime (makeTime 1000 USEC) USEC,
            ''START_TIME'' := printTime (makeTime 1 SEC) USEC, ''BUFFER_SIZE'' := ''67'',
            ''LOOP_COUNT'' := ''0'', ''SENDER'' := ''0'', ''EXPECT_SIZE'' := ''64819'');
          connect_env = empty_env(''RANDOM_SEED'' := string_of_int seed, ''CONNECT_PORT'' := ''9999'',
            ''CONNECT_TIME'' := printTime (makeTime 2000 USEC) USEC,
            ''START_TIME'' := printTime (makeTime 1 SEC) USEC);
          server_pid = (1, TestTransfer_Accept, accept_env);
          connect_env = connect_env(''CONNECT_ADDR'' := host1_ip, ''SENDER'' := ''1'',
            ''BUFFER_SIZE'' := ''53'', ''LOOP_COUNT'' := ''1223'', ''EXPECT_SIZE'' := ''64819'');
          client_pid = (2, TestTransfer_Connect, connect_env)
      in \<lparr>added = [server_pid, client_pid],
          launched = [server_pid, client_pid]\<rparr>)"

definition transfer_tests :: "(int \<Rightarrow> (nat \<Rightarrow> nat \<Rightarrow> ipv4_t) \<Rightarrow> test_plan) list" where
  "transfer_tests =
     [TestTransfer_Connect_Send_Symmetric,
      TestTransfer_Connect_Send_EOF,
      TestTransfer_Connect_Recv_Symmetric,
      TestTransfer_Connect_Recv_EOF,
      TestTransfer_Connect_Recv_SmallBuffer1,
      TestTransfer_Connect_Recv_SmallBuffer2,
      TestTransfer_Accept_Send_Symmetric,
      TestTransfer_Accept_Send_EOF,
      TestTransfer_Accept_Recv_Symmetric,
      TestTransfer_Accept_Recv_EOF,
      TestTransfer_Accept_Recv_SmallBuffer1,
      TestTransfer_Accept_Recv_SmallBuffer2]"

section \<open>Sending and receiving\<close>

text \<open>What a connection promises to its two ends. A write of at least one byte accepts at least one
  byte and at most what it is given; a read that asks for at least one byte gives at least one
  byte of those that have arrived and have not been read, and a negative result after the last.\<close>

definition write_rules :: "'s layer \<Rightarrow> int \<Rightarrow> ('s \<Rightarrow> bytes) \<Rightarrow> bool" where
  "write_rules L fd sent \<longleftrightarrow>
     (\<forall>s data. data \<noteq> [] \<longrightarrow>
        (\<exists>a s'. L (Write fd data (int (length data))) s = Inr (a, s') \<and> 1 \<le> ret a \<and> ret a \<le> int (length data) \<and>
           sent s' = sent s @ take (nat (ret a)) data))"

definition read_rules :: "'s layer \<Rightarrow> int \<Rightarrow> ('s \<Rightarrow> bytes) \<Rightarrow> bool" where
  "read_rules L fd avail \<longleftrightarrow>
     (\<forall>s n. 0 < n \<longrightarrow>
        (\<exists>a s'. L (Read fd (int n)) s = Inr (a, s') \<and>
           (if avail s = [] then ret a < 0 \<and> out_data a = [] \<and> avail s' = []
            else 1 \<le> ret a \<and> ret a \<le> int n \<and> ret a \<le> int (length (avail s)) \<and>
                 out_data a = take (nat (ret a)) (avail s) \<and> avail s' = drop (nat (ret a)) (avail s))))"

lemma draw_bytes_simps [simp]:
  "length (draw_bytes draw pos n) = n"
  "take m (draw_bytes draw pos n) = draw_bytes draw pos (min m n)"
  "drop m (draw_bytes draw pos n) = draw_bytes draw (pos + m) (n - m)"
  "draw_bytes draw pos m @ draw_bytes draw (pos + m) n = draw_bytes draw pos (m + n)"
  "draw_bytes draw pos n = [] \<longleftrightarrow> n = 0"
  by (cases "m \<le> n"; auto simp: draw_bytes_def take_map drop_map min_def upt_add_eq_append [of pos "pos + m" n] simp flip: add.assoc)+

lemma write_all_ok:
  assumes "write_rules L fd sent" and "0 < r" and "r \<le> length buf" and "r \<le> f"
  shows "\<exists>s' bs b. write_all f L fd buf (int r) tot k (s, outcomes) = k (b, tot + int r) (s', outcomes @ bs) \<and>
    0 \<le> b \<and> list_all id bs \<and> sent s' = sent s @ drop (length buf - r) buf"
  using assms(2-)
proof (induction f arbitrary: r tot s outcomes)
  case (Suc f)
  let ?d = "drop (length buf - r) buf"
  have d: "length ?d = r" "?d \<noteq> []" using Suc.prems by auto
  then obtain a s1 where a: "L (Write fd ?d (int r)) s = Inr (a, s1)" "1 \<le> ret a" "ret a \<le> int r"
      "sent s1 = sent s @ take (nat (ret a)) ?d"
    using assms(1) unfolding write_rules_def by metis
  let ?w = "nat (ret a)"
  show ?case
  proof (cases "ret a = int r")
    case True
    with a d show ?thesis
      by (intro exI [of _ s1] exI [of _ "[True]"] exI [of _ "ret a"]) (simp add: Let_def)
  next
    case False
    then have r: "0 < r - ?w" "r - ?w \<le> length buf" "r - ?w \<le> f" "int r - ret a = int (r - ?w)" using a Suc.prems by auto
    from Suc.IH [OF r(1-3), of "tot + ret a" s1 "outcomes @ [True]"] obtain s' bs b where
      "write_all f L fd buf (int (r - ?w)) (tot + ret a) k (s1, outcomes @ [True]) =
         k (b, tot + ret a + int (r - ?w)) (s', (outcomes @ [True]) @ bs)" "0 \<le> b" "list_all id bs"
      "sent s' = sent s1 @ drop (length buf - (r - ?w)) buf" by blast
    moreover have "take ?w ?d @ drop (length buf - (r - ?w)) buf = ?d"
      using Suc.prems(2) a(2,3) append_take_drop_id [of ?w ?d] by (simp add: add.commute)
    ultimately show ?thesis
      using a r False d by (intro exI [of _ s'] exI [of _ "True # bs"] exI [of _ b]) (simp add: Let_def id_def a(3) leD [OF a(3)])
  qed
qed simp

lemma write_all_okE:
  assumes "write_rules L fd sent" and "0 < r" and "r \<le> length buf" and "r \<le> f"
  obtains s' bs b where
    "write_all f L fd buf (int r) tot k (s, outcomes) = k (b, tot + int r) (s', outcomes @ bs)"
    "0 \<le> b" "list_all id bs" "sent s' = sent s @ drop (length buf - r) buf"
  using write_all_ok [OF assms] by metis

lemma transfer_loop_sends:
  assumes "write_rules L fd sent" and "0 < buffer_size" and "buffer_size \<le> f" and "loop < c" and "c - loop \<le> n"
  shows "\<exists>s' bs. transfer_loop n f L fd draw True buffer_size (int c) pos recv (int loop) tot k (s, outcomes) =
      k (tot + int (buffer_size * (c - loop))) (s', outcomes @ bs) \<and> list_all id bs \<and>
    sent s' = sent s @ draw_bytes draw pos (buffer_size * (c - loop))"
  using assms(4-)
proof (induction n arbitrary: loop pos tot s outcomes)
  case (Suc n)
  let ?b = "draw_bytes draw pos buffer_size"
  let ?K = "\<lambda>(write_byte :: int, total_size). if write_byte < 0 then k total_size
    else if int c \<noteq> 0 \<and> int c \<le> int loop + 1 then k total_size
    else transfer_loop n f L fd draw True buffer_size (int c) (pos + buffer_size) recv (int loop + 1) total_size k"
  have le: "buffer_size \<le> length ?b" by simp
  obtain s1 bs b where
    W: "write_all f L fd ?b (int buffer_size) tot ?K (s, outcomes) = ?K (b, tot + int buffer_size) (s1, outcomes @ bs)"
      "0 \<le> b" "list_all id bs" "sent s1 = sent s @ drop (length ?b - buffer_size) ?b"
    by (rule write_all_okE [OF assms(1,2) le assms(3)])
  have start: "transfer_loop (Suc n) f L fd draw True buffer_size (int c) pos recv (int loop) tot k (s, outcomes) =
      ?K (b, tot + int buffer_size) (s1, outcomes @ bs)"
    unfolding W(1) [symmetric] by (simp only: transfer_loop.simps Let_def if_True)
  show ?case
  proof (cases "c = Suc loop")
    case True
    with W(2-4) start show ?thesis by (intro exI [of _ s1] exI [of _ bs]) (simp add: id_def)
  next
    case False
    with Suc.prems have "Suc loop < c" "c - Suc loop \<le> n" by auto
    from Suc.IH [OF this, of "pos + buffer_size" "tot + int buffer_size" s1 "outcomes @ bs"] obtain s' bs' where
      "transfer_loop n f L fd draw True buffer_size (int c) (pos + buffer_size) recv (int (Suc loop)) (tot + int buffer_size) k (s1, outcomes @ bs) =
         k (tot + int buffer_size + int (buffer_size * (c - Suc loop))) (s', (outcomes @ bs) @ bs')" "list_all id bs'"
      "sent s' = sent s1 @ draw_bytes draw (pos + buffer_size) (buffer_size * (c - Suc loop))" by blast
    moreover have S: "int (Suc loop) = int loop + 1" by simp
    moreover have "buffer_size * (c - loop) = buffer_size + buffer_size * (c - Suc loop)"
      using \<open>Suc loop < c\<close> by (metis Suc_diff_Suc Suc_lessD mult_Suc_right)
    ultimately show ?thesis
      using start W(2-4) \<open>Suc loop < c\<close> by (intro exI [of _ s'] exI [of _ "bs @ bs'"]) (simp add: add.assoc id_def S del: of_nat_Suc of_nat_diff)
  qed
qed simp

text \<open>One successful call of \<^verbatim>\<open>read\<close>, which brings \<open>w\<close> bytes.\<close>

lemma read_all_step:
  assumes "read_rules L fd avail" and "0 < r" and "r \<le> length recv" and "avail s \<noteq> []"
  obtains w s1 recv1 b where "0 < w" "w \<le> r" "w \<le> length (avail s)" "avail s1 = drop w (avail s)" "0 \<le> b" "length recv1 = length recv"
    "take (length recv - r + w) recv1 = take (length recv - r) recv @ take w (avail s)"
    "read_all (Suc f) L fd recv (int r) tot k (s, outcomes) =
       (if w = r then k (b, tot + int w, 0, recv1) else read_all f L fd recv1 (int (r - w)) (tot + int w) k) (s1, outcomes @ [True])"
proof -
  let ?pos = "length recv - r"
  obtain a s1 where a: "L (Read fd (int r)) s = Inr (a, s1)" and
    A: "1 \<le> ret a" "ret a \<le> int r" "ret a \<le> int (length (avail s))" "out_data a = take (nat (ret a)) (avail s)"
      "avail s1 = drop (nat (ret a)) (avail s)"
    using assms(1,2,4) unfolding read_rules_def by metis
  let ?w = "nat (ret a)" and ?recv = "take ?pos recv @ out_data a @ drop (?pos + length (out_data a)) recv"
  have w: "length (out_data a) = ?w" "?w \<le> r" "?w \<le> length (avail s)" "0 < ?w" "ret a = int ?w" using A by auto
  have buf: "length ?recv = length recv" "take (?pos + ?w) ?recv = take ?pos recv @ take ?w (avail s)" "\<not> length recv < ?pos + length (out_data a)"
    using w assms(3) A(4) by auto
  have "read_all (Suc f) L fd recv (int r) tot k (s, outcomes) =
      (if ?w = r then k (ret a, tot + int ?w, 0, ?recv) else read_all f L fd ?recv (int (r - ?w)) (tot + int ?w) k) (s1, outcomes @ [True])"
    using a A(1,2) w(2) buf(3) by (auto simp: Let_def int_ops)
  from that [OF w(4,2,3) A(5) _ buf(1,2) this] A(1) show thesis by simp
qed

lemma read_all_ok:
  assumes "read_rules L fd avail" and "0 < r" and "r \<le> length recv" and "r \<le> f"
  defines "g \<equiv> \<lambda>s r. min r (length (avail s))"
  shows "\<exists>s' bs b recv'. read_all f L fd recv (int r) tot k (s, outcomes) =
      k (b, tot + int (g s r), int r - int (g s r), recv') (s', outcomes @ bs) \<and> list_all id bs \<and>
    (b < 0 \<longleftrightarrow> length (avail s) < r) \<and> length recv' = length recv \<and>
    take (length recv - r + g s r) recv' = take (length recv - r) recv @ take r (avail s) \<and>
    avail s' = drop r (avail s)"
  using assms(2-4)
proof (induction f arbitrary: r recv tot s outcomes)
  case (Suc f)
  show ?case
  proof (cases "avail s = []")
    case True
    obtain a s1 where "L (Read fd (int r)) s = Inr (a, s1)" "ret a < 0" "out_data a = []" "avail s1 = []"
      using assms(1) Suc.prems(1) True unfolding read_rules_def by metis
    with True Suc.prems show ?thesis
      by (intro exI [of _ s1] exI [of _ "[] :: bool list"] exI [of _ "ret a"] exI [of _ recv]) (auto simp: g_def Let_def)
  next
    case False
    obtain w s1 recv1 b1 where w: "0 < w" "w \<le> r" "w \<le> length (avail s)" "avail s1 = drop w (avail s)" "0 \<le> b1" and
      buf: "length recv1 = length recv" "take (length recv - r + w) recv1 = take (length recv - r) recv @ take w (avail s)" and
      step: "read_all (Suc f) L fd recv (int r) tot k (s, outcomes) =
       (if w = r then k (b1, tot + int w, 0, recv1) else read_all f L fd recv1 (int (r - w)) (tot + int w) k) (s1, outcomes @ [True])"
      by (rule read_all_step [OF assms(1) Suc.prems(1,2) False])
    show ?thesis
    proof (cases "w = r")
      case True
      then show ?thesis unfolding step using buf w Suc.prems
        by (intro exI [of _ s1] exI [of _ "[True]"] exI [of _ b1] exI [of _ recv1]) (simp add: g_def)
    next
      case wr: False
      then have r: "0 < r - w" "r - w \<le> length recv1" "r - w \<le> f" using w Suc.prems buf(1) by auto
      have g: "g s1 (r - w) = g s r - w" "w \<le> g s r" "g s r \<le> r" using w by (auto simp: g_def min_def)
      have len: "length recv1 - (r - w) = length recv - r + w" using buf(1) w Suc.prems(2) by simp
      from Suc.IH [OF r, of "tot + int w" s1 "outcomes @ [True]"] obtain s' bs b recv' where IH:
        "read_all f L fd recv1 (int (r - w)) (tot + int w) k (s1, outcomes @ [True]) =
          k (b, tot + int w + int (g s1 (r - w)), int (r - w) - int (g s1 (r - w)), recv') (s', (outcomes @ [True]) @ bs)"
        "list_all id bs" "b < 0 \<longleftrightarrow> length (avail s1) < r - w" "length recv' = length recv1"
        "take (length recv - r + w + g s1 (r - w)) recv' = take (length recv - r + w) recv1 @ take (r - w) (avail s1)"
        "avail s' = drop (r - w) (avail s1)" unfolding len by metis
      have sizes: "tot + int w + int (g s1 (r - w)) = tot + int (g s r)" "int (r - w) - int (g s1 (r - w)) = int r - int (g s r)"
        using g w(2) by simp_all
      have "read_all (Suc f) L fd recv (int r) tot k (s, outcomes) =
          k (b, tot + int (g s r), int r - int (g s r), recv') (s', outcomes @ True # bs)"
        unfolding step if_not_P [OF wr] IH(1) sizes by simp
      moreover have "b < 0 \<longleftrightarrow> length (avail s) < r" "avail s' = drop r (avail s)" using IH(3,6) w(2-4) by auto
      moreover have "take (length recv - r + g s r) recv' = take (length recv - r) recv @ take r (avail s)"
        using IH(5) g(1,2) w(2,4) take_add [of w "r - w" "avail s"] unfolding buf(2) by simp
      moreover have "list_all id (True # bs)" using IH(2) by simp
      ultimately show ?thesis using IH(4) buf(1) by metis
    qed
  qed
qed simp

lemma read_all_okE:
  assumes "read_rules L fd avail" and "0 < size_n" and "length recv = size_n" and "size_n \<le> f"
  obtains s' bs b recv' g where
    "read_all f L fd recv (int size_n) tot k (s, outcomes) =
       k (b, tot + int g, int size_n - int g, recv') (s', outcomes @ bs)"
    "g = min size_n (length (avail s))" "list_all id bs" "b < 0 \<longleftrightarrow> length (avail s) < size_n" "length recv' = size_n"
    "take g recv' = take g (avail s)" "avail s' = drop g (avail s)"
proof -
  have le: "size_n \<le> length recv" using assms(3) by simp
  show thesis
    using read_all_ok [OF assms(1,2) le assms(4), of tot k s outcomes] assms(3) that by auto
qed

lemma map2_eq_self: "list_all id (map2 (=) xs xs)"
  by (induction xs) auto

text \<open>One round of a receiver: a buffer is filled, or the stream ends.\<close>

lemma transfer_round:
  assumes "read_rules L fd avail" and "0 < buffer_size" and "buffer_size \<le> f" and "length recv = buffer_size" and "avail s = draw_bytes draw pos m"
  defines "g \<equiv> min buffer_size m"
  obtains s1 es recv1 and b :: int where "list_all id es" "b < 0 \<longleftrightarrow> m < buffer_size" "length recv1 = buffer_size" "avail s1 = drop g (draw_bytes draw pos m)"
    "transfer_loop (Suc n) f L fd draw False buffer_size (int c) pos recv (int loop) tot k (s, outcomes) =
       (if b < 0 \<or> int c \<noteq> 0 \<and> int c \<le> int loop + 1 then k (tot + int g)
        else transfer_loop n f L fd draw False buffer_size (int c) (pos + buffer_size) recv1 (int loop + 1) (tot + int g) k) (s1, outcomes @ es)"
proof -
  let ?b = "draw_bytes draw pos buffer_size"
  let ?C = "\<lambda>recv_buffer total_size. if int c \<noteq> 0 \<and> int c \<le> int loop + 1 then k total_size
    else transfer_loop n f L fd draw False buffer_size (int c) (pos + buffer_size) recv_buffer (int loop + 1) total_size k"
  let ?K = "\<lambda>(read_byte :: int, total_size, remaining, recv_buffer).
    expect (map2 (=) (take (buffer_size - nat remaining) ?b) (take (buffer_size - nat remaining) recv_buffer))
      (if read_byte < 0 then k total_size else ?C recv_buffer total_size)"
  obtain s1 bs b recv1 g' where R: "read_all f L fd recv (int buffer_size) tot ?K (s, outcomes) =
       ?K (b, tot + int g', int buffer_size - int g', recv1) (s1, outcomes @ bs)"
    "g' = min buffer_size (length (avail s))" "list_all id bs" "b < 0 \<longleftrightarrow> length (avail s) < buffer_size"
    "length recv1 = buffer_size" "take g' recv1 = take g' (avail s)" "avail s1 = drop g' (avail s)"
    by (rule read_all_okE [OF assms(1,2,4,3)])
  let ?e = "map2 (=) (draw_bytes draw pos g) (draw_bytes draw pos g)"
  have g: "g' = g" using R(2) assms(5) by (simp add: g_def)
  have "buffer_size - nat (int buffer_size - int g) = g" by (simp add: g_def)
  then have "transfer_loop (Suc n) f L fd draw False buffer_size (int c) pos recv (int loop) tot k (s, outcomes) =
      (if b < 0 then k (tot + int g) else ?C recv1 (tot + int g)) (s1, outcomes @ bs @ ?e)"
    using R(1,6) assms(5) unfolding g by (simp only: transfer_loop.simps Let_def if_False split_conv) (simp add: g_def)
  moreover have "list_all id (bs @ ?e)" using R(3) by (simp add: map2_eq_self [unfolded id_def] id_def)
  ultimately show thesis using that [of "bs @ ?e" b recv1 s1] R(4,5,7) assms(5) unfolding g by simp
qed

lemma transfer_loop_receives:
  assumes "read_rules L fd avail" and "0 < buffer_size" and "buffer_size \<le> f"
    and "length recv = buffer_size" and "avail s = draw_bytes draw pos m" and "m < n * buffer_size"
    and "c = 0 \<or> loop < c \<and> m = buffer_size * (c - loop)"
  shows "\<exists>s' bs. transfer_loop n f L fd draw False buffer_size (int c) pos recv (int loop) tot k (s, outcomes) =
      k (tot + int m) (s', outcomes @ bs) \<and> list_all id bs \<and> avail s' = []"
  using assms(4-)
proof (induction n arbitrary: loop pos tot s outcomes recv m)
  case (Suc n)
  let ?g = "min buffer_size m"
  obtain s1 es recv1 and b :: int where R: "list_all id es" "b < 0 \<longleftrightarrow> m < buffer_size" "length recv1 = buffer_size" "avail s1 = drop ?g (draw_bytes draw pos m)" and
    round: "transfer_loop (Suc n) f L fd draw False buffer_size (int c) pos recv (int loop) tot k (s, outcomes) =
       (if b < 0 \<or> int c \<noteq> 0 \<and> int c \<le> int loop + 1 then k (tot + int ?g)
        else transfer_loop n f L fd draw False buffer_size (int c) (pos + buffer_size) recv1 (int loop + 1) (tot + int ?g) k) (s1, outcomes @ es)"
    by (rule transfer_round [OF assms(1-3) Suc.prems(1,2)])
  show ?case
  proof (cases "m < buffer_size \<or> c = Suc loop")
    case True
    then have "?g = m" "b < 0 \<or> int c \<noteq> 0 \<and> int c \<le> int loop + 1" using R(2) Suc.prems(4) by auto
    with round R(1,4) show ?thesis by (intro exI [of _ s1] exI [of _ es]) (simp add: id_def del: transfer_loop.simps)
  next
    case False
    then have m: "?g = buffer_size" "avail s1 = draw_bytes draw (pos + buffer_size) (m - buffer_size)" using R(4) by auto
    have S: "int (Suc loop) = int loop + 1" by simp
    have "m - buffer_size < n * buffer_size" using Suc.prems(3) False by auto
    moreover have "c = 0 \<or> Suc loop < c \<and> m - buffer_size = buffer_size * (c - Suc loop)"
      using Suc.prems(4) False by (auto simp: diff_mult_distrib2)
    ultimately obtain s' bs' where
      "transfer_loop n f L fd draw False buffer_size (int c) (pos + buffer_size) recv1 (int loop + 1) (tot + int ?g) k
         (s1, outcomes @ es) = k (tot + int ?g + int (m - buffer_size)) (s', (outcomes @ es) @ bs')"
      "list_all id bs'" "avail s' = []"
      using Suc.IH [OF R(3) m(2), of "Suc loop" "tot + int ?g" "outcomes @ es"] unfolding S by blast
    moreover have go: "\<not> (b < 0 \<or> int c \<noteq> 0 \<and> int c \<le> int loop + 1)" using Suc.prems(4) False R(2) by auto
    ultimately show ?thesis using round [unfolded if_not_P [OF go]] m(1) R(1) False
      by (intro exI [of _ s'] exI [of _ "es @ bs'"]) (simp add: of_nat_diff id_def del: transfer_loop.simps)
  qed
qed simp

lemma transfer_sends:
  assumes "write_rules L fd sent" and "atoi (e ''SENDER'') \<noteq> 0" and "atoi (e ''BUFFER_SIZE'') = int b"
    and "atoi (e ''LOOP_COUNT'') = int c" and "atoi (e ''EXPECT_SIZE'') = int (b * c)"
    and "0 < b" and "b \<le> f" and "0 < c" and "c \<le> n"
  shows "\<exists>s' bs. transfer n f draw junk L e fd k (s, outcomes) = k (s', outcomes @ bs) \<and> list_all id bs \<and>
    sent s' = sent s @ draw_bytes (draw (of_int (atoi (e ''RANDOM_SEED'')))) 0 (b * c)"
proof -
  have c: "c - 0 \<le> n" using assms(9) by simp
  from transfer_loop_sends [OF assms(1,6-8) c, of "draw (of_int (atoi (e ''RANDOM_SEED'')))" 0 "replicate b junk" 0
      "\<lambda>x. expect [int (b * c) = x] k" s outcomes]
  obtain s' bs where T: "transfer_loop n f L fd (draw (of_int (atoi (e ''RANDOM_SEED'')))) True b (int c) 0 (replicate b junk)
        0 0 (\<lambda>x. expect [int (b * c) = x] k) (s, outcomes) = expect [int (b * c) = int (b * c)] k (s', outcomes @ bs)"
      "list_all id bs" "sent s' = sent s @ draw_bytes (draw (of_int (atoi (e ''RANDOM_SEED'')))) 0 (b * c)"
    by auto
  then show ?thesis
    using assms(2-5) by (intro exI [of _ s'] exI [of _ "bs @ [True]"]) (simp add: transfer_def Let_def id_def)
qed

lemma transfer_receives:
  assumes "read_rules L fd avail" and "atoi (e ''SENDER'') = 0" and "atoi (e ''BUFFER_SIZE'') = int b"
    and "atoi (e ''LOOP_COUNT'') = int c" and "atoi (e ''EXPECT_SIZE'') = int m"
    and "0 < b" and "b \<le> f" and "m < n * b" and "c = 0 \<or> 0 < c \<and> m = b * c"
    and "avail s = draw_bytes (draw (of_int (atoi (e ''RANDOM_SEED'')))) 0 m"
  shows "\<exists>s' bs. transfer n f draw junk L e fd k (s, outcomes) = k (s', outcomes @ bs) \<and> list_all id bs \<and> avail s' = []"
proof -
  have c: "c = 0 \<or> 0 < c \<and> m = b * (c - 0)" using assms(9) by simp
  from transfer_loop_receives [OF assms(1,6,7) length_replicate assms(10,8) c, of junk 0
      "\<lambda>x. expect [int m = x] k" outcomes]
  obtain s' bs where T: "transfer_loop n f L fd (draw (of_int (atoi (e ''RANDOM_SEED'')))) False b (int c) 0 (replicate b junk)
        0 0 (\<lambda>x. expect [int m = x] k) (s, outcomes) = expect [int m = int m] k (s', outcomes @ bs)"
      "list_all id bs" "avail s' = []"
    by auto
  then show ?thesis
    using assms(2-5) by (intro exI [of _ s'] exI [of _ "bs @ [True]"]) (simp add: transfer_def Let_def id_def)
qed

text \<open>Two environments fit together: the one sends as many bytes as both expect, and the other reads
  them to the end or in rounds that add up to them, with buffers of at most \<open>B\<close> bytes and fewer than
  \<open>R\<close> rounds.\<close>

definition fits :: "int \<Rightarrow> int \<Rightarrow> test_env \<Rightarrow> test_env \<Rightarrow> bool" where
  "fits B R es er \<longleftrightarrow>
     (let b = atoi (es ''BUFFER_SIZE''); c = atoi (es ''LOOP_COUNT'');
          b' = atoi (er ''BUFFER_SIZE''); c' = atoi (er ''LOOP_COUNT'')
      in es ''RANDOM_SEED'' = er ''RANDOM_SEED'' \<and> atoi (es ''SENDER'') \<noteq> 0 \<and> atoi (er ''SENDER'') = 0 \<and>
         atoi (es ''EXPECT_SIZE'') = b * c \<and> atoi (er ''EXPECT_SIZE'') = b * c \<and>
         0 < b \<and> b \<le> B \<and> 0 < c \<and> c \<le> R \<and> 0 < b' \<and> b' \<le> B \<and>
         (c' = 0 \<or> 0 < c' \<and> b * c = b' * c') \<and> b * c < R * b')"

lemma fitsE:
  assumes "fits (int B) (int R) es er"
  obtains b c b' c' where "atoi (es ''SENDER'') \<noteq> 0" "atoi (er ''SENDER'') = 0" "es ''RANDOM_SEED'' = er ''RANDOM_SEED''"
    "atoi (es ''BUFFER_SIZE'') = int b" "atoi (es ''LOOP_COUNT'') = int c" "atoi (es ''EXPECT_SIZE'') = int (b * c)"
    "atoi (er ''BUFFER_SIZE'') = int b'" "atoi (er ''LOOP_COUNT'') = int c'" "atoi (er ''EXPECT_SIZE'') = int (b * c)"
    "0 < b" "b \<le> B" "0 < c" "c \<le> R" "0 < b'" "b' \<le> B" "c' = 0 \<or> 0 < c' \<and> b * c = b' * c'" "b * c < R * b'"
proof -
  let ?b = "atoi (es ''BUFFER_SIZE'')" and ?c = "atoi (es ''LOOP_COUNT'')"
  let ?b' = "atoi (er ''BUFFER_SIZE'')" and ?c' = "atoi (er ''LOOP_COUNT'')"
  have "0 \<le> ?b" "0 \<le> ?c" "0 \<le> ?b'" "0 \<le> ?c'" using assms by (auto simp: fits_def Let_def)
  then obtain b c b' c' where n: "?b = int b" "?c = int c" "?b' = int b'" "?c' = int c'"
    by (metis nonneg_int_cases)
  from assms show thesis
    unfolding fits_def Let_def n by (intro that [OF _ _ _ n(1,2) _ n(3,4)]) (simp_all flip: of_nat_mult)
qed

lemma atoi_literals [simp]:
  "atoi ''0'' = 0" "atoi ''1'' = 1" "atoi ''53'' = 53" "atoi ''67'' = 67" "atoi ''128'' = 128"
  "atoi ''1024'' = 1024" "atoi ''1223'' = 1223" "atoi ''64819'' = 64819" "atoi ''131072'' = 131072"
  by (simp_all add: atoi_def atol_def parse_dec_def is_digit_def is_space_def)

lemmas transfer_test_defs =
  TestTransfer_Connect_Send_Symmetric_def TestTransfer_Connect_Send_EOF_def TestTransfer_Connect_Recv_Symmetric_def
  TestTransfer_Connect_Recv_EOF_def TestTransfer_Connect_Recv_SmallBuffer1_def TestTransfer_Connect_Recv_SmallBuffer2_def
  TestTransfer_Accept_Send_Symmetric_def TestTransfer_Accept_Send_EOF_def TestTransfer_Accept_Recv_Symmetric_def
  TestTransfer_Accept_Recv_EOF_def TestTransfer_Accept_Recv_SmallBuffer1_def TestTransfer_Accept_Recv_SmallBuffer2_def

lemma transfer_tests_fit:
  assumes "test \<in> set transfer_tests"
  shows "\<exists>es er. set (map (\<lambda>(h, c, e). e) (added (test seed ip))) = {es, er} \<and> fits 1024 2000 es er"
proof -
  have pair: "\<exists>es er. {x, y} = {es, er} \<and> fits 1024 2000 es er" if "fits 1024 2000 x y \<or> fits 1024 2000 y x" for x y
    using that by blast
  show ?thesis
    using assms unfolding transfer_tests_def
    by (simp only: set_simps insert_iff empty_iff)
      (elim disjE FalseE; simp only: transfer_test_defs Let_def test_plan.simps list.map set_simps split_conv;
       rule pair; simp add: fits_def)
qed

text \<open>Applications whose environments fit together pass their transfer on every connection.\<close>

lemma fits_transfer:
  assumes "fits (int B) (int R) es er" and "write_rules LS fd sent" and "read_rules LR fd' avail"
    and "sent s = []" and "R \<le> n" and "B \<le> f"
  shows "\<exists>s' bs. transfer n f draw junk LS es fd (leave 0) (s, []) = Inr (0, s', bs) \<and> list_all id bs \<and>
    (\<forall>r. avail r = sent s' \<longrightarrow> (\<exists>r' bs'.
       transfer n f draw junk LR er fd' (leave 0) (r, []) = Inr (0, r', bs') \<and> list_all id bs' \<and> avail r' = []))"
  using assms(1)
proof (rule fitsE)
  fix b c b' c'
  assume S: "atoi (es ''SENDER'') \<noteq> 0" "atoi (er ''SENDER'') = 0" "es ''RANDOM_SEED'' = er ''RANDOM_SEED''"
    "atoi (es ''BUFFER_SIZE'') = int b" "atoi (es ''LOOP_COUNT'') = int c" "atoi (es ''EXPECT_SIZE'') = int (b * c)"
    "atoi (er ''BUFFER_SIZE'') = int b'" "atoi (er ''LOOP_COUNT'') = int c'" "atoi (er ''EXPECT_SIZE'') = int (b * c)"
    "0 < b" "b \<le> B" "0 < c" "c \<le> R" "0 < b'" "b' \<le> B" "c' = 0 \<or> 0 < c' \<and> b * c = b' * c'" "b * c < R * b'"
  have fuel: "b \<le> f" "c \<le> n" "b' \<le> f" "b * c < n * b'"
    using S(11,13,15) assms(5,6) less_le_trans [OF S(17) mult_le_mono1 [OF assms(5), of b']] by simp_all
  obtain s' bs where send: "transfer n f draw junk LS es fd (leave 0) (s, []) = Inr (0, s', bs)" "list_all id bs"
      "sent s' = draw_bytes (draw (of_int (atoi (es ''RANDOM_SEED'')))) 0 (b * c)"
    using transfer_sends [OF assms(2) S(1,4-6,10) fuel(1) S(12) fuel(2), of draw junk "leave 0" s "[]"] assms(4)
    by auto
  have "\<exists>r' bs'. transfer n f draw junk LR er fd' (leave 0) (r, []) = Inr (0, r', bs') \<and> list_all id bs' \<and> avail r' = []"
    if "avail r = sent s'" for r
    using transfer_receives [OF assms(3) S(2,7-9,14) fuel(3,4) S(16), of r draw junk "leave 0" "[]"] that send(3) S(3)
    by auto
  with send(1,2) show ?thesis by blast
qed

section \<open>Properties\<close>


text \<open>Two ends of a connection that carries three bytes at a time: the bytes sent, and the bytes to read.\<close>

definition three_layer :: "bytes layer" where
  "three_layer r s =
     (let a = \<lparr>ret = 0, out_addr = zero_addr, out_len = 0, out_data = [], out_sec = 0, out_usec = 0\<rparr> in
      case r of
        Write fd data cnt \<Rightarrow> Inr (a\<lparr>ret := int (min 3 (length data))\<rparr>, s @ take 3 data)
      | Read fd cnt \<Rightarrow>
          if s = [] then Inr (a\<lparr>ret := - 1\<rparr>, s)
          else (let g = min 3 (min (nat cnt) (length s)) in Inr (a\<lparr>ret := int g, out_data := take g s\<rparr>, drop g s))
      | _ \<Rightarrow> Inl NoReturn)"

lemma three_layer_rules: "write_rules three_layer fd id" "read_rules three_layer fd id"
  by (auto simp: write_rules_def read_rules_def three_layer_def Let_def min_def Suc_le_eq)



definition silent_layer :: "unit layer" where
  "silent_layer r s = Inr (\<lparr>ret = 0, out_addr = zero_addr, out_len = 0, out_data = [], out_sec = 0, out_usec = 0\<rparr>, s)"


text \<open>The random seed of a transfer test does not reach its applications: the test assigns an \<^verbatim>\<open>int\<close> to a
  \<^verbatim>\<open>std::string\<close>, which keeps one character, so the seed an application reads is one of ten.\<close>

theorem random_seed_ten_values: "atoi (string_of_int seed) \<in> {0..9}"
proof -
  let ?c = "char_of (seed mod 256) :: char"
  let ?n = "of_char ?c :: nat"
  have "atol [?c] \<in> {0..9}"
    by (auto simp: atol_def Let_def parse_dec_def is_digit_def)
  then have "0 \<le> atol [?c]" "atol [?c] < 2 ^ 31" by auto
  then have "atoi [?c] = atol [?c]"
    by (simp add: atoi_def signed_of_int signed_take_bit_int_eq_self)
  with \<open>atol [?c] \<in> {0..9}\<close> show ?thesis by (simp add: string_of_int_def)
qed

end
