(* ===== verification/Test_Connections.thy ===== *)
theory Test_Connections
  imports Test_Transfer Topology
begin

text \<open>
  The tests of opening and closing connections: \<^verbatim>\<open>app/kens/testhandshake.cpp\<close>,
  \<^verbatim>\<open>app/kens/testclose.cpp\<close> and \<^verbatim>\<open>app/kens/testcongestion.cpp\<close>. Their applications share the
  blocks of the transfer tests, as their sources do.
\<close>

section \<open>Closing\<close>

definition TestClose_Accept_main :: "'s layer \<Rightarrow> test_env \<Rightarrow> 's main" where
  "TestClose_Accept_main L env =
     serve_one L env (\<lambda>server_socket client_fd.
     sleep_until L (atol (env ''CLOSE_TIME'')) (
     req L (Close client_fd) (\<lambda>_.
     req L (Close server_socket) (\<lambda>_. leave 0))))"

definition TestClose_Connect_main :: "'s layer \<Rightarrow> test_env \<Rightarrow> 's main" where
  "TestClose_Connect_main L env =
     connect_to L env (\<lambda>client_socket.
     sleep_until L (atol (env ''CLOSE_TIME'')) (
     req L (Close client_socket) (\<lambda>_. leave 0)))"

definition TestClose_Connect_CloseFirst :: "(nat \<Rightarrow> nat \<Rightarrow> ipv4_t) \<Rightarrow> test_plan" where
  "TestClose_Connect_CloseFirst ip =
     (let host2_ip = dotted (ip 2 0);
          accept_env = empty_env(''LISTEN_ADDR'' := ''0.0.0.0'', ''LISTEN_PORT'' := ''9999'',
            ''BACKLOG'' := ''1'', ''LISTEN_TIME'' := ''0'',
            ''ACCEPT_TIME'' := printTime (makeTime 1000 USEC) USEC,
            ''CLOSE_TIME'' := printTime (makeTime 1020000 USEC) USEC);
          connect_env = empty_env(''CONNECT_PORT'' := ''9999'',
            ''CONNECT_TIME'' := printTime (makeTime 2000 USEC) USEC,
            ''CLOSE_TIME'' := printTime (makeTime 1010000 USEC) USEC, ''CONNECT_ADDR'' := host2_ip);
          client_pid = (1, TestClose_Connect, connect_env);
          server_pid = (2, TestClose_Accept, accept_env)
      in \<lparr>added = [client_pid, server_pid],
          launched = [client_pid, server_pid]\<rparr>)"

definition TestClose_Connect_CloseLater :: "(nat \<Rightarrow> nat \<Rightarrow> ipv4_t) \<Rightarrow> test_plan" where
  "TestClose_Connect_CloseLater ip =
     (let host2_ip = dotted (ip 2 0);
          accept_env = empty_env(''LISTEN_ADDR'' := ''0.0.0.0'', ''LISTEN_PORT'' := ''9999'',
            ''BACKLOG'' := ''1'', ''LISTEN_TIME'' := ''0'',
            ''ACCEPT_TIME'' := printTime (makeTime 1000 USEC) USEC,
            ''CLOSE_TIME'' := printTime (makeTime 1010000 USEC) USEC);
          connect_env = empty_env(''CONNECT_PORT'' := ''9999'',
            ''CONNECT_TIME'' := printTime (makeTime 2000 USEC) USEC,
            ''CLOSE_TIME'' := printTime (makeTime 1020000 USEC) USEC, ''CONNECT_ADDR'' := host2_ip);
          client_pid = (1, TestClose_Connect, connect_env);
          server_pid = (2, TestClose_Accept, accept_env)
      in \<lparr>added = [client_pid, server_pid],
          launched = [client_pid, server_pid]\<rparr>)"

definition TestClose_Connect_CloseSimultaneous :: "(nat \<Rightarrow> nat \<Rightarrow> ipv4_t) \<Rightarrow> test_plan" where
  "TestClose_Connect_CloseSimultaneous ip =
     (let host2_ip = dotted (ip 2 0);
          accept_env = empty_env(''LISTEN_ADDR'' := ''0.0.0.0'', ''LISTEN_PORT'' := ''9999'',
            ''BACKLOG'' := ''1'', ''LISTEN_TIME'' := ''0'',
            ''ACCEPT_TIME'' := printTime (makeTime 1000 USEC) USEC,
            ''CLOSE_TIME'' := printTime (makeTime 1010000 USEC) USEC);
          connect_env = empty_env(''CONNECT_PORT'' := ''9999'',
            ''CONNECT_TIME'' := printTime (makeTime 2000 USEC) USEC,
            ''CLOSE_TIME'' := printTime (makeTime 1010000 USEC) USEC, ''CONNECT_ADDR'' := host2_ip);
          client_pid = (1, TestClose_Connect, connect_env);
          server_pid = (2, TestClose_Accept, accept_env)
      in \<lparr>added = [client_pid, server_pid],
          launched = [client_pid, server_pid]\<rparr>)"

definition TestClose_Accept_CloseLater :: "(nat \<Rightarrow> nat \<Rightarrow> ipv4_t) \<Rightarrow> test_plan" where
  "TestClose_Accept_CloseLater ip =
     (let host1_ip = dotted (ip 1 0);
          accept_env = empty_env(''LISTEN_ADDR'' := ''0.0.0.0'', ''LISTEN_PORT'' := ''9999'',
            ''BACKLOG'' := ''1'', ''LISTEN_TIME'' := ''0'',
            ''ACCEPT_TIME'' := printTime (makeTime 1000 USEC) USEC,
            ''CLOSE_TIME'' := printTime (makeTime 1020000 USEC) USEC);
          connect_env = empty_env(''CONNECT_PORT'' := ''9999'',
            ''CONNECT_TIME'' := printTime (makeTime 2000 USEC) USEC,
            ''CLOSE_TIME'' := printTime (makeTime 1010000 USEC) USEC, ''CONNECT_ADDR'' := host1_ip);
          client_pid = (2, TestClose_Connect, connect_env);
          server_pid = (1, TestClose_Accept, accept_env)
      in \<lparr>added = [client_pid, server_pid],
          launched = [client_pid, server_pid]\<rparr>)"

definition TestClose_Accept_CloseFirst :: "(nat \<Rightarrow> nat \<Rightarrow> ipv4_t) \<Rightarrow> test_plan" where
  "TestClose_Accept_CloseFirst ip =
     (let host1_ip = dotted (ip 1 0);
          accept_env = empty_env(''LISTEN_ADDR'' := ''0.0.0.0'', ''LISTEN_PORT'' := ''9999'',
            ''BACKLOG'' := ''1'', ''LISTEN_TIME'' := ''0'',
            ''ACCEPT_TIME'' := printTime (makeTime 1000 USEC) USEC,
            ''CLOSE_TIME'' := printTime (makeTime 1010000 USEC) USEC);
          connect_env = empty_env(''CONNECT_PORT'' := ''9999'',
            ''CONNECT_TIME'' := printTime (makeTime 2000 USEC) USEC,
            ''CLOSE_TIME'' := printTime (makeTime 1020000 USEC) USEC, ''CONNECT_ADDR'' := host1_ip);
          client_pid = (2, TestClose_Connect, connect_env);
          server_pid = (1, TestClose_Accept, accept_env)
      in \<lparr>added = [client_pid, server_pid],
          launched = [client_pid, server_pid]\<rparr>)"

definition TestClose_Accept_CloseSimultaneous :: "(nat \<Rightarrow> nat \<Rightarrow> ipv4_t) \<Rightarrow> test_plan" where
  "TestClose_Accept_CloseSimultaneous ip =
     (let host1_ip = dotted (ip 1 0);
          accept_env = empty_env(''LISTEN_ADDR'' := ''0.0.0.0'', ''LISTEN_PORT'' := ''9999'',
            ''BACKLOG'' := ''1'', ''LISTEN_TIME'' := ''0'',
            ''ACCEPT_TIME'' := printTime (makeTime 1000 USEC) USEC,
            ''CLOSE_TIME'' := printTime (makeTime 1010000 USEC) USEC);
          connect_env = empty_env(''CONNECT_PORT'' := ''9999'',
            ''CONNECT_TIME'' := printTime (makeTime 2000 USEC) USEC,
            ''CLOSE_TIME'' := printTime (makeTime 1010000 USEC) USEC, ''CONNECT_ADDR'' := host1_ip);
          client_pid = (2, TestClose_Connect, connect_env);
          server_pid = (1, TestClose_Accept, accept_env)
      in \<lparr>added = [client_pid, server_pid],
          launched = [client_pid, server_pid]\<rparr>)"

definition close_tests :: "((nat \<Rightarrow> nat \<Rightarrow> ipv4_t) \<Rightarrow> test_plan) list" where
  "close_tests =
     [TestClose_Connect_CloseFirst,
      TestClose_Connect_CloseLater,
      TestClose_Connect_CloseSimultaneous,
      TestClose_Accept_CloseLater,
      TestClose_Accept_CloseFirst,
      TestClose_Accept_CloseSimultaneous]"

section \<open>Handshakes\<close>

text \<open>The accepting loop of the server, \<open>cnt\<close> passes of it left.\<close>

primrec accept_loop :: "nat \<Rightarrow> 's layer \<Rightarrow> int \<Rightarrow> sockaddr_in \<Rightarrow> int \<Rightarrow> int list \<Rightarrow> (int list \<Rightarrow> 's main) \<Rightarrow> 's main" where
  "accept_loop 0 L server_socket addr accept_period client_sockets k = k client_sockets"
| "accept_loop (Suc cnt) L server_socket addr accept_period client_sockets k =
     req L (Accept server_socket sizeof_addr) (\<lambda>client.
     if ret client \<ge> 0 then
       expect [out_len client = sizeof_addr, sin_family (out_addr client) = AF_INET16] (
       req L (Getsockname (ret client) sizeof_addr) (\<lambda>r.
       let temp_addr = out_addr r in
       expect [ret r = 0, sin_addr addr = 0 \<or> sin_addr addr = sin_addr temp_addr,
               sin_family addr = sin_family temp_addr, sin_port addr = sin_port temp_addr] (
       usleep L accept_period (
       accept_loop cnt L server_socket addr accept_period (client_sockets @ [ret client]) k))))
     else
       usleep L accept_period (accept_loop cnt L server_socket addr accept_period client_sockets k))"

text \<open>No descriptor was returned twice.\<close>

definition same_counts :: "int list \<Rightarrow> bool list" where
  "same_counts fds = map (\<lambda>fd. length (filter (\<lambda>fd2. fd = fd2) fds) = 1) fds"

primrec close_all :: "'s layer \<Rightarrow> int list \<Rightarrow> 's main \<Rightarrow> 's main" where
  "close_all L [] k = k"
| "close_all L (fd # fds) k = req L (Close fd) (\<lambda>_. close_all L fds k)"

definition TestHandshake_Accept_main :: "'s layer \<Rightarrow> test_env \<Rightarrow> 's main" where
  "TestHandshake_Accept_main L env =
     req L (Socket AF_INET SOCK_STREAM IPPROTO_TCP) (\<lambda>server.
     let server_socket = ret server;
         addr = in_addr (inet_addr (env ''LISTEN_ADDR'')) (atoi (env ''LISTEN_PORT''))
     in
     req L (Bind server_socket addr sizeof_addr) (\<lambda>r.
     expect [ret r = 0] (
     usleep L (atol (env ''LISTEN_TIME'')) (
     req L (Listen server_socket (atoi (env ''BACKLOG''))) (\<lambda>r.
     expect [ret r = 0] (
     usleep L (atol (env ''ACCEPT_TIME'')) (
     accept_loop (nat (atoi (env ''ACCEPT_COUNT''))) L server_socket addr (atoi (env ''ACCEPT_PERIOD'')) [] (\<lambda>client_sockets.
     expect ((int (length client_sockets) = atoi (env ''EXPECT_ACCEPT'')) # same_counts client_sockets) (
     close_all L client_sockets (
     req L (Close server_socket) (\<lambda>_. leave 0)))))))))))"

text \<open>The connecting loop of the client, with the sockets and the local ports of its connections.\<close>

primrec connect_loop ::
  "nat \<Rightarrow> 's layer \<Rightarrow> sockaddr_in \<Rightarrow> int \<Rightarrow> int list \<Rightarrow> int list \<Rightarrow> (int list \<Rightarrow> 's main) \<Rightarrow> 's main" where
  "connect_loop 0 L addr connect_period client_sockets client_ports k = k client_sockets"
| "connect_loop (Suc cnt) L addr connect_period client_sockets client_ports k =
     req L (Socket AF_INET SOCK_STREAM IPPROTO_TCP) (\<lambda>client.
     let client_socket = ret client in
     req L (Connect client_socket addr sizeof_addr) (\<lambda>r.
     if ret r = 0 then
       req L (Getpeername client_socket sizeof_addr) (\<lambda>peer.
       let temp_addr = out_addr peer in
       expect [ret peer = 0, sin_addr addr = sin_addr temp_addr, sin_family addr = sin_family temp_addr,
               sin_port addr = sin_port temp_addr] (
       req L (Getsockname client_socket (out_len peer)) (\<lambda>r.
       let port = uint (sin_port (out_addr r)) in
       expect ((ret r = 0) # map (\<lambda>other_port. port \<noteq> other_port) client_ports) (
       usleep L connect_period (
       connect_loop cnt L addr connect_period (client_sockets @ [client_socket]) (client_ports @ [port]) k)))))
     else
       usleep L connect_period (connect_loop cnt L addr connect_period client_sockets client_ports k)))"

definition TestHandshake_Connect_main :: "'s layer \<Rightarrow> test_env \<Rightarrow> 's main" where
  "TestHandshake_Connect_main L env =
     usleep L (atol (env ''CONNECT_TIME'')) (
     let addr = in_addr (inet_addr (env ''CONNECT_ADDR'')) (atoi (env ''CONNECT_PORT'')) in
     connect_loop (nat (atoi (env ''CONNECT_COUNT''))) L addr (atoi (env ''CONNECT_PERIOD'')) [] [] (\<lambda>client_sockets.
     expect ((int (length client_sockets) = atoi (env ''EXPECT_CONNECT'')) # same_counts client_sockets) (
     close_all L client_sockets (leave 0))))"

definition TestHandshake_SimultaneousConnect_main :: "'s layer \<Rightarrow> test_env \<Rightarrow> 's main" where
  "TestHandshake_SimultaneousConnect_main L env =
     usleep L (atol (env ''CONNECT_TIME'')) (
     req L (Socket AF_INET SOCK_STREAM IPPROTO_TCP) (\<lambda>client.
     let client_socket = ret client;
         bind_addr = in_addr (inet_addr (env ''BIND_ADDR'')) (atoi (env ''BIND_PORT''));
         addr = in_addr (inet_addr (env ''CONNECT_ADDR'')) (atoi (env ''CONNECT_PORT''))
     in
     req L (Bind client_socket bind_addr sizeof_addr) (\<lambda>r.
     expect [ret r = 0] (
     req L (Connect client_socket addr sizeof_addr) (\<lambda>r.
     expect [ret r = 0] (
     req L (Getpeername client_socket sizeof_addr) (\<lambda>peer.
     let temp_addr = out_addr peer in
     expect [ret peer = 0, sin_addr addr = sin_addr temp_addr, sin_family addr = sin_family temp_addr,
             sin_port addr = sin_port temp_addr] (
     req L (Getsockname client_socket (out_len peer)) (\<lambda>r.
     let temp_addr = out_addr r in
     expect [ret r = 0, sin_addr bind_addr = sin_addr temp_addr, sin_family bind_addr = sin_family temp_addr,
             sin_port bind_addr = sin_port temp_addr] (
     req L (Close client_socket) (\<lambda>_. leave 0)))))))))))"

definition TestAccept_Backlog1 :: "(nat \<Rightarrow> nat \<Rightarrow> ipv4_t) \<Rightarrow> test_plan" where
  "TestAccept_Backlog1 ip =
     (let host1_ip = dotted (ip 1 0);
          accept_env = empty_env(''LISTEN_ADDR'' := ''0.0.0.0'', ''LISTEN_PORT'' := ''9999'',
            ''BACKLOG'' := ''3'', ''LISTEN_TIME'' := ''0'',
            ''ACCEPT_TIME'' := printTime (makeTime 1 SEC) USEC, ''ACCEPT_COUNT'' := ''10'',
            ''EXPECT_ACCEPT'' := ''3'', ''ACCEPT_PERIOD'' := ''0'');
          connect_env = empty_env(''CONNECT_ADDR'' := host1_ip, ''CONNECT_PORT'' := ''9999'',
            ''CONNECT_COUNT'' := ''1'', ''EXPECT_CONNECT'' := ''1'', ''CONNECT_PERIOD'' := ''0'');
          server_pid = (1, TestHandshake_Accept, accept_env);
          connect_env = connect_env(''CONNECT_TIME'' := printTime (makeTime 1 USEC) USEC);
          client1_pid = (2, TestHandshake_Connect, connect_env);
          connect_env = connect_env(''CONNECT_TIME'' := printTime (makeTime 2 USEC) USEC);
          client2_pid = (2, TestHandshake_Connect, connect_env);
          connect_env = connect_env(''CONNECT_TIME'' := printTime (makeTime 3 USEC) USEC);
          client3_pid = (2, TestHandshake_Connect, connect_env);
          connect_env = connect_env(''EXPECT_CONNECT'' := ''0'',
            ''CONNECT_TIME'' := printTime (makeTime 4 USEC) USEC);
          client4_pid = (2, TestHandshake_Connect, connect_env);
          connect_env = connect_env(''CONNECT_TIME'' := printTime (makeTime 5 USEC) USEC);
          client5_pid = (2, TestHandshake_Connect, connect_env);
          connect_env = connect_env(''CONNECT_TIME'' := printTime (makeTime 6 USEC) USEC);
          client6_pid = (2, TestHandshake_Connect, connect_env)
      in \<lparr>added = [server_pid, client1_pid, client2_pid, client3_pid, client4_pid, client5_pid, client6_pid],
          launched = [server_pid, client1_pid, client2_pid, client3_pid, client4_pid, client5_pid, client6_pid]\<rparr>)"

definition TestAccept_Backlog2 :: "(nat \<Rightarrow> nat \<Rightarrow> ipv4_t) \<Rightarrow> test_plan" where
  "TestAccept_Backlog2 ip =
     (let host1_ip = dotted (ip 1 0);
          accept_env = empty_env(''LISTEN_ADDR'' := ''0.0.0.0'', ''LISTEN_PORT'' := ''9999'',
            ''BACKLOG'' := ''1'', ''LISTEN_TIME'' := ''0'',
            ''ACCEPT_TIME'' := printTime (makeTime 1 SEC) USEC, ''ACCEPT_COUNT'' := ''10'',
            ''EXPECT_ACCEPT'' := ''6'', ''ACCEPT_PERIOD'' := ''0'');
          connect_env = empty_env(''CONNECT_ADDR'' := host1_ip, ''CONNECT_PORT'' := ''9999'',
            ''CONNECT_COUNT'' := ''1'', ''EXPECT_CONNECT'' := ''1'', ''CONNECT_PERIOD'' := ''0'');
          server_pid = (1, TestHandshake_Accept, accept_env);
          connect_env = connect_env(''CONNECT_TIME'' := printTime (makeTime 10 MSEC) USEC);
          client1_pid = (2, TestHandshake_Connect, connect_env);
          connect_env = connect_env(''CONNECT_TIME'' := printTime (makeTime 20 MSEC) USEC);
          client2_pid = (2, TestHandshake_Connect, connect_env);
          connect_env = connect_env(''CONNECT_TIME'' := printTime (makeTime 30 MSEC) USEC);
          client3_pid = (2, TestHandshake_Connect, connect_env);
          connect_env = connect_env(''CONNECT_TIME'' := printTime (makeTime 40 MSEC) USEC);
          client4_pid = (2, TestHandshake_Connect, connect_env);
          connect_env = connect_env(''CONNECT_TIME'' := printTime (makeTime 50 MSEC) USEC);
          client5_pid = (2, TestHandshake_Connect, connect_env);
          connect_env = connect_env(''CONNECT_TIME'' := printTime (makeTime 60 MSEC) USEC);
          client6_pid = (2, TestHandshake_Connect, connect_env)
      in \<lparr>added = [server_pid, client1_pid, client2_pid, client3_pid, client4_pid, client5_pid, client6_pid],
          launched = [server_pid, client1_pid, client2_pid, client3_pid, client4_pid, client5_pid, client6_pid]\<rparr>)"

definition TestAccept_BeforeAccept :: "(nat \<Rightarrow> nat \<Rightarrow> ipv4_t) \<Rightarrow> test_plan" where
  "TestAccept_BeforeAccept ip =
     (let host1_ip = dotted (ip 1 0);
          accept_env = empty_env(''LISTEN_ADDR'' := ''0.0.0.0'', ''LISTEN_PORT'' := ''9999'',
            ''BACKLOG'' := ''1'', ''LISTEN_TIME'' := ''0'',
            ''ACCEPT_TIME'' := printTime (makeTime 1 SEC) USEC, ''ACCEPT_COUNT'' := ''1'',
            ''EXPECT_ACCEPT'' := ''1'', ''ACCEPT_PERIOD'' := ''0'');
          connect_env = empty_env(''CONNECT_ADDR'' := host1_ip, ''CONNECT_PORT'' := ''9999'',
            ''CONNECT_COUNT'' := ''1'', ''EXPECT_CONNECT'' := ''1'', ''CONNECT_PERIOD'' := ''0'');
          server_pid = (1, TestHandshake_Accept, accept_env);
          connect_env = connect_env(''CONNECT_TIME'' := printTime (makeTime 100 MSEC) USEC);
          client1_pid = (2, TestHandshake_Connect, connect_env)
      in \<lparr>added = [server_pid, client1_pid],
          launched = [server_pid, client1_pid]\<rparr>)"

definition TestAccept_AfterAccept :: "(nat \<Rightarrow> nat \<Rightarrow> ipv4_t) \<Rightarrow> test_plan" where
  "TestAccept_AfterAccept ip =
     (let host1_ip = dotted (ip 1 0);
          accept_env = empty_env(''LISTEN_ADDR'' := ''0.0.0.0'', ''LISTEN_PORT'' := ''9999'',
            ''BACKLOG'' := ''1'', ''LISTEN_TIME'' := ''0'',
            ''ACCEPT_TIME'' := printTime (makeTime 1 SEC) USEC, ''ACCEPT_COUNT'' := ''1'',
            ''EXPECT_ACCEPT'' := ''1'', ''ACCEPT_PERIOD'' := ''0'');
          connect_env = empty_env(''CONNECT_ADDR'' := host1_ip, ''CONNECT_PORT'' := ''9999'',
            ''CONNECT_COUNT'' := ''1'', ''EXPECT_CONNECT'' := ''1'', ''CONNECT_PERIOD'' := ''0'');
          server_pid = (1, TestHandshake_Accept, accept_env);
          connect_env = connect_env(''CONNECT_TIME'' := printTime (makeTime 2 SEC) USEC);
          client1_pid = (2, TestHandshake_Connect, connect_env)
      in \<lparr>added = [server_pid, client1_pid],
          launched = [server_pid, client1_pid]\<rparr>)"

definition TestAccept_MultipleInterface1 :: "(nat \<Rightarrow> nat \<Rightarrow> ipv4_t) \<Rightarrow> test_plan" where
  "TestAccept_MultipleInterface1 ip =
     (let host1_ip = dotted (ip 1 0);
          host1_ip2 = dotted (ip 1 1);
          accept_env = empty_env(''LISTEN_PORT'' := ''9999'', ''BACKLOG'' := ''1'',
            ''LISTEN_TIME'' := ''0'', ''ACCEPT_TIME'' := printTime (makeTime 1 SEC) USEC,
            ''ACCEPT_PERIOD'' := ''0'', ''ACCEPT_COUNT'' := ''3'', ''EXPECT_ACCEPT'' := ''3'',
            ''LISTEN_ADDR'' := host1_ip);
          server1_pid = (1, TestHandshake_Accept, accept_env);
          accept_env = accept_env(''ACCEPT_COUNT'' := ''5'', ''EXPECT_ACCEPT'' := ''5'',
            ''LISTEN_ADDR'' := host1_ip2);
          server2_pid = (1, TestHandshake_Accept, accept_env);
          connect_env = empty_env(''CONNECT_PORT'' := ''9999'', ''CONNECT_PERIOD'' := ''1'',
            ''CONNECT_TIME'' := printTime (makeTime 2 SEC) USEC, ''CONNECT_ADDR'' := host1_ip,
            ''CONNECT_COUNT'' := ''3'', ''EXPECT_CONNECT'' := ''3'');
          client1_pid = (2, TestHandshake_Connect, connect_env);
          connect_env = connect_env(''CONNECT_ADDR'' := host1_ip2, ''CONNECT_COUNT'' := ''5'',
            ''EXPECT_CONNECT'' := ''5'');
          client2_pid = (2, TestHandshake_Connect, connect_env)
      in \<lparr>added = [server1_pid, server2_pid, client1_pid, client2_pid],
          launched = [server1_pid, client1_pid, server2_pid, client2_pid]\<rparr>)"

definition TestAccept_MultipleInterface2 :: "(nat \<Rightarrow> nat \<Rightarrow> ipv4_t) \<Rightarrow> test_plan" where
  "TestAccept_MultipleInterface2 ip =
     (let host1_ip = dotted (ip 1 0);
          host1_ip2 = dotted (ip 1 1);
          accept_env = empty_env(''LISTEN_PORT'' := ''9999'', ''BACKLOG'' := ''1'',
            ''LISTEN_TIME'' := ''0'', ''ACCEPT_TIME'' := printTime (makeTime 1 SEC) USEC,
            ''ACCEPT_PERIOD'' := ''0'', ''ACCEPT_COUNT'' := ''4'', ''EXPECT_ACCEPT'' := ''4'',
            ''LISTEN_ADDR'' := host1_ip);
          server1_pid = (1, TestHandshake_Accept, accept_env);
          accept_env = accept_env(''ACCEPT_COUNT'' := ''2'', ''EXPECT_ACCEPT'' := ''2'',
            ''LISTEN_ADDR'' := host1_ip2);
          server2_pid = (1, TestHandshake_Accept, accept_env);
          connect_env = empty_env(''CONNECT_PORT'' := ''9999'', ''CONNECT_PERIOD'' := ''1'',
            ''CONNECT_TIME'' := printTime (makeTime 100 MSEC) USEC, ''CONNECT_ADDR'' := host1_ip,
            ''CONNECT_COUNT'' := ''4'', ''EXPECT_CONNECT'' := ''4'');
          client1_pid = (2, TestHandshake_Connect, connect_env);
          connect_env = connect_env(''CONNECT_ADDR'' := host1_ip2, ''CONNECT_COUNT'' := ''2'',
            ''EXPECT_CONNECT'' := ''2'');
          client2_pid = (2, TestHandshake_Connect, connect_env)
      in \<lparr>added = [server1_pid, server2_pid, client1_pid, client2_pid],
          launched = [server1_pid, client1_pid, server2_pid, client2_pid]\<rparr>)"

definition TestConnect_BeforeAccept :: "(nat \<Rightarrow> nat \<Rightarrow> ipv4_t) \<Rightarrow> test_plan" where
  "TestConnect_BeforeAccept ip =
     (let host2_ip = dotted (ip 2 0);
          accept_env = empty_env(''LISTEN_ADDR'' := ''0.0.0.0'', ''LISTEN_PORT'' := ''9999'',
            ''BACKLOG'' := ''1'', ''LISTEN_TIME'' := ''0'',
            ''ACCEPT_TIME'' := printTime (makeTime 1 SEC) USEC, ''ACCEPT_COUNT'' := ''1'',
            ''EXPECT_ACCEPT'' := ''1'', ''ACCEPT_PERIOD'' := ''0'');
          connect_env = empty_env(''CONNECT_ADDR'' := host2_ip, ''CONNECT_PORT'' := ''9999'',
            ''CONNECT_COUNT'' := ''1'', ''EXPECT_CONNECT'' := ''1'', ''CONNECT_PERIOD'' := ''0'');
          server_pid = (2, TestHandshake_Accept, accept_env);
          connect_env = connect_env(''CONNECT_TIME'' := printTime (makeTime 100 MSEC) USEC);
          client_pid = (1, TestHandshake_Connect, connect_env)
      in \<lparr>added = [server_pid, client_pid],
          launched = [server_pid, client_pid]\<rparr>)"

definition TestConnect_AfterAccept :: "(nat \<Rightarrow> nat \<Rightarrow> ipv4_t) \<Rightarrow> test_plan" where
  "TestConnect_AfterAccept ip =
     (let host2_ip = dotted (ip 2 0);
          accept_env = empty_env(''LISTEN_ADDR'' := ''0.0.0.0'', ''LISTEN_PORT'' := ''9999'',
            ''BACKLOG'' := ''1'', ''LISTEN_TIME'' := ''0'',
            ''ACCEPT_TIME'' := printTime (makeTime 1 SEC) USEC, ''ACCEPT_COUNT'' := ''1'',
            ''EXPECT_ACCEPT'' := ''1'', ''ACCEPT_PERIOD'' := ''0'');
          connect_env = empty_env(''CONNECT_ADDR'' := host2_ip, ''CONNECT_PORT'' := ''9999'',
            ''CONNECT_COUNT'' := ''1'', ''EXPECT_CONNECT'' := ''1'', ''CONNECT_PERIOD'' := ''0'');
          server_pid = (2, TestHandshake_Accept, accept_env);
          connect_env = connect_env(''CONNECT_TIME'' := printTime (makeTime 2 SEC) USEC);
          client1_pid = (1, TestHandshake_Connect, connect_env)
      in \<lparr>added = [server_pid, client1_pid],
          launched = [server_pid, client1_pid]\<rparr>)"

definition TestConnect_SimultaneousConnect :: "(nat \<Rightarrow> nat \<Rightarrow> ipv4_t) \<Rightarrow> test_plan" where
  "TestConnect_SimultaneousConnect ip =
     (let host1_ip = dotted (ip 1 0);
          host2_ip = dotted (ip 2 0);
          connect_env = empty_env(''CONNECT_ADDR'' := host2_ip, ''CONNECT_PORT'' := ''12345'',
            ''BIND_ADDR'' := host1_ip, ''BIND_PORT'' := ''22222'',
            ''CONNECT_TIME'' := printTime (makeTime 1 SEC) USEC);
          client1_pid = (1, TestHandshake_SimultaneousConnect, connect_env);
          connect_env = connect_env(''CONNECT_ADDR'' := host1_ip, ''CONNECT_PORT'' := ''22222'',
            ''BIND_ADDR'' := host2_ip, ''BIND_PORT'' := ''12345'',
            ''CONNECT_TIME'' := printTime (makeTime 1 SEC) USEC);
          client2_pid = (2, TestHandshake_SimultaneousConnect, connect_env)
      in \<lparr>added = [client1_pid, client2_pid],
          launched = [client1_pid, client2_pid]\<rparr>)"

definition handshake_tests :: "((nat \<Rightarrow> nat \<Rightarrow> ipv4_t) \<Rightarrow> test_plan) list" where
  "handshake_tests =
     [TestAccept_Backlog1,
      TestAccept_Backlog2,
      TestAccept_BeforeAccept,
      TestAccept_AfterAccept,
      TestAccept_MultipleInterface1,
      TestAccept_MultipleInterface2,
      TestConnect_BeforeAccept,
      TestConnect_AfterAccept]"

section \<open>Congestion\<close>

definition TestCongestion_Accept_main ::
  "nat \<Rightarrow> nat \<Rightarrow> (u32 \<Rightarrow> nat \<Rightarrow> int) \<Rightarrow> u8 \<Rightarrow> 's layer \<Rightarrow> test_env \<Rightarrow> 's main" where
  "TestCongestion_Accept_main n f draw junk L env =
     (let connection_timeout = atoi (env ''CONNECTION_TIMEOUT'') in
      serve_one L env (\<lambda>server_socket client_fd.
      sleep_until L (atol (env ''START_TIME'')) (
      transfer n f draw junk L env client_fd (
      req L Gettimeofday (\<lambda>timeval.
      expect [out_sec timeval < connection_timeout] (
      req L (Close client_fd) (\<lambda>_.
      req L (Close server_socket) (\<lambda>_. leave 0))))))))"

definition TestCongestion_Connect_main ::
  "nat \<Rightarrow> nat \<Rightarrow> (u32 \<Rightarrow> nat \<Rightarrow> int) \<Rightarrow> u8 \<Rightarrow> 's layer \<Rightarrow> test_env \<Rightarrow> 's main" where
  "TestCongestion_Connect_main n f draw junk L env =
     connect_to L env (\<lambda>client_socket.
     sleep_until L (atol (env ''START_TIME'')) (
     transfer n f draw junk L env client_socket (
     req L (Close client_socket) (\<lambda>_. leave 0))))"

text \<open>The three tests have the same body but for three strings. Each pass of the loop over the clients
  sets every key again, so the environments depend on the number of the client only. The
  server is host 0, client \<open>k\<close> is host \<open>k + 1\<close>.\<close>

definition congestion_apps :: "string \<Rightarrow> string \<Rightarrow> string \<Rightarrow> int \<Rightarrow> ipv4_t \<Rightarrow> nat \<Rightarrow> test_app list" where
  "congestion_apps loop_count expect_size timeout seed srv_ip k =
     (let connect_addr = dotted srv_ip;
          connect_port = print_u64 (k + 10000);
          start_time = makeTime 1 SEC + makeTime 0 SEC;
          accept_env = empty_env(''RANDOM_SEED'' := string_of_int seed, ''LISTEN_ADDR'' := ''0.0.0.0'',
            ''LISTEN_PORT'' := connect_port, ''BACKLOG'' := ''1'', ''LISTEN_TIME'' := ''0'',
            ''ACCEPT_TIME'' := printTime (makeTime 1000 USEC) USEC, ''START_TIME'' := printTime start_time USEC);
          connect_env = empty_env(''RANDOM_SEED'' := string_of_int seed, ''CONNECT_PORT'' := connect_port,
            ''CONNECT_TIME'' := printTime (makeTime 2000 USEC) USEC, ''START_TIME'' := printTime start_time USEC,
            ''CONNECT_ADDR'' := connect_addr, ''BUFFER_SIZE'' := ''1024'', ''LOOP_COUNT'' := loop_count,
            ''SENDER'' := ''1'', ''EXPECT_SIZE'' := expect_size);
          client_pid = (k + 1, TestCongestion_Connect, connect_env);
          accept_env = accept_env(''SENDER'' := ''0'', ''BUFFER_SIZE'' := ''1024'', ''LOOP_COUNT'' := ''0'',
            ''EXPECT_SIZE'' := expect_size, ''CONNECTION_TIMEOUT'' := timeout);
          server_pid = (0, TestCongestion_Accept, accept_env)
      in [client_pid, server_pid])"

definition congestion_plan :: "(nat \<Rightarrow> test_app list) \<Rightarrow> nat \<Rightarrow> test_plan" where
  "congestion_plan apps_k num_client =
     (let all_apps = concat (map apps_k [0..<num_client]) in \<lparr>added = all_apps, launched = all_apps\<rparr>)"

definition TestCongestion0 :: "nat \<Rightarrow> int \<Rightarrow> ipv4_t \<Rightarrow> test_plan" where
  "TestCongestion0 num_client seed srv_ip =
     congestion_plan (congestion_apps ''100000'' ''102400000'' ''92'' seed srv_ip) num_client"

definition TestCongestion1 :: "nat \<Rightarrow> int \<Rightarrow> ipv4_t \<Rightarrow> test_plan" where
  "TestCongestion1 num_client seed srv_ip =
     congestion_plan (congestion_apps ''10000'' ''10240000'' ''60'' seed srv_ip) num_client"

definition TestCongestion2 :: "nat \<Rightarrow> int \<Rightarrow> ipv4_t \<Rightarrow> test_plan" where
  "TestCongestion2 num_client seed srv_ip =
     congestion_plan (congestion_apps ''10000'' ''10240000'' ''150'' seed srv_ip) num_client"

section \<open>Who connects to whom\<close>

text \<open>The addresses of the hosts in the test networks.\<close>

definition env_ip :: "nat \<Rightarrow> nat \<Rightarrow> ipv4_t" where
  "env_ip host port = (if host = 1 then if port = 0 then ip1 else ip1_2 else if port = 0 then ip2 else ip2_2)"

fun is_server :: "test_app \<Rightarrow> bool" where
  "is_server (h, c, e) \<longleftrightarrow> c \<in> {TestTransfer_Accept, TestClose_Accept, TestHandshake_Accept}"

fun is_client :: "test_app \<Rightarrow> bool" where
  "is_client (h, c, e) \<longleftrightarrow> c \<in> {TestTransfer_Connect, TestClose_Connect, TestHandshake_Connect}"

text \<open>A client connects to a server: its address belongs to the host of the server and is the one the
  server listens on, if that is not any address; the ports are equal.\<close>

fun served_by :: "test_app \<Rightarrow> test_app \<Rightarrow> bool" where
  "served_by (h', c', e') (h, c, e) \<longleftrightarrow>
     (let a = inet_addr (e' ''CONNECT_ADDR'') in
      a \<in> {addr_of_bytes (env_ip h 0), addr_of_bytes (env_ip h 1)} \<and>
      (inet_addr (e ''LISTEN_ADDR'') = INADDR_ANY \<or> inet_addr (e ''LISTEN_ADDR'') = a) \<and>
      atoi (e' ''CONNECT_PORT'') = atoi (e ''LISTEN_PORT''))"

definition app_env :: "test_app \<Rightarrow> test_env" where
  "app_env a = snd (snd a)"

text \<open>Every client has exactly one server, on the other host, that listens before the client
  connects.\<close>

definition clients_served :: "test_plan \<Rightarrow> bool" where
  "clients_served p \<longleftrightarrow>
     list_all (\<lambda>c. case filter (\<lambda>s. is_server s \<and> served_by c s) (added p) of
         [s] \<Rightarrow> fst s \<noteq> fst c \<and> atol (app_env s ''LISTEN_TIME'') < atol (app_env c ''CONNECT_TIME'')
       | _ \<Rightarrow> False) (filter is_client (added p)) \<and>
     filter is_client (added p) \<noteq> []"

text \<open>The connections the clients of a server expect are those the server expects, and it accepts often
  enough.\<close>

definition adds_up :: "test_plan \<Rightarrow> bool" where
  "adds_up p \<longleftrightarrow>
     list_all (\<lambda>s. atoi (app_env s ''EXPECT_ACCEPT'') =
         sum_list (map (\<lambda>c. atoi (app_env c ''EXPECT_CONNECT'')) (filter (\<lambda>c. is_client c \<and> served_by c s) (added p))) \<and>
       atoi (app_env s ''EXPECT_ACCEPT'') \<le> atoi (app_env s ''ACCEPT_COUNT'')) (filter is_server (added p))"

lemma host_addresses [simp]:
  "addr_of_bytes (env_ip (Suc 0) 0) = 0x0700A8C0" "addr_of_bytes (env_ip (Suc 0) (Suc 0)) = 0x0800A8C0"
  "addr_of_bytes (env_ip 2 0) = 0x0401000A" "addr_of_bytes (env_ip 2 (Suc 0)) = 0x0501000A"
  by (simp_all add: env_ip_def ip1_def ip1_2_def ip2_def ip2_2_def addr_of_bytes_def)

lemma inet_addr_hosts [simp]: "inet_addr (dotted (env_ip h p)) = addr_of_bytes (env_ip h p)"
  by (rule inet_addr_dotted) (simp add: env_ip_def ip1_def ip1_2_def ip2_def ip2_2_def)

lemma inet_addr_any [simp]: "inet_addr ''0.0.0.0'' = 0"
  by (simp add: inet_addr_def is_digit_def parse_dec_def addr_of_bytes_def)

lemma more_literals [simp]:
  "atol ''0'' = 0" "atoi ''2'' = 2" "atoi ''3'' = 3" "atoi ''4'' = 4" "atoi ''5'' = 5" "atoi ''6'' = 6" "atoi ''10'' = 10"
  "atoi ''9999'' = 9999"
  by (simp_all add: atoi_def atol_def parse_dec_def is_digit_def is_space_def)

lemmas time_simps = printTime_def makeTime_def getMultiplier_def multiplier_labels_def

lemmas plan_simps = Let_def app_env_def INADDR_ANY_def time_simps

lemma close_tests_served: "test \<in> set close_tests \<Longrightarrow> clients_served (test env_ip)"
  unfolding close_tests_def set_simps insert_iff empty_iff
  by (elim disjE FalseE; simp add: clients_served_def plan_simps
    TestClose_Connect_CloseFirst_def TestClose_Connect_CloseLater_def TestClose_Connect_CloseSimultaneous_def
    TestClose_Accept_CloseFirst_def TestClose_Accept_CloseLater_def TestClose_Accept_CloseSimultaneous_def)

lemmas handshake_test_defs =
  TestAccept_Backlog1_def TestAccept_Backlog2_def TestAccept_BeforeAccept_def TestAccept_AfterAccept_def
  TestAccept_MultipleInterface1_def TestAccept_MultipleInterface2_def TestConnect_BeforeAccept_def TestConnect_AfterAccept_def

lemma handshake_tests_served: "test \<in> set handshake_tests \<Longrightarrow> clients_served (test env_ip)"
  unfolding handshake_tests_def set_simps insert_iff empty_iff
  by (elim disjE FalseE; simp add: clients_served_def plan_simps handshake_test_defs)

lemma transfer_tests_served: "test \<in> set transfer_tests \<Longrightarrow> clients_served (test seed env_ip)"
  unfolding transfer_tests_def set_simps insert_iff empty_iff
  by (elim disjE FalseE; simp add: clients_served_def plan_simps transfer_test_defs)

lemma handshake_tests_add: "test \<in> set handshake_tests \<Longrightarrow> adds_up (test env_ip)"
  unfolding handshake_tests_def set_simps insert_iff empty_iff
  by (elim disjE FalseE; simp add: adds_up_def plan_simps handshake_test_defs)

section \<open>Properties\<close>



text \<open>The numbers of the handshake tests are consistent: the connections all clients of a server
  together expect to succeed are as many as the server expects to accept, and no more than the
  number of times it calls \<^verbatim>\<open>accept\<close>.\<close>

theorem handshake_tests_add_up:
  assumes "test \<in> set handshake_tests" and "s \<in> set (added (test env_ip))" and "is_server s"
  shows "atoi (app_env s ''EXPECT_ACCEPT'') =
      (\<Sum>c\<leftarrow>filter (\<lambda>c. is_client c \<and> served_by c s) (added (test env_ip)). atoi (app_env c ''EXPECT_CONNECT'')) \<and>
    atoi (app_env s ''EXPECT_ACCEPT'') \<le> atoi (app_env s ''ACCEPT_COUNT'')"
  using handshake_tests_add [OF assms(1)] assms(2,3) unfolding adds_up_def list_all_iff set_filter by blast

theorem handshake_tests_add_up_witness:
  "atoi (app_env (hd (added (TestAccept_Backlog1 env_ip))) ''EXPECT_ACCEPT'') \<le> 10"
proof -
  let ?s = "hd (added (TestAccept_Backlog1 env_ip))"
  have t: "TestAccept_Backlog1 \<in> set handshake_tests" by (simp add: handshake_tests_def)
  have s: "?s \<in> set (added (TestAccept_Backlog1 env_ip))" "is_server ?s" "atoi (app_env ?s ''ACCEPT_COUNT'') = 10"
    by (simp_all add: TestAccept_Backlog1_def Let_def app_env_def)
  from handshake_tests_add_up [OF t s(1,2)] s(3) show ?thesis by simp
qed

lemma congestion_fits:
  assumes "(loop_count, expect_size) \<in> {(''100000'', ''102400000''), (''10000'', ''10240000'')}"
  shows "\<exists>es er. congestion_apps loop_count expect_size timeout seed srv_ip k =
      [(k + 1, TestCongestion_Connect, es), (0, TestCongestion_Accept, er)] \<and>
    fits (int 1024) (int 100001) es er \<and> es ''CONNECT_PORT'' = er ''LISTEN_PORT''"
proof -
  have lit: "atoi ''100000'' = 100000" "atoi ''102400000'' = 102400000" "atoi ''10000'' = 10000" "atoi ''10240000'' = 10240000"
    by (simp_all add: atoi_def atol_def parse_dec_def is_digit_def is_space_def)
  show ?thesis
    using assms by (auto simp: congestion_apps_def Let_def fits_def lit)
qed



end
