(* ===== verification/Echo_Tests.thy ===== *)
theory Echo_Tests
  imports Test_Runtime Test_Runs
begin

text \<open>
  The echo exercise (\<^verbatim>\<open>app/echo\<close>): the dispatch of the program's arguments in \<^verbatim>\<open>EchoAssignment\<close>, whose two
  main functions are left to the student, and the fixture \<^verbatim>\<open>EchoTesting\<close>: a network of one switch and a host
  for every server and client, the applications on them with their arguments, and the comparison of the
  answers they submit with the expected ones. The TCP module of the hosts is a parameter.
\<close>

section \<open>The program\<close>

text \<open>The two functions to be written, as the repository has them.\<close>

definition serverMain :: "string \<Rightarrow> int \<Rightarrow> string \<Rightarrow> prog" where
  "serverMain bind_ip port server_hello = Exit 0"

definition clientMain :: "string \<Rightarrow> int \<Rightarrow> string \<Rightarrow> prog" where
  "clientMain s_ip port command = Exit 0"

text \<open>\<^verbatim>\<open>EchoAssignment::Main\<close> over any two such functions. What it prints is not modelled; a port
  number 0 is reported and used all the same. The first character of an empty string is the
  terminating zero, which is neither mode.\<close>

definition EchoAssignment_Main ::
  "(string \<Rightarrow> int \<Rightarrow> string \<Rightarrow> prog) \<Rightarrow> (string \<Rightarrow> int \<Rightarrow> string \<Rightarrow> prog) \<Rightarrow> string list \<Rightarrow> prog" where
  "EchoAssignment_Main client server argv =
     (if length argv \<noteq> 5 then Exit 1
      else
        let port = atoi (argv ! 3) in
        case argv ! 1 of
          [] \<Rightarrow> Exit 1
        | c # _ \<Rightarrow>
            if c = CHR ''c'' then client (argv ! 2) port (argv ! 4)
            else if c = CHR ''s'' then server (argv ! 2) port (argv ! 4)
            else Exit 1)"

text \<open>\<^verbatim>\<open>submitAnswer\<close>.\<close>

definition submitAnswer :: "string \<Rightarrow> string \<Rightarrow> test_env \<Rightarrow> test_env" where
  "submitAnswer ip answer answers = answers(ip := answer)"

section \<open>The fixture\<close>

record echo_app =
  ea_args :: "string list"
  ea_answers :: test_env

definition EchoApp_new :: "string list \<Rightarrow> echo_app" where
  "EchoApp_new arg_list = \<lparr>ea_args = arg_list, ea_answers = empty_env\<rparr>"

record echo_host =
  eh_host :: ModuleID
  eh_apps :: "echo_app list"

text \<open>A connection: the server, the client, the command, and the application of the client.\<close>

record echo_testing =
  ec_hosts :: "echo_host list"
  ec_switch :: ModuleID
  ec_servers :: "string list"
  ec_connections :: "(nat \<times> nat \<times> string \<times> nat) list"

definition echo_mac :: "nat \<Rightarrow> mac_t" where
  "echo_mac host_id = [0xBC, 0xBC, 0xBC, 0xBC, 0xBC, of_nat host_id]"

definition echo_ip :: "nat \<Rightarrow> ipv4_t" where
  "echo_ip host_id = [10, 0, 0, of_nat host_id]"

text \<open>\<^verbatim>\<open>"10.0.0." + std::to_string(n)\<close>.\<close>

definition echo_name :: "nat \<Rightarrow> string" where
  "echo_name n = ''10.0.0.'' @ print_u64 n"

text \<open>One host of the network.\<close>

definition echo_host_up ::
  "(host \<Rightarrow> host result) \<Rightarrow> nat \<Rightarrow> ModuleID \<Rightarrow> nat \<Rightarrow> echo_host list \<times> world \<times> net \<Rightarrow> (echo_host list \<times> world \<times> net) result" where
  "echo_host_up solution num_hosts sw host_id st =
     (case st of (hosts, st) \<Rightarrow>
       bindE (addHost st) (\<lambda>(h, st).
       bindE (addWire h sw (makeTime 1 MSEC) 1000000000 True st) (\<lambda>(_, host_port, switch_port, st).
       bindE (perform
         (setMAC h (echo_mac host_id) host_port #
          map (\<lambda>peer_id. setARP h (echo_mac peer_id) (echo_ip peer_id)) (filter (\<lambda>p. p \<noteq> host_id) [1..<Suc num_hosts]) @
          [setIP h (echo_ip host_id) host_port, setRoute h [10, 0, 0, 0] 16 host_port,
           with_switch sw (addMACEntry switch_port (echo_mac host_id)),
           with_host h (addHostModule EthernetC), with_host h (addHostModule IPv4C), with_host h solution]) st) (\<lambda>st.
         Inr (hosts @ [\<lparr>eh_host = h, eh_apps = []\<rparr>], st)))))"

text \<open>\<^verbatim>\<open>hosts[i].apps.emplace_back(args)\<close>.\<close>

definition emplace_app :: "nat \<Rightarrow> string list \<Rightarrow> echo_host list \<Rightarrow> echo_host list result" where
  "emplace_app i args hosts =
     bindE (indexE hosts i) (\<lambda>h. Inr (hosts[i := h\<lparr>eh_apps := eh_apps h @ [EchoApp_new args]\<rparr>]))"

definition echo_server_app :: "string list \<Rightarrow> nat \<Rightarrow> echo_host list \<Rightarrow> echo_host list result" where
  "echo_server_app servers server_id hosts =
     bindE (indexE servers server_id) (\<lambda>hello.
       emplace_app server_id [''echo'', ''s'', ''0.0.0.0'', ''9000'', hello] hosts)"

definition echo_connection :: "nat \<Rightarrow> nat \<times> nat \<times> string \<Rightarrow> echo_testing \<Rightarrow> echo_testing result" where
  "echo_connection num_clients c t =
     (case c of (server_id, client_id, command) \<Rightarrow>
       let num_servers = length (ec_servers t); i = num_servers + client_id in
       bindE (assertE (server_id < num_servers)) (\<lambda>_.
       bindE (assertE (client_id < num_clients)) (\<lambda>_.
       bindE (indexE (ec_hosts t) i) (\<lambda>client.
       bindE (emplace_app i [''echo'', ''c'', echo_name (server_id + 1), ''9000'', command] (ec_hosts t)) (\<lambda>hosts.
         Inr (t\<lparr>ec_connections := ec_connections t @ [(server_id, client_id, command, length (eh_apps client))],
                ec_hosts := hosts\<rparr>))))))"

text \<open>\<^verbatim>\<open>EchoTesting::SetUp\<close>. The numbers of servers and clients fit into 8 bits once the two
  assertions hold.\<close>

definition echo_network ::
  "(host \<Rightarrow> host result) \<Rightarrow> engine \<Rightarrow> engine \<Rightarrow> nat \<Rightarrow> world \<times> net \<Rightarrow> (ModuleID \<times> echo_host list \<times> world \<times> net) result" where
  "echo_network solution g g' num_hosts st =
     bindE (addSwitch g g' False st) (\<lambda>(sw, st).
     bindE (foldE (echo_host_up solution num_hosts sw) [1..<Suc num_hosts] ([], st)) (\<lambda>(hosts, st).
     bindE (perform (with_switch sw (\<lambda>x. Inr (enablePCAPLogging 65535 x)) #
              map (\<lambda>h. with_host (eh_host h) (initializeHostModule ''TCP'')) hosts) st) (\<lambda>st.
       Inr (sw, hosts, st))))"

definition EchoTesting_SetUp ::
  "(host \<Rightarrow> host result) \<Rightarrow> engine \<Rightarrow> engine \<Rightarrow> string list \<Rightarrow> nat \<Rightarrow> (nat \<times> nat \<times> string) list \<Rightarrow> world \<times> net \<Rightarrow>
     (echo_testing \<times> world \<times> net) result" where
  "EchoTesting_SetUp solution g g' servers num_clients connections st =
     bindE (assertE (length servers < 50)) (\<lambda>_.
     bindE (assertE (num_clients < 150)) (\<lambda>_.
     bindE (echo_network solution g g' (num_clients + length servers) st) (\<lambda>(sw, hosts, st).
     bindE (foldE (echo_server_app servers) [0..<length servers] hosts) (\<lambda>hosts.
     bindE (foldE (echo_connection num_clients) connections
              \<lparr>ec_hosts = hosts, ec_switch = sw, ec_servers = servers, ec_connections = []\<rparr>) (\<lambda>t.
       Inr (t, st))))))"

text \<open>\<^verbatim>\<open>EchoTesting::runTest\<close>: every application is added and launched, host by host. \<open>new k\<close> is
  the address of the \<open>k\<close>-th application object.\<close>

definition launch_app ::
  "(string list \<Rightarrow> prog) \<Rightarrow> (nat \<Rightarrow> runnable) \<Rightarrow> ModuleID \<Rightarrow> echo_app \<Rightarrow> nat \<times> world \<times> net \<Rightarrow> (nat \<times> world \<times> net) result" where
  "launch_app main new i app st =
     (case st of (k, st) \<Rightarrow> bindE (launch (new k) i (main (ea_args app)) st) (\<lambda>st. Inr (Suc k, st)))"

definition EchoTesting_runTest ::
  "(string list \<Rightarrow> prog) \<Rightarrow> (nat \<Rightarrow> runnable) \<Rightarrow> (runnable set \<Rightarrow> runnable list) \<Rightarrow> (UUID set \<Rightarrow> UUID list) \<Rightarrow> nat \<Rightarrow> nat \<Rightarrow> echo_testing \<Rightarrow>
     world \<times> net \<Rightarrow> (world \<times> net) result option" where
  "EchoTesting_runTest main new ord uord fuel n t st =
     (case foldE (\<lambda>h. foldE (launch_app main new (eh_host h)) (eh_apps h)) (ec_hosts t) (0, st) of
        Inl e \<Rightarrow> Some (Inl e)
      | Inr (_, st) \<Rightarrow>
          run_twice ord fuel n (makeTime 1000 SEC)
            (concat (map (\<lambda>h. [clean_up uord (eh_host h), with_host (eh_host h) (finalizeHostModule ''TCP'')]) (ec_hosts t)))
            (makeTime 2000 SEC) st)"

text \<open>\<^verbatim>\<open>EchoTesting::checkTest\<close>: the outcomes of the expectations.\<close>

definition expected_client_ans :: "string \<Rightarrow> string \<Rightarrow> string \<Rightarrow> string \<Rightarrow> string" where
  "expected_client_ans server_hello c_ip s_ip client_command =
     (if client_command = ''hello'' then server_hello
      else if client_command = ''whoami'' then c_ip
      else if client_command = ''whoru'' then s_ip
      else client_command)"

definition check_connection :: "bool \<Rightarrow> echo_testing \<Rightarrow> nat \<times> nat \<times> string \<times> nat \<Rightarrow> bool list \<Rightarrow> bool list result" where
  "check_connection skip_server t c outcomes =
     (case c of (server_id, client_id, client_command, app_id) \<Rightarrow>
       let n = length (ec_servers t);
           s_ip = echo_name (server_id + 1); c_ip = echo_name (n + client_id + 1) in
       bindE (indexE (ec_servers t) server_id) (\<lambda>server_hello.
       bindE (indexE (ec_hosts t) server_id) (\<lambda>server.
       bindE (indexE (ec_hosts t) (n + client_id)) (\<lambda>client.
       bindE (indexE (eh_apps server) 0) (\<lambda>server_app.
       bindE (indexE (eh_apps client) app_id) (\<lambda>client_app.
         Inr (outcomes @
              (if skip_server then [] else [ea_answers server_app c_ip = client_command]) @
              [ea_answers client_app s_ip = expected_client_ans server_hello c_ip s_ip client_command])))))))"

definition checkTest :: "bool \<Rightarrow> echo_testing \<Rightarrow> bool list result" where
  "checkTest skip_server t = foldE (check_connection skip_server t) (ec_connections t) []"

section \<open>The tests\<close>

record echo_test =
  et_servers :: "string list"
  et_clients :: nat
  et_connections :: "(nat \<times> nat \<times> string) list"
  et_skip :: bool

definition SingleEcho :: echo_test where
  "SingleEcho = \<lparr>
     et_servers = [
        ''server-hello''],
     et_clients = 1,
     et_connections = [
        (0, 0, ''echo-test'')],
     et_skip = False\<rparr>"

definition SingleWhoRU :: echo_test where
  "SingleWhoRU = \<lparr>
     et_servers = [
        ''server-hello1''],
     et_clients = 1,
     et_connections = [
        (0, 0, ''whoru'')],
     et_skip = False\<rparr>"

definition SingleWhoAmI :: echo_test where
  "SingleWhoAmI = \<lparr>
     et_servers = [
        ''server-hello2''],
     et_clients = 1,
     et_connections = [
        (0, 0, ''whoami'')],
     et_skip = False\<rparr>"

definition SingleHello :: echo_test where
  "SingleHello = \<lparr>
     et_servers = [
        ''server-hello3''],
     et_clients = 1,
     et_connections = [
        (0, 0, ''hello'')],
     et_skip = False\<rparr>"

definition OnetoManyEcho :: echo_test where
  "OnetoManyEcho = \<lparr>
     et_servers = [
        ''server-hello4''],
     et_clients = 33,
     et_connections = [
        (0, 0, ''echo-hello0''), (0, 1, ''echo-hello1''), (0, 2, ''echo-hello2''), (0, 3, ''echo-hello3''),
        (0, 4, ''echo-hello4''), (0, 5, ''echo-hello5''), (0, 6, ''echo-hello6''), (0, 7, ''echo-hello7''),
        (0, 8, ''echo-hello8''), (0, 9, ''echo-hello9''), (0, 10, ''echo-hello10''),
        (0, 11, ''echo-hello11''), (0, 12, ''echo-hello12''), (0, 13, ''echo-hello13''),
        (0, 14, ''echo-hello14''), (0, 15, ''echo-hello15''), (0, 16, ''echo-hello16''),
        (0, 17, ''echo-hello17''), (0, 18, ''echo-hello18''), (0, 19, ''echo-hello19''),
        (0, 20, ''echo-hello20''), (0, 21, ''echo-hello21''), (0, 22, ''echo-hello22''),
        (0, 23, ''echo-hello23''), (0, 24, ''echo-hello24''), (0, 25, ''echo-hello25''),
        (0, 26, ''echo-hello26''), (0, 27, ''echo-hello27''), (0, 28, ''echo-hello28''),
        (0, 29, ''echo-hello29''), (0, 30, ''echo-hello30''), (0, 31, ''echo-hello31''),
        (0, 32, ''echo-hello32'')],
     et_skip = False\<rparr>"

definition OnetoManyWhoRU :: echo_test where
  "OnetoManyWhoRU = \<lparr>
     et_servers = [
        ''server-hello5''],
     et_clients = 33,
     et_connections = [
        (0, 0, ''whoru''), (0, 1, ''whoru''), (0, 2, ''whoru''), (0, 3, ''whoru''), (0, 4, ''whoru''),
        (0, 5, ''whoru''), (0, 6, ''whoru''), (0, 7, ''whoru''), (0, 8, ''whoru''), (0, 9, ''whoru''),
        (0, 10, ''whoru''), (0, 11, ''whoru''), (0, 12, ''whoru''), (0, 13, ''whoru''), (0, 14, ''whoru''),
        (0, 15, ''whoru''), (0, 16, ''whoru''), (0, 17, ''whoru''), (0, 18, ''whoru''), (0, 19, ''whoru''),
        (0, 20, ''whoru''), (0, 21, ''whoru''), (0, 22, ''whoru''), (0, 23, ''whoru''), (0, 24, ''whoru''),
        (0, 25, ''whoru''), (0, 26, ''whoru''), (0, 27, ''whoru''), (0, 28, ''whoru''), (0, 29, ''whoru''),
        (0, 30, ''whoru''), (0, 31, ''whoru''), (0, 32, ''whoru'')],
     et_skip = False\<rparr>"

definition OnetoManyWhoAmI :: echo_test where
  "OnetoManyWhoAmI = \<lparr>
     et_servers = [
        ''server-hello6''],
     et_clients = 33,
     et_connections = [
        (0, 0, ''whoami''), (0, 1, ''whoami''), (0, 2, ''whoami''), (0, 3, ''whoami''), (0, 4, ''whoami''),
        (0, 5, ''whoami''), (0, 6, ''whoami''), (0, 7, ''whoami''), (0, 8, ''whoami''), (0, 9, ''whoami''),
        (0, 10, ''whoami''), (0, 11, ''whoami''), (0, 12, ''whoami''), (0, 13, ''whoami''),
        (0, 14, ''whoami''), (0, 15, ''whoami''), (0, 16, ''whoami''), (0, 17, ''whoami''),
        (0, 18, ''whoami''), (0, 19, ''whoami''), (0, 20, ''whoami''), (0, 21, ''whoami''),
        (0, 22, ''whoami''), (0, 23, ''whoami''), (0, 24, ''whoami''), (0, 25, ''whoami''),
        (0, 26, ''whoami''), (0, 27, ''whoami''), (0, 28, ''whoami''), (0, 29, ''whoami''),
        (0, 30, ''whoami''), (0, 31, ''whoami''), (0, 32, ''whoami'')],
     et_skip = False\<rparr>"

definition OnetoManyHello :: echo_test where
  "OnetoManyHello = \<lparr>
     et_servers = [
        ''server-hello7''],
     et_clients = 33,
     et_connections = [
        (0, 0, ''hello''), (0, 1, ''hello''), (0, 2, ''hello''), (0, 3, ''hello''), (0, 4, ''hello''),
        (0, 5, ''hello''), (0, 6, ''hello''), (0, 7, ''hello''), (0, 8, ''hello''), (0, 9, ''hello''),
        (0, 10, ''hello''), (0, 11, ''hello''), (0, 12, ''hello''), (0, 13, ''hello''), (0, 14, ''hello''),
        (0, 15, ''hello''), (0, 16, ''hello''), (0, 17, ''hello''), (0, 18, ''hello''), (0, 19, ''hello''),
        (0, 20, ''hello''), (0, 21, ''hello''), (0, 22, ''hello''), (0, 23, ''hello''), (0, 24, ''hello''),
        (0, 25, ''hello''), (0, 26, ''hello''), (0, 27, ''hello''), (0, 28, ''hello''), (0, 29, ''hello''),
        (0, 30, ''hello''), (0, 31, ''hello''), (0, 32, ''hello'')],
     et_skip = False\<rparr>"

definition OnetoManyAll :: echo_test where
  "OnetoManyAll = \<lparr>
     et_servers = [
        ''server-hello8''],
     et_clients = 33,
     et_connections = [
        (0, 0, ''echo-hello0''), (0, 1, ''echo-hello1''), (0, 2, ''echo-hello2''), (0, 3, ''echo-hello3''),
        (0, 4, ''echo-hello4''), (0, 5, ''echo-hello5''), (0, 6, ''echo-hello6''), (0, 7, ''echo-hello7''),
        (0, 8, ''echo-hello8''), (0, 9, ''echo-hello9''), (0, 10, ''echo-hello10''),
        (0, 11, ''echo-hello11''), (0, 12, ''echo-hello12''), (0, 13, ''echo-hello13''),
        (0, 14, ''echo-hello14''), (0, 15, ''echo-hello15''), (0, 16, ''echo-hello16''),
        (0, 17, ''echo-hello17''), (0, 18, ''echo-hello18''), (0, 19, ''echo-hello19''),
        (0, 20, ''echo-hello20''), (0, 21, ''echo-hello21''), (0, 22, ''echo-hello22''),
        (0, 23, ''echo-hello23''), (0, 24, ''echo-hello24''), (0, 25, ''echo-hello25''),
        (0, 26, ''echo-hello26''), (0, 27, ''echo-hello27''), (0, 28, ''echo-hello28''),
        (0, 29, ''echo-hello29''), (0, 30, ''echo-hello30''), (0, 31, ''echo-hello31''),
        (0, 32, ''echo-hello32''), (0, 0, ''whoru''), (0, 1, ''whoru''), (0, 2, ''whoru''),
        (0, 3, ''whoru''), (0, 4, ''whoru''), (0, 5, ''whoru''), (0, 6, ''whoru''), (0, 7, ''whoru''),
        (0, 8, ''whoru''), (0, 9, ''whoru''), (0, 10, ''whoru''), (0, 11, ''whoru''), (0, 12, ''whoru''),
        (0, 13, ''whoru''), (0, 14, ''whoru''), (0, 15, ''whoru''), (0, 16, ''whoru''), (0, 17, ''whoru''),
        (0, 18, ''whoru''), (0, 19, ''whoru''), (0, 20, ''whoru''), (0, 21, ''whoru''), (0, 22, ''whoru''),
        (0, 23, ''whoru''), (0, 24, ''whoru''), (0, 25, ''whoru''), (0, 26, ''whoru''), (0, 27, ''whoru''),
        (0, 28, ''whoru''), (0, 29, ''whoru''), (0, 30, ''whoru''), (0, 31, ''whoru''), (0, 32, ''whoru''),
        (0, 0, ''whoami''), (0, 1, ''whoami''), (0, 2, ''whoami''), (0, 3, ''whoami''), (0, 4, ''whoami''),
        (0, 5, ''whoami''), (0, 6, ''whoami''), (0, 7, ''whoami''), (0, 8, ''whoami''), (0, 9, ''whoami''),
        (0, 10, ''whoami''), (0, 11, ''whoami''), (0, 12, ''whoami''), (0, 13, ''whoami''),
        (0, 14, ''whoami''), (0, 15, ''whoami''), (0, 16, ''whoami''), (0, 17, ''whoami''),
        (0, 18, ''whoami''), (0, 19, ''whoami''), (0, 20, ''whoami''), (0, 21, ''whoami''),
        (0, 22, ''whoami''), (0, 23, ''whoami''), (0, 24, ''whoami''), (0, 25, ''whoami''),
        (0, 26, ''whoami''), (0, 27, ''whoami''), (0, 28, ''whoami''), (0, 29, ''whoami''),
        (0, 30, ''whoami''), (0, 31, ''whoami''), (0, 32, ''whoami''), (0, 0, ''hello''),
        (0, 1, ''hello''), (0, 2, ''hello''), (0, 3, ''hello''), (0, 4, ''hello''), (0, 5, ''hello''),
        (0, 6, ''hello''), (0, 7, ''hello''), (0, 8, ''hello''), (0, 9, ''hello''), (0, 10, ''hello''),
        (0, 11, ''hello''), (0, 12, ''hello''), (0, 13, ''hello''), (0, 14, ''hello''), (0, 15, ''hello''),
        (0, 16, ''hello''), (0, 17, ''hello''), (0, 18, ''hello''), (0, 19, ''hello''), (0, 20, ''hello''),
        (0, 21, ''hello''), (0, 22, ''hello''), (0, 23, ''hello''), (0, 24, ''hello''), (0, 25, ''hello''),
        (0, 26, ''hello''), (0, 27, ''hello''), (0, 28, ''hello''), (0, 29, ''hello''), (0, 30, ''hello''),
        (0, 31, ''hello''), (0, 32, ''hello'')],
     et_skip = True\<rparr>"

definition ManytoOneEcho :: echo_test where
  "ManytoOneEcho = \<lparr>
     et_servers = [
        ''server0'', ''server1'', ''server2'', ''server3'', ''server4'', ''server5'', ''server6'',
        ''server7'', ''server8'', ''server9''],
     et_clients = 1,
     et_connections = [
        (0, 0, ''echo-hello0''), (1, 0, ''echo-hello1''), (2, 0, ''echo-hello2''), (3, 0, ''echo-hello3''),
        (4, 0, ''echo-hello4''), (5, 0, ''echo-hello5''), (6, 0, ''echo-hello6''), (7, 0, ''echo-hello7''),
        (8, 0, ''echo-hello8''), (9, 0, ''echo-hello9'')],
     et_skip = False\<rparr>"

definition ManytoOneWhoRU :: echo_test where
  "ManytoOneWhoRU = \<lparr>
     et_servers = [
        ''server0'', ''server1'', ''server2'', ''server3'', ''server4'', ''server5'', ''server6'',
        ''server7'', ''server8'', ''server9''],
     et_clients = 1,
     et_connections = [
        (0, 0, ''whoru''), (1, 0, ''whoru''), (2, 0, ''whoru''), (3, 0, ''whoru''), (4, 0, ''whoru''),
        (5, 0, ''whoru''), (6, 0, ''whoru''), (7, 0, ''whoru''), (8, 0, ''whoru''), (9, 0, ''whoru'')],
     et_skip = False\<rparr>"

definition ManytoOneWhoAmI :: echo_test where
  "ManytoOneWhoAmI = \<lparr>
     et_servers = [
        ''server0'', ''server1'', ''server2'', ''server3'', ''server4'', ''server5'', ''server6'',
        ''server7'', ''server8'', ''server9''],
     et_clients = 1,
     et_connections = [
        (0, 0, ''whoami''), (1, 0, ''whoami''), (2, 0, ''whoami''), (3, 0, ''whoami''), (4, 0, ''whoami''),
        (5, 0, ''whoami''), (6, 0, ''whoami''), (7, 0, ''whoami''), (8, 0, ''whoami''), (9, 0, ''whoami'')],
     et_skip = False\<rparr>"

definition ManytoOneHello :: echo_test where
  "ManytoOneHello = \<lparr>
     et_servers = [
        ''server0'', ''server1'', ''server2'', ''server3'', ''server4'', ''server5'', ''server6'',
        ''server7'', ''server8'', ''server9''],
     et_clients = 1,
     et_connections = [
        (0, 0, ''hello''), (1, 0, ''hello''), (2, 0, ''hello''), (3, 0, ''hello''), (4, 0, ''hello''),
        (5, 0, ''hello''), (6, 0, ''hello''), (7, 0, ''hello''), (8, 0, ''hello''), (9, 0, ''hello'')],
     et_skip = False\<rparr>"

definition ManytoOneAll :: echo_test where
  "ManytoOneAll = \<lparr>
     et_servers = [
        ''server0'', ''server1'', ''server2'', ''server3'', ''server4'', ''server5'', ''server6'',
        ''server7'', ''server8'', ''server9''],
     et_clients = 1,
     et_connections = [
        (0, 0, ''echo-hello0''), (1, 0, ''echo-hello1''), (2, 0, ''echo-hello2''), (3, 0, ''echo-hello3''),
        (4, 0, ''echo-hello4''), (5, 0, ''echo-hello5''), (6, 0, ''echo-hello6''), (7, 0, ''echo-hello7''),
        (8, 0, ''echo-hello8''), (9, 0, ''echo-hello9''), (0, 0, ''whoru''), (1, 0, ''whoru''),
        (2, 0, ''whoru''), (3, 0, ''whoru''), (4, 0, ''whoru''), (5, 0, ''whoru''), (6, 0, ''whoru''),
        (7, 0, ''whoru''), (8, 0, ''whoru''), (9, 0, ''whoru''), (0, 0, ''whoami''), (1, 0, ''whoami''),
        (2, 0, ''whoami''), (3, 0, ''whoami''), (4, 0, ''whoami''), (5, 0, ''whoami''), (6, 0, ''whoami''),
        (7, 0, ''whoami''), (8, 0, ''whoami''), (9, 0, ''whoami''), (0, 0, ''hello''), (1, 0, ''hello''),
        (2, 0, ''hello''), (3, 0, ''hello''), (4, 0, ''hello''), (5, 0, ''hello''), (6, 0, ''hello''),
        (7, 0, ''hello''), (8, 0, ''hello''), (9, 0, ''hello'')],
     et_skip = True\<rparr>"

definition ManytoMany :: echo_test where
  "ManytoMany = \<lparr>
     et_servers = [
        ''server0'', ''server1'', ''server2'', ''server3'', ''server4'', ''server5'', ''server6'',
        ''server7'', ''server8'', ''server9''],
     et_clients = 33,
     et_connections = [
        (7, 32, ''whoru''), (9, 16, ''whoru''), (6, 26, ''echo-hello3''), (5, 13, ''whoami''),
        (0, 30, ''echo-hello5''), (6, 31, ''echo-hello6''), (5, 1, ''whoru''), (4, 20, ''echo-hello8''),
        (3, 30, ''whoru''), (1, 4, ''whoami''), (2, 1, ''whoru''), (0, 13, ''echo-hello12''),
        (8, 30, ''whoami''), (2, 2, ''echo-hello14''), (3, 18, ''whoru''), (2, 20, ''hello''),
        (9, 15, ''hello''), (5, 32, ''whoru''), (6, 14, ''hello''), (8, 6, ''hello''), (8, 4, ''whoami''),
        (7, 24, ''hello''), (7, 7, ''hello''), (6, 28, ''whoru''), (2, 5, ''hello''),
        (8, 31, ''echo-hello26''), (2, 7, ''whoru''), (4, 28, ''hello''), (7, 7, ''whoami''),
        (1, 1, ''echo-hello30''), (9, 10, ''hello''), (7, 2, ''whoami''), (4, 23, ''whoru''),
        (6, 29, ''whoami''), (2, 1, ''hello''), (3, 29, ''whoru''), (8, 32, ''echo-hello37''),
        (7, 5, ''whoru''), (7, 11, ''hello''), (2, 24, ''hello''), (1, 13, ''echo-hello41''),
        (6, 2, ''whoru''), (1, 24, ''whoami''), (1, 11, ''whoami''), (2, 24, ''whoru''),
        (7, 32, ''echo-hello46''), (2, 8, ''hello''), (0, 15, ''hello''), (9, 30, ''hello''),
        (8, 9, ''whoami''), (0, 6, ''whoru''), (3, 25, ''whoru''), (3, 29, ''whoami''), (1, 17, ''hello''),
        (5, 4, ''whoru''), (3, 25, ''whoru''), (9, 1, ''whoami''), (6, 17, ''whoru''),
        (7, 25, ''echo-hello59''), (7, 0, ''hello''), (6, 13, ''whoru''), (5, 19, ''whoami''),
        (2, 12, ''whoami''), (2, 9, ''hello''), (2, 17, ''hello''), (6, 26, ''whoru''),
        (0, 21, ''whoami''), (9, 28, ''hello''), (6, 20, ''whoru''), (6, 2, ''echo-hello70''),
        (0, 23, ''whoru''), (2, 10, ''whoru''), (4, 5, ''echo-hello73''), (2, 2, ''whoru''),
        (9, 31, ''whoru''), (4, 32, ''whoru''), (3, 26, ''hello''), (4, 21, ''whoami''),
        (0, 4, ''echo-hello79''), (2, 10, ''whoru''), (1, 29, ''whoami''), (4, 11, ''whoami''),
        (4, 32, ''whoru''), (0, 26, ''hello''), (6, 2, ''whoru''), (6, 14, ''whoami''), (3, 3, ''whoru''),
        (3, 29, ''echo-hello88''), (3, 32, ''whoru''), (0, 21, ''whoru''), (8, 27, ''echo-hello91''),
        (7, 13, ''whoami''), (5, 17, ''echo-hello93''), (4, 22, ''hello''), (6, 14, ''echo-hello95''),
        (8, 14, ''whoami''), (7, 24, ''hello''), (1, 9, ''whoru''), (5, 4, ''hello''), (1, 23, ''hello''),
        (1, 16, ''hello''), (1, 8, ''whoru''), (6, 28, ''hello''), (7, 0, ''echo-hello104''),
        (9, 30, ''whoru''), (4, 8, ''echo-hello106''), (7, 11, ''echo-hello107''),
        (6, 24, ''echo-hello108''), (3, 6, ''echo-hello109''), (4, 31, ''whoami''), (8, 21, ''hello''),
        (0, 8, ''echo-hello112''), (8, 6, ''hello''), (6, 1, ''whoru''), (9, 21, ''hello''),
        (5, 18, ''hello''), (5, 19, ''whoru''), (2, 15, ''whoami''), (5, 17, ''whoami''),
        (9, 20, ''hello''), (9, 28, ''whoru''), (6, 28, ''whoami''), (5, 13, ''whoru''),
        (5, 23, ''whoami''), (7, 11, ''echo-hello125''), (4, 21, ''whoami''), (1, 19, ''hello''),
        (0, 9, ''whoami''), (8, 32, ''echo-hello129''), (3, 14, ''echo-hello130''), (5, 0, ''whoru''),
        (7, 7, ''echo-hello132''), (9, 27, ''whoami''), (0, 24, ''echo-hello134''), (3, 22, ''hello''),
        (5, 29, ''whoami''), (2, 5, ''whoami''), (1, 25, ''hello''), (5, 32, ''hello''),
        (5, 18, ''whoru''), (8, 27, ''hello''), (4, 24, ''hello''), (0, 9, ''whoami''), (1, 11, ''hello''),
        (4, 15, ''hello''), (8, 16, ''hello''), (9, 15, ''whoami''), (6, 25, ''echo-hello148''),
        (4, 25, ''whoru''), (2, 4, ''whoami''), (4, 13, ''hello''), (7, 17, ''hello''),
        (9, 31, ''whoami''), (2, 26, ''hello''), (7, 32, ''whoami''), (7, 32, ''whoru''),
        (1, 27, ''whoami''), (2, 12, ''whoami''), (1, 4, ''hello''), (0, 8, ''whoru''),
        (4, 15, ''whoami''), (4, 19, ''hello''), (1, 12, ''whoru''), (2, 23, ''whoami''),
        (4, 22, ''hello''), (5, 22, ''whoru''), (4, 29, ''whoami''), (9, 18, ''echo-hello168''),
        (8, 21, ''echo-hello169''), (8, 5, ''whoru''), (8, 17, ''hello''), (6, 8, ''whoami''),
        (8, 20, ''echo-hello173''), (0, 5, ''hello''), (1, 5, ''whoru''), (6, 7, ''whoami''),
        (2, 26, ''echo-hello177''), (9, 28, ''whoami''), (6, 3, ''echo-hello179''), (0, 26, ''whoami''),
        (4, 6, ''echo-hello181''), (9, 20, ''hello''), (7, 16, ''whoru''), (4, 19, ''hello''),
        (9, 7, ''echo-hello185''), (2, 14, ''hello''), (0, 8, ''whoru''), (9, 28, ''echo-hello188''),
        (4, 11, ''echo-hello189''), (3, 32, ''echo-hello190''), (4, 24, ''hello''), (3, 1, ''whoru''),
        (4, 23, ''whoami''), (4, 3, ''echo-hello194''), (0, 2, ''hello''), (4, 3, ''echo-hello196''),
        (2, 17, ''hello''), (0, 8, ''echo-hello198''), (1, 21, ''echo-hello199''),
        (9, 7, ''echo-hello200''), (5, 12, ''whoru''), (6, 15, ''whoami''), (3, 18, ''echo-hello203''),
        (8, 29, ''whoru''), (3, 25, ''whoru''), (3, 25, ''whoami''), (2, 3, ''whoami''),
        (2, 11, ''whoru''), (8, 13, ''hello''), (9, 21, ''whoru''), (2, 4, ''whoru''), (1, 23, ''hello''),
        (6, 29, ''hello''), (4, 11, ''whoami''), (1, 5, ''hello''), (5, 6, ''whoami'')],
     et_skip = True\<rparr>"

definition echo_tests :: "echo_test list" where
  "echo_tests = [SingleEcho, SingleWhoRU, SingleWhoAmI, SingleHello, OnetoManyEcho, OnetoManyWhoRU, OnetoManyWhoAmI, OnetoManyHello,
     OnetoManyAll, ManytoOneEcho, ManytoOneWhoRU, ManytoOneWhoAmI, ManytoOneHello, ManytoOneAll, ManytoMany]"

lemmas echo_test_defs = SingleEcho_def SingleWhoRU_def SingleWhoAmI_def SingleHello_def OnetoManyEcho_def OnetoManyWhoRU_def
  OnetoManyWhoAmI_def OnetoManyHello_def OnetoManyAll_def ManytoOneEcho_def ManytoOneWhoRU_def ManytoOneWhoAmI_def
  ManytoOneHello_def ManytoOneAll_def ManytoMany_def

section \<open>The network of the fixture\<close>

definition echo_node :: "nat \<Rightarrow> ModuleID" where
  "echo_node k = of_nat (2 * k)"

definition echo_wire :: "nat \<Rightarrow> ModuleID" where
  "echo_wire k = of_nat (2 * k + 1)"

lemma echo_ids:
  assumes "i < 1000" and "j < 1000"
  shows "echo_node i = echo_node j \<longleftrightarrow> i = j" "echo_wire i = echo_wire j \<longleftrightarrow> i = j" "echo_node i \<noteq> echo_wire j"
    "echo_wire j \<noteq> echo_node i" "echo_node i \<noteq> 1" "1 \<noteq> echo_node i" "echo_wire i = 1 \<longleftrightarrow> i = 0" "echo_node i = 0 \<longleftrightarrow> i = 0"
proof -
  have eq: "(of_nat a :: ModuleID) = of_nat b \<longleftrightarrow> a = b" if "a < 3000" "b < 3000" for a b
    using that by (intro of_nat_eq_u64) simp_all
  show "echo_node i = echo_node j \<longleftrightarrow> i = j" "echo_wire i = echo_wire j \<longleftrightarrow> i = j"
    unfolding echo_node_def echo_wire_def using assms by (subst eq; simp)+
  show w: "echo_node i \<noteq> echo_wire j" unfolding echo_node_def echo_wire_def using assms by (subst eq) (simp_all, presburger)
  then show "echo_wire j \<noteq> echo_node i" by (rule not_sym)
  have "echo_node i = of_nat 1 \<longleftrightarrow> False" unfolding echo_node_def using assms by (subst eq) auto
  then show o: "echo_node i \<noteq> 1" by simp
  then show "1 \<noteq> echo_node i" by (rule not_sym)
  have "echo_wire i = of_nat 1 \<longleftrightarrow> i = 0" unfolding echo_wire_def using assms by (subst eq) auto
  then show "echo_wire i = 1 \<longleftrightarrow> i = 0" by simp
  have "echo_node i = of_nat 0 \<longleftrightarrow> i = 0" unfolding echo_node_def using assms by (subst eq) auto
  then show "echo_node i = 0 \<longleftrightarrow> i = 0" by simp
qed

definition echo_routing :: "nat \<Rightarrow> nat \<Rightarrow> routing_info" where
  "echo_routing n k =
     setRoutingTable [10, 0, 0, 0] 16 0 (setIPAddr (echo_ip k) 0
       (fold (\<lambda>p. setARPTable (echo_mac p) (echo_ip p)) (filter (\<lambda>p. p \<noteq> k) [1..<Suc n])
         (setMACAddr (echo_mac k) 0 empty_routing)))"

text \<open>What holds when the first \<open>k\<close> of \<open>n\<close> hosts are up: the switch has a wire to each, and each has its
  addresses, its TCP module and one port.\<close>

definition echo_switch_ok :: "nat \<Rightarrow> switch \<Rightarrow> bool" where
  "echo_switch_ok k sw \<longleftrightarrow> l_ports sw = map echo_wire [1..<Suc k] \<and>
     (\<forall>i < 1000. mac_table sw (echo_wire i) = (if i \<in> {1..k} then Some {arrayToUINT64 (echo_mac i)} else None))"

definition echo_host_ok :: "nat \<Rightarrow> nat \<Rightarrow> world \<Rightarrow> bool" where
  "echo_host_ok n i w \<longleftrightarrow>
     (\<exists>h x. modules w (echo_node i) = Some (HostM h) \<and> h_ports h = [echo_wire i] \<and> routing h = echo_routing n i \<and>
        hostModuleMap h ''TCP'' \<noteq> None \<and> modules w (echo_wire i) = Some (WireM x) \<and> connected x = [echo_node i, 1])"

definition echo_inv :: "nat \<Rightarrow> nat \<Rightarrow> echo_host list \<times> world \<times> net \<Rightarrow> bool" where
  "echo_inv n k st \<longleftrightarrow>
     (case st of (hosts, w, s) \<Rightarrow>
        hosts = map (\<lambda>i. \<lparr>eh_host = echo_node i, eh_apps = []\<rparr>) [1..<Suc k] \<and> next_module_id w = echo_node (Suc k) \<and>
        (\<forall>i > k. i < 1000 \<longrightarrow> echo_node i \<notin> registeredModule s \<and> echo_wire i \<notin> registeredModule s \<and>
           modules w (echo_node i) = None \<and> modules w (echo_wire i) = None) \<and>
        (\<exists>sw. modules w 1 = Some (SwitchM sw) \<and> echo_switch_ok k sw) \<and>
        (\<forall>i \<in> {1..k}. echo_host_ok n i w))"

text \<open>The addresses, the entry of the switch and the protocol modules of a host that has its wire.\<close>

lemma echo_stack_up:
  fixes i n :: nat and port :: int
  defines "h \<equiv> echo_node i"
  assumes at: "modules w h = Some (HostM (bare_host [v]))" "modules w 1 = Some (SwitchM sw)" and "h \<noteq> 1"
    and entry: "addMACEntry port (echo_mac i) sw = Inr sw'" and tcp: "installs_tcp solution"
  shows "\<exists>h'. perform (setMAC h (echo_mac i) 0 #
      map (\<lambda>p. setARP h (echo_mac p) (echo_ip p)) (filter (\<lambda>p. p \<noteq> i) [1..<Suc n]) @
      [setIP h (echo_ip i) 0, setRoute h [10, 0, 0, 0] 16 0, with_switch 1 (addMACEntry port (echo_mac i)),
       with_host h (addHostModule EthernetC), with_host h (addHostModule IPv4C), with_host h solution]) (w, s) =
      Inr (put_mod h (HostM h') (put_mod 1 (SwitchM sw') w), s) \<and>
    hostModuleMap h' ''TCP'' \<noteq> None \<and> h_ports h' = [v] \<and> routing h' = echo_routing n i"
proof -
  let ?arp = "filter (\<lambda>p. p \<noteq> i) [1..<Suc n]"
  let ?base = "bare_host [v]\<lparr>routing := echo_routing n i, hostModuleMap := [''Ethernet'' \<mapsto> EthernetMod, ''IPv4'' \<mapsto> IPv4Mod 0]\<rparr>"
  obtain h' where h': "solution ?base = Inr h'" "hostModuleMap h' ''TCP'' \<noteq> None" "h_ports h' = [v]" "routing h' = echo_routing n i"
    using tcp [unfolded installs_tcp_def, rule_format, of ?base] by (auto simp: bare_host_def AF_INET_def)
  have eth: "addHostModule EthernetC (bare_host us\<lparr>routing := r\<rparr>) =
      Inr (bare_host us\<lparr>routing := r, hostModuleMap := [''Ethernet'' \<mapsto> EthernetMod]\<rparr>)"
    "addHostModule IPv4C (bare_host us\<lparr>routing := r, hostModuleMap := [''Ethernet'' \<mapsto> EthernetMod]\<rparr>) =
      Inr (bare_host us\<lparr>routing := r, hostModuleMap := [''Ethernet'' \<mapsto> EthernetMod, ''IPv4'' \<mapsto> IPv4Mod 0]\<rparr>)" for us r
    by (simp_all add: addHostModule_def insert_new_def bare_host_def)
  define h1 where "h1 = bare_host [v]\<lparr>routing := setMACAddr (echo_mac i) 0 empty_routing\<rparr>"
  define h2 where "h2 = h1\<lparr>routing := fold (\<lambda>p. setARPTable (echo_mac p) (echo_ip p)) ?arp (routing h1)\<rparr>"
  define h3 where "h3 = h2\<lparr>routing := setIPAddr (echo_ip i) 0 (routing h2)\<rparr>"
  have step: "with_host h f (put_mod h (HostM a) x, s) = Inr (put_mod h (HostM b) x, s)" if "f a = Inr b" for f a b x
    by (subst with_host_put [of _ _ a f b]) (simp_all add: that)
  have mac: "setMAC h (echo_mac i) 0 (w, s) = Inr (put_mod h (HostM h1) w, s)"
    using at(1) by (rule with_host_put) (simp add: on_routing_def h1_def bare_host_def)
  have arp: "perform (map (\<lambda>p. setARP h (echo_mac p) (echo_ip p)) ?arp) (put_mod h (HostM h1) w, s) = Inr (put_mod h (HostM h2) w, s)"
    by (subst with_host_map [of _ _ h1]) (simp_all add: h2_def)
  have ip: "setIP h (echo_ip i) 0 (put_mod h (HostM h2) w, s) = Inr (put_mod h (HostM h3) w, s)"
    by (rule step) (simp add: on_routing_def h3_def)
  have route: "setRoute h [10, 0, 0, 0] 16 0 (put_mod h (HostM h3) w, s) =
      Inr (put_mod h (HostM (bare_host [v]\<lparr>routing := echo_routing n i\<rparr>)) w, s)"
    by (rule step) (simp add: on_routing_def h3_def h2_def h1_def echo_routing_def bare_host_def)
  have sw: "with_switch 1 (addMACEntry port (echo_mac i)) (put_mod h (HostM a) w, s) =
      Inr (put_mod h (HostM a) (put_mod 1 (SwitchM sw') w), s)" for a
    by (subst with_switch_put [where x = sw and x' = sw'])
      (use assms(4) at(2) entry in \<open>simp_all add: put_mod_def fun_upd_twist\<close>)
  show ?thesis
    unfolding foldE.simps foldE_append mac arp ip route sw bindE_Inr step [of "addHostModule EthernetC", OF eth(1)]
      step [of "addHostModule IPv4C", OF eth(2)] step [of solution, OF h'(1)]
    using h'(2-4) by blast
qed

lemma echo_host_up_run:
  fixes k :: nat
  defines "h \<equiv> echo_node (Suc k)" and "v \<equiv> echo_wire (Suc k)"
  assumes sw: "modules w 1 = Some (SwitchM sw)" "l_ports sw = map echo_wire [1..<Suc k]" "mac_table sw v = None"
    and free: "h \<notin> registeredModule s" "v \<notin> registeredModule s" "modules w h = None" "modules w v = None"
    and "next_module_id w = h" and tcp: "installs_tcp solution" and "k < 500"
  shows "\<exists>w' h' x. echo_host_up solution n 1 (Suc k) (hosts, w, s) =
      Inr (hosts @ [\<lparr>eh_host = h, eh_apps = []\<rparr>], w', s\<lparr>registeredModule := insert v (insert h (registeredModule s))\<rparr>) \<and>
    modules w' h = Some (HostM h') \<and> hostModuleMap h' ''TCP'' \<noteq> None \<and> h_ports h' = [v] \<and> routing h' = echo_routing n (Suc k) \<and>
    modules w' 1 = Some (SwitchM (sw\<lparr>l_ports := map echo_wire [1..<Suc (Suc k)],
      mac_table := (mac_table sw)(v \<mapsto> {arrayToUINT64 (echo_mac (Suc k))})\<rparr>)) \<and>
    modules w' v = Some (WireM x) \<and> connected x = [h, 1] \<and>
    (\<forall>u. u \<noteq> h \<longrightarrow> u \<noteq> 1 \<longrightarrow> u \<noteq> v \<longrightarrow> modules w' u = modules w u) \<and> next_module_id w' = echo_node (Suc (Suc k))"
proof -
  have ids: "h \<noteq> 1" "1 \<noteq> h" "v \<noteq> 1" "1 \<noteq> v" "v \<noteq> h" "h \<noteq> v" "h + 1 = v" "v + 1 = echo_node (Suc (Suc k))"
    using echo_ids [of "Suc k" "Suc k"] \<open>k < 500\<close> by (auto simp: h_def v_def echo_node_def echo_wire_def)
  let ?s1 = "s\<lparr>registeredModule := insert h (registeredModule s)\<rparr>"
  let ?s2 = "s\<lparr>registeredModule := insert v (insert h (registeredModule s))\<rparr>"
  let ?w1 = "w\<lparr>modules := (modules w)(h \<mapsto> HostM (bare_host [])), next_module_id := v\<rparr>"
  have host: "addHost (w, s) = Inr (h, ?w1, ?s1)"
    using free assms(10) ids by (simp add: addHost_def Host_new_bare net_addModule_def addModule_def Let_def)
  let ?x = "Wire_new h 1 (makeTime 1 MSEC) 1000000000 True s" and ?sw = "sw\<lparr>l_ports := map echo_wire [1..<Suc (Suc k)]\<rparr>"
  define w2 where "w2 = w\<lparr>modules := (modules w)(v \<mapsto> WireM ?x, h \<mapsto> HostM (bare_host [v]), 1 \<mapsto> SwitchM ?sw),
      next_module_id := echo_node (Suc (Suc k))\<rparr>"
  have wire: "addWire h 1 (makeTime 1 MSEC) 1000000000 True (?w1, ?s1) = Inr (v, 0, int k, w2, ?s2)"
    by (subst addWire_at [where hh = "bare_host []" and x = sw])
      (use free ids sw(1,2) in \<open>simp_all add: bare_host_def fun_eq_iff w2_def v_def\<close>)
  let ?sw' = "?sw\<lparr>mac_table := (mac_table sw)(v \<mapsto> {arrayToUINT64 (echo_mac (Suc k))})\<rparr>"
  have entry: "addMACEntry (int k) (echo_mac (Suc k)) ?sw = Inr ?sw'"
    using sw(3) by (simp add: addMACEntry_def indexE_def nth_append v_def)
  have at: "modules w2 h = Some (HostM (bare_host [v]))" "modules w2 1 = Some (SwitchM ?sw)" "modules w2 v = Some (WireM ?x)"
    "\<And>u. u \<noteq> h \<Longrightarrow> u \<noteq> 1 \<Longrightarrow> u \<noteq> v \<Longrightarrow> modules w2 u = modules w u" "next_module_id w2 = echo_node (Suc (Suc k))"
    using ids by (simp_all add: w2_def)
  note stack = echo_stack_up [of w2 "Suc k" v ?sw, folded h_def, OF at(1,2) ids(1) entry tcp, of n ?s2]
  then obtain h' where h': "echo_host_up solution n 1 (Suc k) (hosts, w, s) =
      Inr (hosts @ [\<lparr>eh_host = h, eh_apps = []\<rparr>], put_mod h (HostM h') (put_mod 1 (SwitchM ?sw') w2), ?s2)"
      "hostModuleMap h' ''TCP'' \<noteq> None" "h_ports h' = [v]" "routing h' = echo_routing n (Suc k)"
    unfolding echo_host_up_def split_conv host bindE_Inr wire by auto
  have "connected ?x = [h, 1]" by (simp add: Wire_new_def)
  with h' at ids show ?thesis
    by (intro exI [of _ "put_mod h (HostM h') (put_mod 1 (SwitchM ?sw') w2)"] exI [of _ h'] exI [of _ ?x]) simp
qed

lemma echo_host_up_inv:
  assumes "echo_inv n k st" and "installs_tcp solution" and "k < 500"
  shows "\<exists>st'. echo_host_up solution n 1 (Suc k) st = Inr st' \<and> echo_inv n (Suc k) st'"
proof -
  obtain hosts w s where st: "st = (hosts, w, s)" by (cases st)
  let ?i = "Suc k" let ?h = "echo_node ?i" and ?v = "echo_wire ?i"
  note I = assms(1) [unfolded echo_inv_def st split_conv]
  have I1: "hosts = map (\<lambda>i. \<lparr>eh_host = echo_node i, eh_apps = []\<rparr>) [1..<Suc k]" "next_module_id w = ?h" using I by blast+
  have free: "echo_node i \<notin> registeredModule s" "echo_wire i \<notin> registeredModule s" "modules w (echo_node i) = None"
    "modules w (echo_wire i) = None" if "k < i" "i < 1000" for i
    using I that by blast+
  obtain sw where sw: "modules w 1 = Some (SwitchM sw)" "l_ports sw = map echo_wire [1..<Suc k]"
      "\<And>i. i < 1000 \<Longrightarrow> mac_table sw (echo_wire i) = (if i \<in> {1..k} then Some {arrayToUINT64 (echo_mac i)} else None)"
    using I unfolding echo_switch_ok_def by blast
  have lt: "k < ?i" "?i < 1000" using assms(3) by simp_all
  have none: "mac_table sw ?v = None" using sw(3) [OF lt(2)] by simp
  let ?s = "s\<lparr>registeredModule := insert ?v (insert ?h (registeredModule s))\<rparr>"
  let ?sw = "sw\<lparr>l_ports := map echo_wire [1..<Suc ?i], mac_table := (mac_table sw)(?v \<mapsto> {arrayToUINT64 (echo_mac ?i)})\<rparr>"
  obtain w' h x where run: "echo_host_up solution n 1 ?i st = Inr (hosts @ [\<lparr>eh_host = ?h, eh_apps = []\<rparr>], w', ?s)"
      and h: "modules w' ?h = Some (HostM h)" "hostModuleMap h ''TCP'' \<noteq> None" "h_ports h = [?v]" "routing h = echo_routing n ?i"
      and sw': "modules w' 1 = Some (SwitchM ?sw)" and x: "modules w' ?v = Some (WireM x)" "connected x = [?h, 1]"
      and same: "\<And>u. u \<noteq> ?h \<Longrightarrow> u \<noteq> 1 \<Longrightarrow> u \<noteq> ?v \<Longrightarrow> modules w' u = modules w u"
      and "next": "next_module_id w' = echo_node (Suc ?i)"
    using echo_host_up_run [OF sw(1,2) none free [OF lt] I1(2) assms(2,3)] unfolding st by blast
  have other: "modules w' (echo_node i) = modules w (echo_node i)" "modules w' (echo_wire i) = modules w (echo_wire i)"
    if "i < 1000" "i \<noteq> ?i" "i \<noteq> 0" for i
    using that assms(3) echo_ids [of i ?i] echo_ids [of ?i i] by (intro same; simp)+
  have "echo_host_ok n i w'" if "i \<in> {1..?i}" for i
    using h x I that assms(3) other [of i] by (cases "i = ?i") (auto simp: echo_host_ok_def)
  moreover have "echo_switch_ok ?i ?sw"
    unfolding echo_switch_ok_def using sw(3) assms(3) echo_ids(2) [of _ ?i] by (auto simp del: upt_Suc)
  moreover have "echo_node i \<notin> registeredModule ?s \<and> echo_wire i \<notin> registeredModule ?s \<and>
           modules w' (echo_node i) = None \<and> modules w' (echo_wire i) = None" if "?i < i" "i < 1000" for i
    using free [of i] that other [of i] echo_ids [of i ?i] echo_ids [of ?i i] assms(3) by simp
  moreover have "hosts @ [\<lparr>eh_host = ?h, eh_apps = []\<rparr>] = map (\<lambda>i. \<lparr>eh_host = echo_node i, eh_apps = []\<rparr>) [1..<Suc ?i]"
    using I1(1) by simp
  ultimately have "echo_inv n ?i (hosts @ [\<lparr>eh_host = ?h, eh_apps = []\<rparr>], w', ?s)"
    unfolding echo_inv_def split_conv using sw' "next" by blast
  with run show ?thesis by blast
qed

lemma echo_hosts_up:
  assumes "echo_inv n 0 st" and "installs_tcp solution" and "k < 500"
  shows "\<exists>st'. foldE (echo_host_up solution n 1) [1..<Suc k] st = Inr st' \<and> echo_inv n k st'"
  using assms(3)
proof (induction k)
  case 0
  with assms(1) show ?case by simp
next
  case (Suc k)
  then obtain st' where st': "foldE (echo_host_up solution n 1) [1..<Suc k] st = Inr st'" "echo_inv n k st'" by auto
  have "[1..<Suc (Suc k)] = [1..<Suc k] @ [Suc k]" by simp
  with st' echo_host_up_inv [OF st'(2) assms(2)] Suc.prems show ?case by (auto simp: foldE_append simp del: upt_Suc)
qed

lemma initialize_keeps:
  assumes "\<forall>i \<in> set is. \<exists>h. modules w (echo_node i) = Some (HostM h) \<and> hostModuleMap h ''TCP'' \<noteq> None"
  shows "perform (map (\<lambda>i. with_host (echo_node i) (initializeHostModule ''TCP'')) is) (w, s) = Inr (w, s)"
  using assms
proof (induction "is")
  case (Cons i "is")
  then obtain h where h: "modules w (echo_node i) = Some (HostM h)" "hostModuleMap h ''TCP'' \<noteq> None" by auto
  then have "with_host (echo_node i) (initializeHostModule ''TCP'') (w, s) = Inr (put_mod (echo_node i) (HostM h) w, s)"
    by (intro with_host_put) (auto simp: initializeHostModule_def)
  with h Cons show ?case by (simp add: put_mod_same)
qed simp

text \<open>The network is up: its switch and its \<open>n\<close> hosts.\<close>

lemma echo_network_up:
  assumes "installs_tcp solution" and "n < 500"
  shows "\<exists>w s sw. echo_network solution g g' n NetworkSystem_new =
      Inr (1, map (\<lambda>i. \<lparr>eh_host = echo_node i, eh_apps = []\<rparr>) [1..<Suc n], w, s) \<and>
    modules w 1 = Some (SwitchM sw) \<and> echo_switch_ok n sw \<and> (\<forall>i \<in> {1..n}. echo_host_ok n i w)"
proof -
  obtain w0 s0 where new: "addSwitch g g' False NetworkSystem_new = Inr (1, w0, s0)" "modules w0 = [1 \<mapsto> SwitchM (Switch_new g g' False)]"
      "next_module_id w0 = 2" "registeredModule s0 = {1}"
    by (simp add: addSwitch_def build_simps)
  have ne: "echo_node i \<noteq> 1" "echo_wire i \<noteq> 1" if "0 < i" "i < 1000" for i using echo_ids [of i i] that by auto
  have "echo_inv n 0 ([], w0, s0)"
    using new ne unfolding echo_inv_def split_conv by (auto simp: echo_switch_ok_def echo_node_def)
  from echo_hosts_up [OF this assms] obtain hosts w s where
    up: "foldE (echo_host_up solution n 1) [1..<Suc n] ([], w0, s0) = Inr (hosts, w, s)" "echo_inv n n (hosts, w, s)"
    by (metis prod_cases3)
  note I = up(2) [unfolded echo_inv_def split_conv]
  obtain sw where sw: "modules w 1 = Some (SwitchM sw)" "echo_switch_ok n sw" using I by blast
  let ?sw = "enablePCAPLogging 65535 sw" and ?w = "put_mod 1 (SwitchM (enablePCAPLogging 65535 sw)) w"
  have hosts: "hosts = map (\<lambda>i. \<lparr>eh_host = echo_node i, eh_apps = []\<rparr>) [1..<Suc n]" using I by blast
  have 1: "with_switch 1 (\<lambda>x. Inr (enablePCAPLogging 65535 x)) (w, s) = Inr (?w, s)"
    using sw(1) by (rule with_switch_put) simp
  have keep: "echo_host_ok n i ?w" if "i \<in> {1..n}" for i
    using I that ne [of i] assms(2) by (simp add: echo_host_ok_def)
  have "\<forall>i \<in> set [1..<Suc n]. \<exists>h. modules ?w (echo_node i) = Some (HostM h) \<and> hostModuleMap h ''TCP'' \<noteq> None"
    using keep unfolding echo_host_ok_def by fastforce
  from initialize_keeps [OF this, of s]
  have 2: "perform (map (\<lambda>h. with_host (eh_host h) (initializeHostModule ''TCP'')) hosts) (?w, s) = Inr (?w, s)"
    unfolding hosts map_map comp_def by simp
  have "echo_network solution g g' n NetworkSystem_new = Inr (1, hosts, ?w, s)"
    unfolding echo_network_def new bindE_Inr split_conv up(1) foldE.simps 1 2 ..
  moreover have "echo_switch_ok n ?sw" using sw(2) by (simp add: echo_switch_ok_def enablePCAPLogging_def)
  ultimately show ?thesis using keep hosts by auto
qed


section \<open>Where datagrams go\<close>

lemma echo_ip_eq: "i < 256 \<Longrightarrow> j < 256 \<Longrightarrow> echo_ip i = echo_ip j \<longleftrightarrow> i = j"
  "i < 256 \<Longrightarrow> j < 256 \<Longrightarrow> echo_mac i = echo_mac j \<longleftrightarrow> i = j"
  using of_nat_eq_u8 unfolding echo_ip_def echo_mac_def list.inject by blast+

lemma fold_setARP:
  "fold (\<lambda>p. setARPTable (m p) (f p)) ps r = r\<lparr>arp_vector := arp_vector r @ map (\<lambda>p. \<lparr>ae_ip = f p, ae_mac = m p\<rparr>) ps\<rparr>"
  by (induction ps arbitrary: r) (simp_all add: setARPTable_def)

lemma echo_routing_lookups:
  assumes "i \<in> {1..n}" and "j \<in> {1..n}" and "i \<noteq> j" and "n < 256"
  shows "getRoutingTable (echo_routing n i) (echo_ip j) = Inr 0" "getMACAddr (echo_routing n i) 0 = Some (echo_mac i)"
    "getARPTable (echo_routing n i) (echo_ip j) = Some (echo_mac j)"
proof -
  have r: "echo_routing n i = \<lparr>mac_vector = [\<lparr>me_mac = echo_mac i, me_port = 0\<rparr>], ip_vector = [\<lparr>ie_ip = echo_ip i, ie_port = 0\<rparr>],
      arp_vector = map (\<lambda>p. \<lparr>ae_ip = echo_ip p, ae_mac = echo_mac p\<rparr>) (filter (\<lambda>p. p \<noteq> i) [1..<Suc n]),
      route_vector = [\<lparr>ip_mask = [10, 0, 0, 0], prefix = 16, re_port = 0\<rparr>]\<rparr>"
    by (simp add: echo_routing_def fold_setARP setRoutingTable_def setIPAddr_def setMACAddr_def empty_routing_def del: upt_Suc)
  show "getMACAddr (echo_routing n i) 0 = Some (echo_mac i)" by (simp add: r getMACAddr_def)
  show "getRoutingTable (echo_routing n i) (echo_ip j) = Inr 0"
    by (simp add: r getRoutingTable_def route_matches_def whole_bytes_match_def echo_ip_def indexE_def numeral_2_eq_2)
  have "find (\<lambda>entry. echo_ip j = ae_ip entry) (arp_vector (echo_routing n i)) = Some \<lparr>ae_ip = echo_ip j, ae_mac = echo_mac j\<rparr>"
    using assms by (intro find_unique) (auto simp: r echo_ip_eq simp del: upt_Suc)
  then show "getARPTable (echo_routing n i) (echo_ip j) = Some (echo_mac j)" by (simp add: getARPTable_def)
qed

lemma echo_receivers:
  assumes "modules w 1 = Some (SwitchM sw)" and "echo_switch_ok n sw" and ok: "\<forall>i \<in> {1..n}. echo_host_ok n i w"
    and ij: "i \<in> {1..n}" "j \<in> {1..n}" "i \<noteq> j" and "n < 256"
  shows "receivers (echo_node i) (echo_ip j) w = [Some (echo_node j)]"
proof -
  from ok ij(1) obtain h x where h: "modules w (echo_node i) = Some (HostM h)" "h_ports h = [echo_wire i]" "routing h = echo_routing n i"
      "modules w (echo_wire i) = Some (WireM x)" "connected x = [echo_node i, 1]" unfolding echo_host_ok_def by blast
  from ok ij(2) obtain y where y: "modules w (echo_wire j) = Some (WireM y)" "connected y = [echo_node j, 1]"
    unfolding echo_host_ok_def by blast
  have frame: "frame_for (echo_node i) (echo_ip j) w = Some (echo_mac i, echo_mac j, echo_wire i)"
    using h echo_routing_lookups [OF ij assms(7)] by (simp add: frame_for_def)
  have end1: "other_end (echo_node i) (echo_wire i) w = Some 1" using h by (simp add: other_end_def wire_destination_def)
  have end2: "other_end 1 (echo_wire j) w = Some (echo_node j)"
    using y echo_ids [of j j] ij assms(7) by (simp add: other_end_def wire_destination_def)
  have lt: "k < 256" if "k \<in> {1..n}" for k using that assms(7) by simp
  have mac: "arrayToUINT64 (echo_mac a) = arrayToUINT64 (echo_mac b) \<longleftrightarrow> a = b" if "a \<in> {1..n}" "b \<in> {1..n}" for a b
    using arrayToUINT64_inj [of "echo_mac a" "echo_mac b"] echo_ip_eq(2) [OF lt lt] that by (auto simp: echo_mac_def)
  have "distinct (map echo_wire [1..<Suc n])"
    using echo_ids(2) assms(7) by (auto simp: distinct_map inj_on_def simp del: upt_Suc)
  then have "distinct (filter (\<lambda>v. v \<noteq> echo_wire i) (l_ports sw))" using assms(2) by (simp add: echo_switch_ok_def)
  moreover have "echo_wire j \<in> set (filter (\<lambda>v. v \<noteq> echo_wire i) (l_ports sw))"
    using assms(2,7) ij echo_ids(2) [of i j] by (auto simp: echo_switch_ok_def simp del: upt_Suc)
  moreover have "(echo_mac j = mac_broadcast \<or> mac_known sw v (arrayToUINT64 (echo_mac j))) \<longleftrightarrow> v = echo_wire j"
    if "v \<in> set (filter (\<lambda>v. v \<noteq> echo_wire i) (l_ports sw))" for v
  proof -
    from that assms(2) obtain k where k: "v = echo_wire k" "k \<in> {1..n}" by (auto simp: echo_switch_ok_def simp del: upt_Suc)
    then have "mac_table sw v = Some {arrayToUINT64 (echo_mac k)}" using assms(2,7) by (simp add: echo_switch_ok_def)
    moreover have "echo_mac j \<noteq> mac_broadcast" by (simp add: echo_mac_def mac_broadcast_def)
    ultimately show ?thesis
      using mac [OF k(2) ij(2)] k echo_ids(2) [of k j] lt [OF k(2)] lt [OF ij(2)] by (auto simp: mac_known_def)
  qed
  ultimately have "filter (\<lambda>v. echo_mac j = mac_broadcast \<or> mac_known sw v (arrayToUINT64 (echo_mac j)))
      (filter (\<lambda>v. v \<noteq> echo_wire i) (l_ports sw)) = [echo_wire j]"
    by (rule filter_unique)
  then have "switch_targets sw (echo_wire i) (echo_mac j) = [echo_wire j]" unfolding switch_targets_def Let_def by simp
  then show ?thesis using frame end1 end2 assms(1) by (simp add: receivers_def)
qed


section \<open>The applications\<close>

lemma echo_name_dotted: "n < 256 \<Longrightarrow> echo_name n = dotted (echo_ip n)"
proof -
  assume "n < 256"
  then have "unat (of_nat n :: u8) = n" by (simp add: unsigned_of_nat take_bit_eq_mod)
  moreover have "print_u64 10 = ''10''" "print_u64 0 = ''0''" by code_simp+
  ultimately show ?thesis by (simp add: echo_name_def dotted_def echo_ip_def)
qed

lemma echo_name_inj: "echo_name a = echo_name b \<longleftrightarrow> a = b"
  unfolding echo_name_def using parse_print_u64 by (metis append_same_eq same_append_eq)

lemma atoi_port: "atoi ''9000'' = 9000"
proof -
  have "char_of (57 :: nat) = CHR ''9''" "char_of (48 :: nat) = CHR ''0''" by code_simp+
  then have "print_u64 9000 = ''9000''" by (simp add: print_u64.simps)
  with atoi_print_u64 [of 9000] show ?thesis by simp
qed

definition server_args :: "string \<Rightarrow> string list" where
  "server_args hello = [''echo'', ''s'', ''0.0.0.0'', ''9000'', hello]"

definition client_args :: "nat \<Rightarrow> string \<Rightarrow> string list" where
  "client_args server_id command = [''echo'', ''c'', echo_name (server_id + 1), ''9000'', command]"

lemma Main_args:
  "EchoAssignment_Main client server (server_args hello) = server ''0.0.0.0'' 9000 hello"
  "EchoAssignment_Main client server (client_args k command) = client (echo_name (k + 1)) 9000 command"
  by (simp_all add: EchoAssignment_Main_def server_args_def client_args_def atoi_port)

lemma server_apps_up:
  assumes "m \<le> length servers" and "length servers \<le> length hosts" and "\<forall>h \<in> set hosts. eh_apps h = []"
  shows "foldE (echo_server_app servers) [0..<m] hosts =
    Inr (map (\<lambda>i. (hosts ! i)\<lparr>eh_apps := if i < m then [EchoApp_new (server_args (servers ! i))] else []\<rparr>) [0..<length hosts])"
  using assms(1)
proof (induction m)
  case 0
  have "map (\<lambda>i. (hosts ! i)\<lparr>eh_apps := []\<rparr>) [0..<length hosts] = hosts"
    using assms(3) by (intro nth_equalityI) auto
  then show ?case by simp
next
  case (Suc m)
  let ?F = "\<lambda>m i. (hosts ! i)\<lparr>eh_apps := if i < m then [EchoApp_new (server_args (servers ! i))] else []\<rparr>"
  let ?H = "\<lambda>m. map (?F m) [0..<length hosts]"
  have "m < length servers" "m < length hosts" using Suc.prems assms(2) by simp_all
  then have "echo_server_app servers m (?H m) = Inr ((?H m)[m := (hosts ! m)\<lparr>eh_apps := [EchoApp_new (server_args (servers ! m))]\<rparr>])"
    by (simp add: echo_server_app_def emplace_app_def indexE_def server_args_def)
  also have "(?H m)[m := (hosts ! m)\<lparr>eh_apps := [EchoApp_new (server_args (servers ! m))]\<rparr>] = ?H (Suc m)"
    by (intro nth_equalityI) (auto simp: nth_list_update less_Suc_eq)
  finally show ?case using Suc by (simp add: foldE_append)
qed

text \<open>What holds when the applications of the servers and of some connections are in place.\<close>

definition echo_apps_ok :: "string list \<Rightarrow> nat \<Rightarrow> echo_host list \<Rightarrow> (nat \<times> nat \<times> string) list \<Rightarrow> echo_testing \<Rightarrow> bool" where
  "echo_apps_ok servers num_clients hosts conns t \<longleftrightarrow>
     ec_servers t = servers \<and> map eh_host (ec_hosts t) = map eh_host hosts \<and>
     (\<forall>k < length servers. eh_apps (ec_hosts t ! k) = [EchoApp_new (server_args (servers ! k))]) \<and>
     map (\<lambda>(k, c, cmd, a). (k, c, cmd)) (ec_connections t) = conns \<and>
     distinct (map (\<lambda>(k, c, cmd, a). (c, a)) (ec_connections t)) \<and>
     (\<forall>(k, c, cmd, a) \<in> set (ec_connections t). k < length servers \<and> c < num_clients \<and>
        a < length (eh_apps (ec_hosts t ! (length servers + c))) \<and>
        ea_args (eh_apps (ec_hosts t ! (length servers + c)) ! a) = client_args k cmd)"

lemma echo_connection_ok:
  assumes ok: "echo_apps_ok servers nc hosts conns t" and "length hosts = nc + length servers"
    and "k < length servers" and "c < nc"
  shows "\<exists>t'. echo_connection nc (k, c, cmd) t = Inr t' \<and> echo_apps_ok servers nc hosts (conns @ [(k, c, cmd)]) t'"
proof -
  let ?n = "length servers" let ?i = "?n + c"
  note I = ok [unfolded echo_apps_ok_def]
  have len: "length (ec_hosts t) = nc + ?n" using I assms(2) by (metis length_map)
  let ?h = "ec_hosts t ! ?i"
  let ?h' = "?h\<lparr>eh_apps := eh_apps ?h @ [EchoApp_new (client_args k cmd)]\<rparr>"
  let ?t = "t\<lparr>ec_connections := ec_connections t @ [(k, c, cmd, length (eh_apps ?h))], ec_hosts := (ec_hosts t)[?i := ?h']\<rparr>"
  have run: "echo_connection nc (k, c, cmd) t = Inr ?t"
    using I assms(3,4) len by (simp add: echo_connection_def emplace_app_def indexE_def client_args_def Let_def)
  have grow: "eh_apps (ec_hosts ?t ! j) = eh_apps (ec_hosts t ! j) @ (if j = ?i then [EchoApp_new (client_args k cmd)] else [])"
    if "j < nc + ?n" for j using that len by (simp add: nth_list_update)
  have last: "\<forall>(k, c, cmd, a) \<in> set (ec_connections t). k < ?n \<and> c < nc \<and>
        a < length (eh_apps (ec_hosts t ! (?n + c))) \<and> ea_args (eh_apps (ec_hosts t ! (?n + c)) ! a) = client_args k cmd"
    using I by (elim conjE)
  have new: "(c, length (eh_apps ?h)) \<notin> set (map (\<lambda>(k, c, cmd, a). (c, a)) (ec_connections t))" using last by fastforce
  have "map eh_host (ec_hosts ?t) = map eh_host (ec_hosts t)" by (simp add: map_update) (metis list_update_id map_update)
  moreover have "\<forall>j < ?n. eh_apps (ec_hosts ?t ! j) = [EchoApp_new (server_args (servers ! j))]"
    using I by simp
  moreover have "\<forall>(k, c, cmd, a) \<in> set (ec_connections ?t). k < ?n \<and> c < nc \<and>
        a < length (eh_apps (ec_hosts ?t ! (?n + c))) \<and> ea_args (eh_apps (ec_hosts ?t ! (?n + c)) ! a) = client_args k cmd"
  proof (intro ballI, clarify)
    fix k' c' cmd' a assume m: "(k', c', cmd', a) \<in> set (ec_connections ?t)"
    show "k' < ?n \<and> c' < nc \<and> a < length (eh_apps (ec_hosts ?t ! (?n + c'))) \<and>
       ea_args (eh_apps (ec_hosts ?t ! (?n + c')) ! a) = client_args k' cmd'"
    proof (cases "(k', c', cmd', a) \<in> set (ec_connections t)")
      case True
      from bspec [OF last this] have "k' < ?n" "c' < nc" "a < length (eh_apps (ec_hosts t ! (?n + c')))"
        "ea_args (eh_apps (ec_hosts t ! (?n + c')) ! a) = client_args k' cmd'" by simp_all
      then show ?thesis using grow [of "?n + c'"] by (simp add: nth_append)
    next
      case False
      with m have "k' = k" "c' = c" "cmd' = cmd" "a = length (eh_apps ?h)" by simp_all
      then show ?thesis using grow [of ?i] assms(3,4) by (simp add: nth_append EchoApp_new_def)
    qed
  qed
  ultimately have "echo_apps_ok servers nc hosts (conns @ [(k, c, cmd)]) ?t"
    using I new unfolding echo_apps_ok_def by simp
  with run show ?thesis by blast
qed

lemma echo_connections_ok:
  assumes "echo_apps_ok servers nc hosts [] t" and "length hosts = nc + length servers"
    and "\<forall>(k, c, cmd) \<in> set conns. k < length servers \<and> c < nc"
  shows "\<exists>t'. foldE (echo_connection nc) conns t = Inr t' \<and> echo_apps_ok servers nc hosts conns t'"
  using assms(3)
proof (induction conns rule: rev_induct)
  case Nil
  with assms(1) show ?case by simp
next
  case (snoc x conns)
  obtain k c cmd where x: "x = (k, c, cmd)" by (cases x)
  from snoc obtain t' where t': "foldE (echo_connection nc) conns t = Inr t'" "echo_apps_ok servers nc hosts conns t'" by auto
  obtain t2 where "echo_connection nc x t' = Inr t2" "echo_apps_ok servers nc hosts (conns @ [x]) t2"
    using echo_connection_ok [OF t'(2) assms(2), of k c cmd] snoc.prems x by auto
  with t'(1) show ?case by (simp add: foldE_append)
qed

text \<open>The fixture after \<^verbatim>\<open>SetUp\<close>.\<close>

definition echo_valid :: "string list \<Rightarrow> nat \<Rightarrow> (nat \<times> nat \<times> string) list \<Rightarrow> bool" where
  "echo_valid servers num_clients conns \<longleftrightarrow> length servers < 50 \<and> num_clients < 150 \<and>
     list_all (\<lambda>(k, c, cmd). k < length servers \<and> c < num_clients) conns"

lemma SetUp_ok:
  assumes "installs_tcp solution" and "echo_valid servers nc conns"
  defines "n \<equiv> nc + length servers"
  shows "\<exists>t w s sw. EchoTesting_SetUp solution g g' servers nc conns NetworkSystem_new = Inr (t, w, s) \<and>
    echo_apps_ok servers nc (map (\<lambda>i. \<lparr>eh_host = echo_node i, eh_apps = []\<rparr>) [1..<Suc n]) conns t \<and>
    modules w 1 = Some (SwitchM sw) \<and> echo_switch_ok n sw \<and> (\<forall>i \<in> {1..n}. echo_host_ok n i w)"
proof -
  have lim: "length servers < 50" "nc < 150" "\<forall>(k, c, cmd) \<in> set conns. k < length servers \<and> c < nc"
    using assms(2) by (auto simp: echo_valid_def list_all_iff)
  then have "n < 500" by (simp add: n_def)
  let ?hosts = "map (\<lambda>i. \<lparr>eh_host = echo_node i, eh_apps = []\<rparr>) [1..<Suc n]"
  have len: "length ?hosts = nc + length servers" "length servers \<le> length ?hosts" by (simp_all add: n_def del: upt_Suc)
  obtain w s sw where net: "echo_network solution g g' n NetworkSystem_new = Inr (1, ?hosts, w, s)"
      "modules w 1 = Some (SwitchM sw)" "echo_switch_ok n sw" "\<forall>i \<in> {1..n}. echo_host_ok n i w"
    using echo_network_up [OF assms(1) \<open>n < 500\<close>] by blast
  let ?apps = "map (\<lambda>i. (?hosts ! i)\<lparr>eh_apps := if i < length servers then [EchoApp_new (server_args (servers ! i))] else []\<rparr>) [0..<length ?hosts]"
  have srv: "foldE (echo_server_app servers) [0..<length servers] ?hosts = Inr ?apps"
    by (rule server_apps_up) (use len in auto)
  let ?t = "\<lparr>ec_hosts = ?apps, ec_switch = 1, ec_servers = servers, ec_connections = []\<rparr>"
  have "map eh_host ?apps = map eh_host ?hosts" by (intro nth_equalityI) auto
  then have "echo_apps_ok servers nc ?hosts [] ?t" using len by (simp add: echo_apps_ok_def del: upt_Suc)
  from echo_connections_ok [OF this len(1) lim(3)] obtain t where
    t: "foldE (echo_connection nc) conns ?t = Inr t" "echo_apps_ok servers nc ?hosts conns t" by blast
  have "EchoTesting_SetUp solution g g' servers nc conns NetworkSystem_new = Inr (t, w, s)"
    unfolding EchoTesting_SetUp_def n_def [symmetric] net(1) bindE_Inr split_conv srv t(1) using lim by simp
  with t(2) net(2-4) show ?thesis by blast
qed

section \<open>The answers\<close>

text \<open>The fixture with the answers that the applications have submitted: \<open>A i k\<close> are those of application \<open>k\<close> of host \<open>i\<close>.\<close>

definition with_answers :: "(nat \<Rightarrow> nat \<Rightarrow> test_env) \<Rightarrow> echo_testing \<Rightarrow> echo_testing" where
  "with_answers A t = t\<lparr>ec_hosts := map (\<lambda>i. let h = ec_hosts t ! i in
     h\<lparr>eh_apps := map (\<lambda>k. (eh_apps h ! k)\<lparr>ea_answers := A i k\<rparr>) [0..<length (eh_apps h)]\<rparr>) [0..<length (ec_hosts t)]\<rparr>"

definition connection_outcomes :: "bool \<Rightarrow> (nat \<Rightarrow> nat \<Rightarrow> test_env) \<Rightarrow> string list \<Rightarrow> nat \<times> nat \<times> string \<times> nat \<Rightarrow> bool list" where
  "connection_outcomes skip A servers x =
     (case x of (k, c, cmd, a) \<Rightarrow>
       let c_ip = echo_name (length servers + c + 1); s_ip = echo_name (k + 1) in
       (if skip then [] else [A k 0 c_ip = cmd]) @
       [A (length servers + c) a s_ip = expected_client_ans (servers ! k) c_ip s_ip cmd])"

lemma echo_apps_okD:
  assumes "echo_apps_ok servers nc hosts conns t" and "(k, c, cmd, a) \<in> set (ec_connections t)"
  shows "k < length servers" "c < nc" "a < length (eh_apps (ec_hosts t ! (length servers + c)))"
    "ea_args (eh_apps (ec_hosts t ! (length servers + c)) ! a) = client_args k cmd" "(k, c, cmd) \<in> set conns"
    "eh_apps (ec_hosts t ! k) = [EchoApp_new (server_args (servers ! k))]"
  using assms by (force simp: echo_apps_ok_def)+

lemma checkTest_outcomes:
  assumes "echo_apps_ok servers nc hosts conns t" and "length hosts = nc + length servers"
  shows "checkTest skip (with_answers A t) = Inr (concat (map (connection_outcomes skip A servers) (ec_connections t)))"
proof -
  let ?t = "with_answers A t" and ?n = "length servers"
  note I = assms(1) [unfolded echo_apps_ok_def]
  have len: "length (ec_hosts t) = nc + ?n" using I assms(2) by (metis length_map)
  have step: "check_connection skip ?t x outs = Inr (outs @ connection_outcomes skip A servers x)"
    if "x \<in> set (ec_connections t)" for x outs
  proof -
    obtain k c cmd a where x: "x = (k, c, cmd, a)" by (cases x)
    have "ec_servers ?t = servers" using I by (simp add: with_answers_def)
    then show ?thesis
      using len echo_apps_okD [OF assms(1) that [unfolded x]]
      by (simp add: x check_connection_def with_answers_def indexE_def connection_outcomes_def Let_def)
  qed
  have "foldE (check_connection skip ?t) xs outs = Inr (outs @ concat (map (connection_outcomes skip A servers) xs))"
    if "set xs \<subseteq> set (ec_connections t)" for xs outs
    using that by (induction xs arbitrary: outs) (simp_all add: step)
  from this [of "ec_connections t" "[]"] show ?thesis by (simp add: checkTest_def with_answers_def)
qed

text \<open>A client gives each server one command only.\<close>

definition one_command :: "(nat \<times> nat \<times> string) list \<Rightarrow> bool" where
  "one_command conns \<longleftrightarrow> (\<forall>(k, c, cmd) \<in> set conns. \<forall>(k', c', cmd') \<in> set conns. k = k' \<and> c = c' \<longrightarrow> cmd = cmd')"

text \<open>The answers of applications that follow the exercise.\<close>

definition right_answers :: "string list \<Rightarrow> (nat \<times> nat \<times> string \<times> nat) list \<Rightarrow> nat \<Rightarrow> nat \<Rightarrow> test_env" where
  "right_answers servers xs i a ip =
     (if i < length servers then
        (case find (\<lambda>(k, c, cmd, b). k = i \<and> ip = echo_name (length servers + c + 1)) xs of
           None \<Rightarrow> [] | Some (k, c, cmd, b) \<Rightarrow> cmd)
      else
        (case find (\<lambda>(k, c, cmd, b). length servers + c = i \<and> a = b) xs of
           None \<Rightarrow> []
         | Some (k, c, cmd, b) \<Rightarrow> expected_client_ans (servers ! k) (echo_name (length servers + c + 1)) (echo_name (k + 1)) cmd))"

lemma right_answers_pass:
  assumes ok: "echo_apps_ok servers nc hosts conns t" and "skip \<or> one_command conns" and "x \<in> set (ec_connections t)"
  shows "list_all id (connection_outcomes skip (right_answers servers (ec_connections t)) servers x)"
proof -
  let ?xs = "ec_connections t" and ?n = "length servers"
  obtain k c cmd a where x: "x = (k, c, cmd, a)" by (cases x)
  note xD = echo_apps_okD [OF ok assms(3) [unfolded x]]
  have inj: "inj_on (\<lambda>(k, c, cmd, a). (c, a)) (set ?xs)" using ok by (simp add: echo_apps_ok_def distinct_map)
  have "find (\<lambda>(k, c', cmd, b). ?n + c' = ?n + c \<and> a = b) ?xs = Some x"
    using assms(3) x inj_onD [OF inj] by (intro find_unique) (auto simp: x)
  then have client: "right_answers servers ?xs (?n + c) a (echo_name (k + 1)) =
      expected_client_ans (servers ! k) (echo_name (?n + c + 1)) (echo_name (k + 1)) cmd"
    by (simp add: right_answers_def x)
  have server: "right_answers servers ?xs k 0 (echo_name (?n + c + 1)) = cmd" if one: "one_command conns"
  proof -
    let ?P = "\<lambda>(k', c', cmd, b). k' = k \<and> echo_name (?n + c + 1) = echo_name (?n + c' + 1)"
    have "find ?P ?xs \<noteq> None" unfolding find_None_iff using assms(3) x by auto
    then obtain y where y: "find ?P ?xs = Some y" by blast
    obtain k' c' cmd' b where y': "y = (k', c', cmd', b)" by (cases y)
    have "y \<in> set ?xs \<and> ?P y" using y unfolding find_Some_iff by (metis nth_mem)
    then have m: "(k', c', cmd', b) \<in> set ?xs" "k' = k" "c' = c" unfolding y' by (auto simp: echo_name_inj)
    then have "cmd' = cmd" using one xD(5) echo_apps_okD(5) [OF ok m(1)] unfolding one_command_def by fastforce
    then show ?thesis using xD(1) y y' by (simp add: right_answers_def)
  qed
  show ?thesis using client server assms(2) by (auto simp: connection_outcomes_def x Let_def)
qed

lemma echo_satisfiable:
  assumes "echo_apps_ok servers nc hosts conns t" and "length hosts = nc + length servers" and "skip \<or> one_command conns"
  shows "\<exists>A outs. checkTest skip (with_answers A t) = Inr outs \<and> list_all id outs"
proof -
  let ?A = "right_answers servers (ec_connections t)"
  have "list_all id (concat (map (connection_outcomes skip ?A servers) (ec_connections t)))"
    using right_answers_pass [OF assms(1,3)] unfolding list_all_iff set_concat set_map by blast
  with checkTest_outcomes [OF assms(1,2)] show ?thesis by blast
qed

lemma echo_unsatisfiable:
  assumes ok: "echo_apps_ok servers nc hosts conns t" and "length hosts = nc + length servers"
    and two: "(k, c, cmd) \<in> set conns" "(k, c, cmd') \<in> set conns" "cmd \<noteq> cmd'"
    and run: "checkTest False (with_answers A t) = Inr outs"
  shows "\<not> list_all id outs"
proof
  assume "list_all id outs"
  then have all: "list_all id (connection_outcomes False A servers x)" if "x \<in> set (ec_connections t)" for x
    using run that by (auto simp: checkTest_outcomes [OF ok assms(2)] list_all_iff)
  have "map (\<lambda>(k, c, cmd, a). (k, c, cmd)) (ec_connections t) = conns" using ok by (simp add: echo_apps_ok_def)
  then obtain a b where "(k, c, cmd, a) \<in> set (ec_connections t)" "(k, c, cmd', b) \<in> set (ec_connections t)"
    using two(1,2) by fastforce
  with all have "A k 0 (echo_name (length servers + c + 1)) = cmd" "A k 0 (echo_name (length servers + c + 1)) = cmd'"
    by (fastforce simp: connection_outcomes_def Let_def)+
  with two(3) show False by simp
qed

text \<open>The tests: their connections are admissible, and a test skips the answers of the servers exactly when some
  client sends a server two commands.\<close>

lemma echo_tests_valid: "T \<in> set echo_tests \<Longrightarrow> echo_valid (et_servers T) (et_clients T) (et_connections T)"
proof -
  have "list_all (\<lambda>T. echo_valid (et_servers T) (et_clients T) (et_connections T)) echo_tests"
    unfolding echo_tests_def list.pred_inject echo_valid_def
    by (intro conjI; simp add: echo_test_defs)
  then show "T \<in> set echo_tests \<Longrightarrow> echo_valid (et_servers T) (et_clients T) (et_connections T)" by (simp add: list_all_iff)
qed

lemma increasing_one_command:
  assumes "successively (<) (map (\<lambda>(k, c, cmd). 1000 * k + c) conns)"
  shows "one_command conns"
proof -
  have "sorted_wrt (<) (map (\<lambda>(k, c, cmd). 1000 * k + c) conns)"
    using assms by (subst (asm) successively_conv_sorted_wrt) (auto intro: transpI)
  then have "inj_on (\<lambda>(k, c, cmd). 1000 * k + c) (set conns)" by (simp add: strict_sorted_iff distinct_map)
  then show ?thesis unfolding one_command_def inj_on_def by fastforce
qed

lemma echo_tests_single: "T \<in> set echo_tests \<Longrightarrow> \<not> et_skip T \<Longrightarrow> one_command (et_connections T)"
proof (rule increasing_one_command)
  have "list_all (\<lambda>T. et_skip T \<or> successively (<) (map (\<lambda>(k, c, cmd). 1000 * k + c) (et_connections T))) echo_tests"
    unfolding echo_tests_def list.pred_inject
    by (intro conjI; simp add: echo_test_defs)
  then show "T \<in> set echo_tests \<Longrightarrow> \<not> et_skip T \<Longrightarrow> successively (<) (map (\<lambda>(k, c, cmd). 1000 * k + c) (et_connections T))"
    by (auto simp: list_all_iff)
qed

lemma echo_skip:
  "\<not> et_skip SingleEcho" "\<not> et_skip SingleWhoRU" "\<not> et_skip SingleWhoAmI" "\<not> et_skip SingleHello"
  "\<not> et_skip OnetoManyEcho" "\<not> et_skip OnetoManyWhoRU" "\<not> et_skip OnetoManyWhoAmI" "\<not> et_skip OnetoManyHello"
  "\<not> et_skip ManytoOneEcho" "\<not> et_skip ManytoOneWhoRU" "\<not> et_skip ManytoOneWhoAmI" "\<not> et_skip ManytoOneHello"
  by (simp_all add: SingleEcho_def SingleWhoRU_def SingleWhoAmI_def SingleHello_def OnetoManyEcho_def OnetoManyWhoRU_def
      OnetoManyWhoAmI_def OnetoManyHello_def ManytoOneEcho_def ManytoOneWhoRU_def ManytoOneWhoAmI_def ManytoOneHello_def)

lemma echo_tests_double:
  assumes "T \<in> set echo_tests" and "et_skip T"
  obtains k c cmd cmd' where "(k, c, cmd) \<in> set (et_connections T)" "(k, c, cmd') \<in> set (et_connections T)" "cmd \<noteq> cmd'"
proof -
  consider "T = OnetoManyAll" | "T = ManytoOneAll" | "T = ManytoMany"
  proof -
    have "list_all (\<lambda>T. \<not> et_skip T \<or> T = OnetoManyAll \<or> T = ManytoOneAll \<or> T = ManytoMany) echo_tests"
      unfolding echo_tests_def list.pred_inject
      by (simp add: echo_skip)
    with assms that show thesis by (auto simp: list_all_iff)
  qed
  then show thesis
  proof cases
    case 1
    show thesis by (rule that [of 0 0 "''echo-hello0''" "''whoru''"]) (simp_all add: 1 OnetoManyAll_def)
  next
    case 2
    show thesis by (rule that [of 0 0 "''echo-hello0''" "''whoru''"]) (simp_all add: 2 ManytoOneAll_def)
  next
    case 3
    show thesis by (rule that [of 7 32 "''whoru''" "''echo-hello46''"]) (simp_all add: 3 ManytoMany_def)
  qed
qed

section \<open>Properties\<close>

text \<open>C23. The fixture of the echo tests comes up for every admissible number of servers and clients: each host
  reaches each other host, and only it, at its address; each server application is started with the
  greeting of its server, and each client application with the address of its server, the port the
  server was given, and the command of its connection.\<close>

theorem echo_SetUp_connects:
  assumes "installs_tcp solution" and "echo_valid servers nc conns"
  shows "\<exists>t w s. EchoTesting_SetUp solution g g' servers nc conns NetworkSystem_new = Inr (t, w, s) \<and>
    (\<forall>i < nc + length servers. \<forall>j < nc + length servers. i \<noteq> j \<longrightarrow>
       receivers (eh_host (ec_hosts t ! i)) (echo_ip (j + 1)) w = [Some (eh_host (ec_hosts t ! j))]) \<and>
    (\<forall>k < length servers. EchoAssignment_Main client server (ea_args (eh_apps (ec_hosts t ! k) ! 0)) =
       server ''0.0.0.0'' 9000 (servers ! k)) \<and>
    map (\<lambda>(k, c, cmd, a). (k, c, cmd)) (ec_connections t) = conns \<and>
    (\<forall>(k, c, cmd, a) \<in> set (ec_connections t). \<exists>ip. inet_addr ip = addr_of_bytes (echo_ip (k + 1)) \<and>
       EchoAssignment_Main client server (ea_args (eh_apps (ec_hosts t ! (length servers + c)) ! a)) = client ip 9000 cmd)"
proof -
  let ?n = "nc + length servers"
  let ?hosts = "map (\<lambda>i. \<lparr>eh_host = echo_node i, eh_apps = []\<rparr>) [1..<Suc ?n]"
  obtain t w s sw where up: "EchoTesting_SetUp solution g g' servers nc conns NetworkSystem_new = Inr (t, w, s)"
      "echo_apps_ok servers nc ?hosts conns t" "modules w 1 = Some (SwitchM sw)" "echo_switch_ok ?n sw"
      "\<forall>i \<in> {1..?n}. echo_host_ok ?n i w"
    using SetUp_ok [OF assms] by blast
  have small: "?n < 256" using assms(2) by (simp add: echo_valid_def)
  have hosts: "map eh_host (ec_hosts t) = map eh_host ?hosts" using up(2) by (simp add: echo_apps_ok_def del: upt_Suc)
  have node: "eh_host (ec_hosts t ! i) = echo_node (i + 1)" if "i < ?n" for i
  proof -
    have "i < length (ec_hosts t)" using that arg_cong [OF hosts, of length] by (simp del: upt_Suc)
    then have "eh_host (ec_hosts t ! i) = map eh_host (ec_hosts t) ! i" by simp
    also have "\<dots> = echo_node (i + 1)" unfolding hosts using that by (simp add: nth_upt del: upt_Suc)
    finally show ?thesis .
  qed
  have "\<exists>ip. inet_addr ip = addr_of_bytes (echo_ip (k + 1)) \<and>
       EchoAssignment_Main client server (ea_args (eh_apps (ec_hosts t ! (length servers + c)) ! a)) = client ip 9000 cmd"
    if "(k, c, cmd, a) \<in> set (ec_connections t)" for k c cmd a
  proof -
    note D = echo_apps_okD [OF up(2) that]
    have "k + 1 < 256" using D(1) small by simp
    then have "inet_addr (echo_name (k + 1)) = addr_of_bytes (echo_ip (k + 1))"
      by (subst echo_name_dotted) (simp_all add: inet_addr_dotted echo_ip_def)
    then show ?thesis using D(4) by (auto simp: Main_args)
  qed
  moreover have "receivers (eh_host (ec_hosts t ! i)) (echo_ip (j + 1)) w = [Some (eh_host (ec_hosts t ! j))]"
    if "i < ?n" "j < ?n" "i \<noteq> j" for i j
    using echo_receivers [OF up(3-5), of "i + 1" "j + 1"] that small node by simp
  moreover have "map (\<lambda>(k, c, cmd, a). (k, c, cmd)) (ec_connections t) = conns"
    "\<forall>k < length servers. eh_apps (ec_hosts t ! k) = [EchoApp_new (server_args (servers ! k))]"
    using up(2) unfolding echo_apps_ok_def by blast+
  ultimately show ?thesis using up(1)
    by (intro exI [of _ t] exI [of _ w] exI [of _ s]) (auto simp: Main_args EchoApp_new_def)
qed

theorem echo_SetUp_connects_witness:
  "\<exists>t w s. EchoTesting_SetUp TCPAssignmentProvider_allocate (sconst 0) (sconst 0) [''server0'', ''server1''] 1 [(1, 0, ''hello'')] NetworkSystem_new = Inr (t, w, s) \<and>
     receivers (eh_host (ec_hosts t ! 2)) [10, 0, 0, 2] w = [Some (eh_host (ec_hosts t ! 1))]"
proof -
  have "echo_valid [''server0'', ''server1''] 1 [(1, 0, ''hello'')]" by (simp add: echo_valid_def)
  from echo_SetUp_connects [OF installs_TCPAssignment this, of "sconst 0" "sconst 0" clientMain serverMain]
  obtain t w s where t: "EchoTesting_SetUp TCPAssignmentProvider_allocate (sconst 0) (sconst 0) [''server0'', ''server1''] 1 [(1, 0, ''hello'')] NetworkSystem_new = Inr (t, w, s)"
    "\<And>i j. i < 3 \<Longrightarrow> j < 3 \<Longrightarrow> i \<noteq> j \<Longrightarrow> receivers (eh_host (ec_hosts t ! i)) (echo_ip (j + 1)) w = [Some (eh_host (ec_hosts t ! j))]"
    by auto
  with t(2) [of 2 1] show ?thesis by (simp add: echo_ip_def)
qed

text \<open>C24. The expectations of the echo tests: \<^verbatim>\<open>SetUp\<close> succeeds for each of the fifteen tests, and there are answers
  of the applications for which every expectation holds. Where a test skips the answers of the servers, no
  answers could satisfy it otherwise: a server keeps one answer per client, and some client sends two commands.\<close>

theorem echo_tests_satisfiable:
  assumes "installs_tcp solution" and "T \<in> set echo_tests"
  shows "\<exists>t w s. EchoTesting_SetUp solution g g' (et_servers T) (et_clients T) (et_connections T) NetworkSystem_new = Inr (t, w, s) \<and>
    (\<exists>A outs. checkTest (et_skip T) (with_answers A t) = Inr outs \<and> list_all id outs) \<and>
    (et_skip T \<longrightarrow> (\<forall>A outs. checkTest False (with_answers A t) = Inr outs \<longrightarrow> \<not> list_all id outs))"
proof -
  let ?hosts = "map (\<lambda>i. \<lparr>eh_host = echo_node i, eh_apps = []\<rparr>) [1..<Suc (et_clients T + length (et_servers T))]"
  obtain t w s where up: "EchoTesting_SetUp solution g g' (et_servers T) (et_clients T) (et_connections T) NetworkSystem_new = Inr (t, w, s)"
      "echo_apps_ok (et_servers T) (et_clients T) ?hosts (et_connections T) t"
    using SetUp_ok [OF assms(1) echo_tests_valid [OF assms(2)]] by blast
  have len: "length ?hosts = et_clients T + length (et_servers T)" by (simp del: upt_Suc)
  have no: "\<not> list_all id outs" if "et_skip T" "checkTest False (with_answers A t) = Inr outs" for A outs
    using echo_tests_double [OF assms(2) that(1)] echo_unsatisfiable [OF up(2) len _ _ _ that(2)] by metis
  have "et_skip T \<or> one_command (et_connections T)" using echo_tests_single [OF assms(2)] by blast
  note sat = echo_satisfiable [OF up(2) len this]
  show ?thesis
    by (rule exI [of _ t], rule exI [of _ w], rule exI [of _ s]) (intro conjI impI allI up(1) sat no)
qed

theorem echo_tests_satisfiable_witness:
  "\<exists>t w s A outs. EchoTesting_SetUp TCPAssignmentProvider_allocate (sconst 0) (sconst 0) (et_servers ManytoMany) (et_clients ManytoMany)
       (et_connections ManytoMany) NetworkSystem_new = Inr (t, w, s) \<and>
     checkTest True (with_answers A t) = Inr outs \<and> list_all id outs"
proof -
  have "ManytoMany \<in> set echo_tests" by (simp add: echo_tests_def)
  moreover have "et_skip ManytoMany" by (simp add: ManytoMany_def)
  ultimately show ?thesis
    using echo_tests_satisfiable [OF installs_TCPAssignment, of ManytoMany "sconst 0" "sconst 0"] by auto
qed

end
