(* ===== verification/App_Tokens.thy ===== *)
theory App_Tokens
  imports Test_Runs
begin

text \<open>
  When a run ends. A locale states what the scheduler needs from its clients for that: a measure that every wake-up
  and every message decreases; in it, \<^verbatim>\<open>System::run\<close> returns within as many passes as the measure says. For a
  network whose applications sleep a number of times and then exit, the measure comes from tokens: each
  application has one, which says where it is in its life and which message is queued for it, and every
  message, ready application, process and pending call belongs to a token. This theory has the tokens and the
  lemma that a step for one application leaves the tokens of the others as they are.
\<close>

section \<open>Runs that end\<close>

locale ending_client =
  fixes cb :: "('m, 'w) callbacks" and I :: "nat \<Rightarrow> 'w \<Rightarrow> 'm system \<Rightarrow> bool"
  assumes ready_finite: "I n w s \<Longrightarrow> finite (runnableReady s)"
    and wake_progress: "I n w s \<Longrightarrow> r \<in> runnableReady s \<Longrightarrow>
      \<exists>m w' s'. m < n \<and> wake_one cb r (w, s) = Inr (w', s') \<and> I m w' s' \<and> runnableReady s' = runnableReady s - {r}"
    and top_progress: "I n w s \<Longrightarrow> runnableReady s = {} \<Longrightarrow> timerQueue s \<noteq> [] \<Longrightarrow>
      \<exists>m w' s'. m < n \<and> handle_top cb (w, s) = Inr (w', s') \<and> I m w' s'"
begin

lemma pass_ends:
  assumes "I n w s" and "distinct rs" and "set rs = runnableReady s"
  shows "\<exists>m w' s'. m + length rs \<le> n \<and> foldE (wake_one cb) rs (w, s) = Inr (w', s') \<and> I m w' s' \<and> runnableReady s' = {}"
  using assms
proof (induction rs arbitrary: n w s)
  case (Cons r rs)
  obtain m w1 s1 where one: "m < n" "wake_one cb r (w, s) = Inr (w1, s1)" "I m w1 s1" "runnableReady s1 = runnableReady s - {r}"
    using wake_progress [OF Cons.prems(1), of r] Cons.prems(3) by auto
  have "set rs = runnableReady s1" using Cons.prems(2,3) one(4) by auto
  from Cons.IH [OF one(3) _ this] Cons.prems(2) obtain m' w' s' where
    "m' + length rs \<le> m" "foldE (wake_one cb) rs (w1, s1) = Inr (w', s')" "I m' w' s'" "runnableReady s' = {}"
    by auto
  with one show ?case by (intro exI [of _ m'] exI [of _ w'] exI [of _ s']) simp
qed auto

lemma wake_all_ends:
  assumes "I n w s" and "enumerates ord" and "n \<le> f"
  shows "\<exists>m w' s'. m \<le> n \<and> wake_all ord cb f (w, s) = Some (Inr (w', s')) \<and> I m w' s' \<and> runnableReady s' = {}"
proof (cases "runnableReady s = {}")
  case True
  with assms(1) show ?thesis by (intro exI [of _ n] exI [of _ w] exI [of _ s]) (simp add: wake_all.simps)
next
  case False
  let ?rs = "ord (runnableReady s)"
  have rs: "distinct ?rs" "set ?rs = runnableReady s"
    using assms(2) ready_finite [OF assms(1)] by (simp_all add: enumerates_def)
  from pass_ends [OF assms(1) this] obtain m w' s' where
    p: "m + length ?rs \<le> n" "foldE (wake_one cb) ?rs (w, s) = Inr (w', s')" "I m w' s'" "runnableReady s' = {}" by blast
  moreover have "length ?rs > 0" using rs(2) False by auto
  ultimately obtain f' where "f = Suc f'" using assms(3) by (cases f) auto
  with p False show ?thesis
    by (intro exI [of _ m] exI [of _ w'] exI [of _ s']) (simp add: wake_all.simps)
qed

lemma run_ends:
  assumes "I n w s" and "enumerates ord" and "n < f"
  shows "\<exists>m w' s'. m \<le> n \<and> run ord cb f till (w, s) = Some (Inr (w', s')) \<and> I m w' s' \<and> runnableReady s' = {} \<and>
    (timerQueue s' = [] \<or> till \<noteq> 0 \<and> top_wakeup s' > till)"
  using assms(1,3)
proof (induction f arbitrary: n w s)
  case (Suc f)
  from Suc.prems(2) have "n \<le> f" by simp
  from wake_all_ends [OF Suc.prems(1) assms(2) this] obtain m w1 s1 where
    woken: "m \<le> n" "wake_all ord cb f (w, s) = Some (Inr (w1, s1))" "I m w1 s1" "runnableReady s1 = {}" by blast
  show ?case
  proof (cases "timerQueue s1 = [] \<or> till \<noteq> 0 \<and> top_wakeup s1 > till")
    case True
    with woken show ?thesis by (intro exI [of _ m] exI [of _ w1] exI [of _ s1]) auto
  next
    case False
    from top_progress [OF woken(3,4)] False obtain k w2 s2 where
      top: "k < m" "handle_top cb (w1, s1) = Inr (w2, s2)" "I k w2 s2" by blast
    have "k < f" using top(1) woken(1) Suc.prems(2) by simp
    from Suc.IH [OF top(3) this] obtain m' w' s' where "m' \<le> k" "run ord cb f till (w2, s2) = Some (Inr (w', s'))" "I m' w' s'"
        "runnableReady s' = {}" "timerQueue s' = [] \<or> till \<noteq> 0 \<and> top_wakeup s' > till" by blast
    with woken top False show ?thesis by (intro exI [of _ m'] exI [of _ w'] exI [of _ s']) auto
  qed
qed simp

end

section \<open>Applications that sleep, block and exit\<close>

text \<open>What is fixed while applications live: whether they may block in a call of the TCP interface, the number of failed
  calls after which each of them gives up, the time by which everything is over, and what no application
  changes (which modules are hosts, their modules, ports and tables).\<close>

type_synonym hosts_view = "ModuleID \<Rightarrow> ((string \<rightharpoonup> host_module) \<times> ModuleID list \<times> routing_info) option"

record plan =
  blocking :: bool
  patience :: nat
  deadline :: nat
  view :: hosts_view

definition host_view :: "world \<Rightarrow> hosts_view" where
  "host_view w i = (case modules w i of Some (HostM h) \<Rightarrow> Some (hostModuleMap h, h_ports h, routing h) | _ \<Rightarrow> None)"

text \<open>A program whose calls all fail makes at most \<open>g\<close> of them and returns.\<close>

inductive gives_up :: "prog \<Rightarrow> nat \<Rightarrow> bool" where
  exits: "gives_up (Exit v) g"
| fails: "(\<And>now m. gives_up (k (- 1) now m) g) \<Longrightarrow> gives_up (Invoke param k) (Suc g)"

text \<open>A call of \<^verbatim>\<open>socket\<close> for TCP.\<close>

definition opens_socket :: "syscall_param \<Rightarrow> bool" where
  "opens_socket param \<longleftrightarrow> syscallNumber param = SOCKET \<and> (\<exists>ty. params param = [I32 AF_INET, ty, I32 IPPROTO_TCP])"

text \<open>A program that makes at most \<open>n\<close> calls of \<^verbatim>\<open>nsleep\<close>, of at most \<open>d\<close> nanoseconds in all, and then returns, or opens a
  socket and gives up when that fails.\<close>

inductive ends :: "plan \<Rightarrow> prog \<Rightarrow> nat \<Rightarrow> nat \<Rightarrow> bool" for P where
  exits: "ends P (Exit v) n d"
| sleeps: "syscallNumber param = NSLEEP \<Longrightarrow> params param = [U64 t, x, y] \<Longrightarrow> unat t \<le> d \<Longrightarrow>
    (\<And>v now m. ends P (k v now m) n (d - unat t)) \<Longrightarrow> ends P (Invoke param k) (Suc n) d"
| blocks: "blocking P \<Longrightarrow> opens_socket param \<Longrightarrow> (\<And>now m. gives_up (k (- 1) now m) (patience P)) \<Longrightarrow> ends P (Invoke param k) (Suc n) d"

inductive_cases ends_InvokeE: "ends P (Invoke param k) n d"

text \<open>Where such an application is in its life, with the message that is queued for it and its pending call.\<close>

datatype stage = Waking | Calling UUID | Sleeping UUID UUID | Blocked UUID | Leaving UUID

type_synonym token = "stage \<times> nat \<times> nat"

fun stage_msgs :: "stage \<Rightarrow> UUID set" where
  "stage_msgs Waking = {}"
| "stage_msgs (Calling u) = {u}"
| "stage_msgs (Sleeping u c) = {u}"
| "stage_msgs (Blocked c) = {}"
| "stage_msgs (Leaving u) = {u}"

fun stage_call :: "stage \<Rightarrow> UUID option" where
  "stage_call (Sleeping u c) = Some c"
| "stage_call (Blocked c) = Some c"
| "stage_call _ = None"

fun weight :: "token \<Rightarrow> nat" where
  "weight (Waking, n, d) = 3 * n + 2"
| "weight (Calling u, n, d) = 3 * n + 1"
| "weight (Sleeping u c, n, d) = 3 * n + 3"
| "weight (Blocked c, n, d) = 3"
| "weight (Leaving u, n, d) = 1"

definition queued :: "net \<Rightarrow> UUID \<Rightarrow> ModuleID \<Rightarrow> msg \<Rightarrow> nat \<Rightarrow> bool" where
  "queued s u i m D \<longleftrightarrow> (\<exists>c. containers s u = Some c \<and> \<not> canceled c \<and> t_from c = i \<and> t_to c = i \<and> t_message c = m \<and> unat (wakeup c) \<le> D)"

definition host_serves :: "plan \<Rightarrow> host \<Rightarrow> bool" where
  "host_serves P h \<longleftrightarrow> interfaceMap h (0, 0) = Some DefaultIface \<and> timerModuleMap h ''DefaultSyscall'' = Some DefaultTimer \<and>
     (blocking P \<longrightarrow> interfaceMap h (AF_INET, IPPROTO_TCP) = Some TCPIface) \<and> 0 \<le> pidStart h \<and> pidStart h < MAX_PID"

text \<open>What an application that waits in a call does when the call returns; a stopped host answers every call with -1.\<close>

definition in_call :: "plan \<Rightarrow> app \<Rightarrow> nat \<Rightarrow> nat \<Rightarrow> bool" where
  "in_call P a n d \<longleftrightarrow> app_state a = WAITING \<and> (\<exists>k. resume_at a = InSyscall k \<and> (\<forall>v now m. ends P (k v now m) n d))"

definition in_socket :: "plan \<Rightarrow> app \<Rightarrow> bool" where
  "in_socket P a \<longleftrightarrow> app_state a = WAITING \<and> (\<exists>k. resume_at a = InSyscall k \<and> (\<forall>now m. gives_up (k (- 1) now m) (patience P)))"

text \<open>The call that an application has made.\<close>

definition calls_next :: "plan \<Rightarrow> syscall_param \<Rightarrow> app \<Rightarrow> nat \<Rightarrow> nat \<Rightarrow> bool" where
  "calls_next P param a n d \<longleftrightarrow>
     (\<exists>m. n = Suc m \<and> ((\<exists>t x y. syscallNumber param = NSLEEP \<and> params param = [U64 t, x, y] \<and> unat t \<le> d \<and> in_call P a m (d - unat t)) \<or>
        blocking P \<and> opens_socket param \<and> in_socket P a))"

fun resumes :: "resume \<Rightarrow> int \<Rightarrow> (prog \<Rightarrow> bool) \<Rightarrow> bool" where
  "resumes (AtMain p) v Q = Q p"
| "resumes (InSyscall k) v Q = (\<forall>now m. Q (k v now m))"

definition ready_to :: "(prog \<Rightarrow> bool) \<Rightarrow> app \<Rightarrow> bool" where
  "ready_to Q a \<longleftrightarrow> app_state a = READY \<and> resumes (resume_at a) (syscallRet a) Q"

fun stage_ok :: "plan \<Rightarrow> net \<Rightarrow> runnable \<Rightarrow> app \<Rightarrow> host \<Rightarrow> token \<Rightarrow> bool" where
  "stage_ok P s r a h (Waking, n, d) \<longleftrightarrow> r \<in> runnableReady s \<and>
     ready_to (\<lambda>p. if running h then ends P p n d else gives_up p (patience P)) a \<and> unat (currentTime s) + d \<le> deadline P"
| "stage_ok P s r a h (Calling u, n, d) \<longleftrightarrow>
     running h \<and> d \<le> deadline P \<and>
     (\<exists>param. queued s u (app_host a) (SyscallMsg (app_pid a) param) (deadline P - d) \<and> calls_next P param a n d)"
| "stage_ok P s r a h (Sleeping u c, n, d) \<longleftrightarrow>
     in_call P a n d \<and> syscallMap h c = Some (app_pid a) \<and> d \<le> deadline P \<and>
     queued s u (app_host a) (TimerMsg ''DefaultSyscall'' (AnyUUID c)) (deadline P - d) \<and> running h"
| "stage_ok P s r a h (Blocked c, n, d) \<longleftrightarrow> in_socket P a \<and> syscallMap h c = Some (app_pid a) \<and> blocking P"
| "stage_ok P s r a h (Leaving u, n, d) \<longleftrightarrow>
     app_state a = TERMINATED \<and> (\<exists>v. queued s u (app_host a) (ReturnMsg (app_pid a) v) (deadline P))"

definition runs_on :: "plan \<Rightarrow> world \<Rightarrow> net \<Rightarrow> runnable \<Rightarrow> app \<Rightarrow> host \<Rightarrow> bool" where
  "runs_on P w s r a h \<longleftrightarrow> apps (w_env w) r = Some a \<and> modules w (app_host a) = Some (HostM h) \<and>
     app_host a \<in> registeredModule s \<and> host_serves P h \<and> app_pid a \<noteq> - 1 \<and>
     map_option application (processInfoMap h (app_pid a)) = Some r"

definition at_stage :: "plan \<Rightarrow> world \<Rightarrow> net \<Rightarrow> runnable \<Rightarrow> token \<Rightarrow> bool" where
  "at_stage P w s r x \<longleftrightarrow> (\<exists>a h. runs_on P w s r a h \<and> stage_ok P s r a h x)"

type_synonym tokens = "runnable \<rightharpoonup> token"

definition work :: "tokens \<Rightarrow> nat" where
  "work T = (\<Sum>r \<in> dom T. weight (the (T r)))"

definition uuids_ok :: "nat \<Rightarrow> net \<Rightarrow> bool" where
  "uuids_ok n s \<longleftrightarrow> (\<forall>u \<in> dom (containers s). unat u \<le> unat (currentUUID s)) \<and> unat (currentUUID s) + n < 2 ^ 64"

definition finished :: "world \<Rightarrow> runnable \<Rightarrow> bool" where
  "finished w r \<longleftrightarrow> (\<exists>a. apps (w_env w) r = Some a \<and> app_state a = TERMINATED)"

text \<open>Every message, ready application, process and pending call belongs to a token.\<close>

definition accounted :: "tokens \<Rightarrow> world \<Rightarrow> net \<Rightarrow> bool" where
  "accounted T w s \<longleftrightarrow>
     (\<forall>r \<in> runnableReady s. \<exists>y. T r = Some (Waking, y)) \<and>
     (\<forall>u \<in> dom (containers s). \<exists>r x. T r = Some x \<and> u \<in> stage_msgs (fst x)) \<and>
     (\<forall>i h pid info. modules w i = Some (HostM h) \<and> processInfoMap h pid = Some info \<longrightarrow>
        T (application info) \<noteq> None \<and> (\<exists>a. apps (w_env w) (application info) = Some a \<and> app_host a = i \<and> app_pid a = pid)) \<and>
     (\<forall>i h c pid. modules w i = Some (HostM h) \<and> syscallMap h c = Some pid \<longrightarrow>
        (\<exists>r a x. T r = Some x \<and> stage_call (fst x) = Some c \<and> apps (w_env w) r = Some a \<and> app_host a = i \<and> app_pid a = pid))"

definition living :: "plan \<Rightarrow> runnable set \<Rightarrow> tokens \<Rightarrow> world \<Rightarrow> net \<Rightarrow> bool" where
  "living P R T w s \<longleftrightarrow> sys_inv {} s \<and> finite (dom T) \<and> uuids_ok (work T) s \<and> deadline P < 2 ^ 64 \<and> unat (currentTime s) \<le> deadline P \<and>
     (\<forall>r x. T r = Some x \<longrightarrow> at_stage P w s r x) \<and> accounted T w s \<and> (\<forall>r \<in> R. T r = None \<longrightarrow> finished w r) \<and>
     host_view w = view P"

subsection \<open>Tokens\<close>

lemma work_upd:
  assumes "finite (dom T)"
  shows "work (T(r := x)) + (case T r of None \<Rightarrow> 0 | Some y \<Rightarrow> weight y) = work T + (case x of None \<Rightarrow> 0 | Some y \<Rightarrow> weight y)"
proof -
  have out: "(\<Sum>q \<in> dom T - {r}. weight (the ((T(r := x)) q))) = (\<Sum>q \<in> dom T - {r}. weight (the (T q)))" by (intro sum.cong) auto
  have old: "work T = (\<Sum>q \<in> dom T - {r}. weight (the (T q))) + (case T r of None \<Rightarrow> 0 | Some y \<Rightarrow> weight y)"
  proof (cases "T r")
    case None
    then show ?thesis by (simp add: work_def domIff)
  next
    case (Some y)
    then have "r \<in> dom T" by auto
    with Some show ?thesis by (simp add: work_def sum.remove [OF assms])
  qed
  have new: "work (T(r := x)) = (\<Sum>q \<in> dom T - {r}. weight (the (T q))) + (case x of None \<Rightarrow> 0 | Some y \<Rightarrow> weight y)"
  proof (cases x)
    case None
    then show ?thesis using out by (simp add: work_def)
  next
    case (Some y)
    have "dom (T(r := x)) = insert r (dom T - {r})" using Some by auto
    then have "work (T(r := x)) = weight (the ((T(r := x)) r)) + (\<Sum>q \<in> dom T - {r}. weight (the ((T(r := x)) q)))"
      unfolding work_def using assms by (subst \<open>dom (T(r := x)) = insert r (dom T - {r})\<close>, subst sum.insert) auto
    then show ?thesis using Some out by simp
  qed
  show ?thesis using old new by simp
qed

lemma runs_onD:
  assumes "runs_on P w s r a h"
  shows "apps (w_env w) r = Some a" "modules w (app_host a) = Some (HostM h)" "app_host a \<in> registeredModule s" "host_serves P h"
    "app_pid a \<noteq> - 1" "map_option application (processInfoMap h (app_pid a)) = Some r"
  using assms unfolding runs_on_def by blast+

lemma runs_on_unique:
  assumes "runs_on P w s r a h" and "runs_on P w s r' a' h'" and "app_host a = app_host a'" and "app_pid a = app_pid a'"
  shows "r = r'"
proof -
  have "h = h'" using runs_onD(2) [OF assms(1)] runs_onD(2) [OF assms(2)] unfolding assms(3) by simp
  then show ?thesis using runs_onD(6) [OF assms(1)] runs_onD(6) [OF assms(2)] unfolding assms(4) by simp
qed

text \<open>What a step for one application leaves alone.\<close>

definition host_keeps :: "plan \<Rightarrow> int \<Rightarrow> host \<Rightarrow> host \<Rightarrow> bool" where
  "host_keeps P pid h h' \<longleftrightarrow> host_serves P h' \<and> (\<forall>q. q \<noteq> pid \<longrightarrow> processInfoMap h' q = processInfoMap h q) \<and>
     (\<forall>c q. q \<noteq> pid \<longrightarrow> (syscallMap h' c = Some q \<longleftrightarrow> syscallMap h c = Some q)) \<and>
     running h' = running h \<and> hostModuleMap h' = hostModuleMap h \<and> h_ports h' = h_ports h \<and> routing h' = routing h"

definition affects :: "plan \<Rightarrow> runnable \<Rightarrow> ModuleID \<Rightarrow> int \<Rightarrow> host \<Rightarrow> host \<Rightarrow> UUID set \<Rightarrow> world \<Rightarrow> net \<Rightarrow> world \<Rightarrow> net \<Rightarrow> bool" where
  "affects P r i pid h h' U w s w' s' \<longleftrightarrow>
     (\<forall>q. q \<noteq> r \<longrightarrow> apps (w_env w') q = apps (w_env w) q) \<and> (\<forall>j. j \<noteq> i \<longrightarrow> modules w' j = modules w j) \<and>
     modules w i = Some (HostM h) \<and> modules w' i = Some (HostM h') \<and> host_keeps P pid h h' \<and>
     registeredModule s' = registeredModule s \<and> (\<forall>u. u \<notin> U \<longrightarrow> containers s' u = containers s u) \<and>
     runnableReady s' - {r} = runnableReady s - {r}"

lemma affectsD:
  assumes "affects P r i pid h h' U w s w' s'"
  shows "\<And>q. q \<noteq> r \<Longrightarrow> apps (w_env w') q = apps (w_env w) q" "\<And>j. j \<noteq> i \<Longrightarrow> modules w' j = modules w j"
    "modules w i = Some (HostM h)" "modules w' i = Some (HostM h')" "host_keeps P pid h h'"
    "registeredModule s' = registeredModule s" "\<And>u. u \<notin> U \<Longrightarrow> containers s' u = containers s u"
    "runnableReady s' - {r} = runnableReady s - {r}"
  using assms unfolding affects_def by blast+

lemma host_keepsD:
  assumes "host_keeps P pid h h'"
  shows "host_serves P h'" "\<And>q. q \<noteq> pid \<Longrightarrow> processInfoMap h' q = processInfoMap h q"
    "\<And>c q. q \<noteq> pid \<Longrightarrow> syscallMap h' c = Some q \<longleftrightarrow> syscallMap h c = Some q" "running h' = running h"
  using assms unfolding host_keeps_def by blast+

lemma affects_view:
  assumes "affects P r i pid h h' U w s w' s'"
  shows "host_view w' = host_view w"
proof
  fix j
  show "host_view w' j = host_view w j"
    using affectsD(2-5) [OF assms] by (cases "j = i") (simp_all add: host_view_def host_keeps_def)
qed

lemma queued_frame: "containers s' u = containers s u \<Longrightarrow> queued s' u i m D \<longleftrightarrow> queued s u i m D"
  by (simp add: queued_def)

lemma stage_ok_frame:
  assumes "stage_ok P s q a h x" and "\<And>u. u \<in> stage_msgs (fst x) \<Longrightarrow> containers s' u = containers s u"
    and "q \<in> runnableReady s \<Longrightarrow> q \<in> runnableReady s' \<and> currentTime s' = currentTime s"
    and "\<And>c. syscallMap h c = Some (app_pid a) \<Longrightarrow> syscallMap h' c = Some (app_pid a)" and "running h' = running h"
  shows "stage_ok P s' q a h' x"
proof -
  obtain st n d where x: "x = (st, n, d)" by (cases x) auto
  show ?thesis
  proof (cases st)
    case Waking
    with assms(1,3,5) x show ?thesis by auto
  next
    case (Calling u)
    with assms(1,5) queued_frame [OF assms(2), of u] show ?thesis by (simp add: x)
  next
    case (Sleeping u c)
    with assms(1,4,5) queued_frame [OF assms(2), of u] show ?thesis by (simp add: x)
  next
    case (Blocked c)
    with assms(1,4) show ?thesis by (simp add: x)
  next
    case (Leaving u)
    with assms(1) queued_frame [OF assms(2), of u] show ?thesis by (simp add: x)
  qed
qed

lemma at_stage_frame:
  assumes "at_stage P w s q x" and "q \<noteq> r" and "\<And>b g. runs_on P w s q b g \<Longrightarrow> app_host b = i \<Longrightarrow> app_pid b \<noteq> pid"
    and "affects P r i pid h h' U w s w' s'" and "stage_msgs (fst x) \<inter> U = {}" and "q \<in> runnableReady s \<Longrightarrow> currentTime s' = currentTime s"
  shows "at_stage P w' s' q x"
proof -
  note A = affectsD [OF assms(4)] and K = host_keepsD [OF affectsD(5) [OF assms(4)]]
  obtain b g where b: "runs_on P w s q b g" "stage_ok P s q b g x" using assms(1) unfolding at_stage_def by blast
  note B = runs_onD [OF b(1)]
  have ready: "q \<in> runnableReady s'" if "q \<in> runnableReady s" using that A(8) assms(2) by blast
  have app: "apps (w_env w') q = Some b" using A(1) [OF assms(2)] B(1) by simp
  show ?thesis
  proof (cases "app_host b = i")
    case True
    then have g: "g = h" using B(2) A(3) by simp
    note ne = assms(3) [OF b(1) True]
    have "runs_on P w' s' q b h'"
      unfolding runs_on_def using app True A(4,6) K(1) K(2) [OF ne] B(3,5,6) g by simp
    moreover have "stage_ok P s' q b h' x"
      by (rule stage_ok_frame [OF b(2)]) (use A(7) assms(5,6) ready K(3) [OF ne] K(4) g in auto)
    ultimately show ?thesis unfolding at_stage_def by blast
  next
    case False
    have "runs_on P w' s' q b g"
      unfolding runs_on_def using app A(2) [OF False] A(6) B by simp
    moreover have "stage_ok P s' q b g x"
      by (rule stage_ok_frame [OF b(2)]) (use A(7) assms(5,6) ready in auto)
    ultimately show ?thesis unfolding at_stage_def by blast
  qed
qed

lemma stage_okD_msgs:
  assumes "stage_ok P s r a h x" and "u \<in> stage_msgs (fst x)"
  shows "\<exists>c. containers s u = Some c \<and> t_to c = app_host a \<and> unat (wakeup c) \<le> deadline P \<and>
    (case t_message c of SyscallMsg pid p \<Rightarrow> pid = app_pid a \<and> fst x = Calling u
     | TimerMsg n v \<Rightarrow> (\<exists>y. v = AnyUUID y \<and> syscallMap h y = Some (app_pid a) \<and> fst x = Sleeping u y)
     | ReturnMsg pid v \<Rightarrow> pid = app_pid a \<and> fst x = Leaving u | _ \<Rightarrow> False)"
proof -
  obtain st n d where "x = (st, n, d)" by (cases x) auto
  with assms show ?thesis by (cases st) (auto simp: queued_def)
qed

text \<open>No two applications wait for the same message.\<close>

lemma tokens_disjoint:
  assumes "at_stage P w s r x" and "at_stage P w s q y" and "u \<in> stage_msgs (fst x)" and "u \<in> stage_msgs (fst y)"
  shows "q = r"
proof -
  obtain a h where a: "runs_on P w s r a h" "stage_ok P s r a h x" using assms(1) unfolding at_stage_def by blast
  obtain b g where b: "runs_on P w s q b g" "stage_ok P s q b g y" using assms(2) unfolding at_stage_def by blast
  obtain c where c: "containers s u = Some c" "t_to c = app_host a"
    "case t_message c of SyscallMsg pid p \<Rightarrow> pid = app_pid a \<and> fst x = Calling u
     | TimerMsg n v \<Rightarrow> (\<exists>y. v = AnyUUID y \<and> syscallMap h y = Some (app_pid a) \<and> fst x = Sleeping u y)
     | ReturnMsg pid v \<Rightarrow> pid = app_pid a \<and> fst x = Leaving u | _ \<Rightarrow> False"
    using stage_okD_msgs [OF a(2) assms(3)] by blast
  obtain c' where c': "containers s u = Some c'" "t_to c' = app_host b"
    "case t_message c' of SyscallMsg pid p \<Rightarrow> pid = app_pid b \<and> fst y = Calling u
     | TimerMsg n v \<Rightarrow> (\<exists>z. v = AnyUUID z \<and> syscallMap g z = Some (app_pid b) \<and> fst y = Sleeping u z)
     | ReturnMsg pid v \<Rightarrow> pid = app_pid b \<and> fst y = Leaving u | _ \<Rightarrow> False"
    using stage_okD_msgs [OF b(2) assms(4)] by blast
  have same: "c' = c" using c(1) c'(1) by simp
  have "app_host b = app_host a" using c(2) c'(2) same by simp
  moreover from this have "g = h" using runs_onD(2) [OF a(1)] runs_onD(2) [OF b(1)] by simp
  then have "app_pid b = app_pid a" using c(3) c'(3) unfolding same by (auto split: msg.splits)
  ultimately show ?thesis using runs_on_unique [OF b(1) a(1)] by blast
qed

lemma livingD:
  assumes "living P R T w s"
  shows "sys_inv {} s" "finite (dom T)" "uuids_ok (work T) s" "deadline P < 2 ^ 64" "unat (currentTime s) \<le> deadline P"
    "\<And>r x. T r = Some x \<Longrightarrow> at_stage P w s r x" "accounted T w s" "\<And>r. r \<in> R \<Longrightarrow> T r = None \<Longrightarrow> finished w r"
    "host_view w = view P"
  using assms unfolding living_def by blast+

lemma accountedD:
  assumes "accounted T w s"
  shows "\<And>r. r \<in> runnableReady s \<Longrightarrow> \<exists>y. T r = Some (Waking, y)"
    "\<And>u. u \<in> dom (containers s) \<Longrightarrow> \<exists>r x. T r = Some x \<and> u \<in> stage_msgs (fst x)"
    "\<And>i h pid info. modules w i = Some (HostM h) \<Longrightarrow> processInfoMap h pid = Some info \<Longrightarrow>
       T (application info) \<noteq> None \<and> (\<exists>a. apps (w_env w) (application info) = Some a \<and> app_host a = i \<and> app_pid a = pid)"
    "\<And>i h c pid. modules w i = Some (HostM h) \<Longrightarrow> syscallMap h c = Some pid \<Longrightarrow>
       \<exists>r a x. T r = Some x \<and> stage_call (fst x) = Some c \<and> apps (w_env w) r = Some a \<and> app_host a = i \<and> app_pid a = pid"
  using assms unfolding accounted_def by blast+

definition token_msgs :: "token option \<Rightarrow> UUID set" where
  "token_msgs x = (case x of None \<Rightarrow> {} | Some y \<Rightarrow> stage_msgs (fst y))"

lemma affects_back:
  assumes "affects P r i pid h h' U w s w' s'" and "modules w' j = Some (HostM g')" and "\<not> (j = i \<and> q = pid)"
  obtains g where "modules w j = Some (HostM g)" "processInfoMap g q = processInfoMap g' q"
    "\<And>c. syscallMap g c = Some q \<longleftrightarrow> syscallMap g' c = Some q"
proof (cases "j = i")
  case True
  then have "g' = h'" "q \<noteq> pid" using affectsD(4) [OF assms(1)] assms(2,3) by simp_all
  with True affectsD(3) [OF assms(1)] host_keepsD(2,3) [OF affectsD(5) [OF assms(1)]] show thesis by (intro that [of h]) simp_all
next
  case False
  then show thesis using affectsD(2) [OF assms(1) False] assms(2) by (intro that [of g']) simp_all
qed

lemma accounted_step:
  assumes "accounted T w s" and "T r \<noteq> None \<Longrightarrow> \<exists>a. apps (w_env w) r = Some a \<and> app_host a = i \<and> app_pid a = pid"
    and "affects P r i pid h h' U w s w' s'"
    and "\<exists>a'. apps (w_env w') r = Some a' \<and> app_host a' = i \<and> app_pid a' = pid"
    and "dom (containers s') \<subseteq> dom (containers s) - token_msgs (T r) \<union> token_msgs new"
    and "r \<in> runnableReady s' \<Longrightarrow> \<exists>y. new = Some (Waking, y)"
    and "\<And>c. syscallMap h' c = Some pid \<Longrightarrow> \<exists>y. new = Some y \<and> stage_call (fst y) = Some c"
    and "map_option application (processInfoMap h' pid) = (if new = None then None else Some r)"
  shows "accounted (T(r := new)) w' s'"
proof -
  note old = accountedD [OF assms(1)] and A = affectsD [OF assms(3)]
  have "\<exists>y. (T(r := new)) q = Some (Waking, y)" if "q \<in> runnableReady s'" for q
    using that A(8) old(1) assms(6) by (cases "q = r") auto
  moreover have "\<exists>q y. (T(r := new)) q = Some y \<and> u \<in> stage_msgs (fst y)" if "u \<in> dom (containers s')" for u
  proof (cases "u \<in> token_msgs new")
    case True
    then show ?thesis by (intro exI [of _ r]) (auto simp: token_msgs_def split: option.splits)
  next
    case False
    then have u: "u \<in> dom (containers s)" "u \<notin> token_msgs (T r)" using that assms(5) by auto
    from old(2) [OF u(1)] obtain q y where q: "T q = Some y" "u \<in> stage_msgs (fst y)" by blast
    with u(2) have "q \<noteq> r" by (auto simp: token_msgs_def)
    with q show ?thesis by (intro exI [of _ q] exI [of _ y]) simp
  qed
  moreover have "(T(r := new)) (application info) \<noteq> None \<and>
      (\<exists>b. apps (w_env w') (application info) = Some b \<and> app_host b = j \<and> app_pid b = p)"
    if m: "modules w' j = Some (HostM g')" "processInfoMap g' p = Some info" for j g' p info
  proof (cases "j = i \<and> p = pid")
    case True
    then show ?thesis using m A(4) assms(4,8) by (auto split: if_splits)
  next
    case False
    from affects_back [OF assms(3) m(1) False] obtain g where "modules w j = Some (HostM g)" "processInfoMap g p = Some info"
      using m(2) by metis
    from old(3) [OF this] obtain b where b: "T (application info) \<noteq> None" "apps (w_env w) (application info) = Some b"
      "app_host b = j" "app_pid b = p" by blast
    have "application info \<noteq> r" using b assms(2) False by fastforce
    with b A(1) show ?thesis by auto
  qed
  moreover have "\<exists>q b y. (T(r := new)) q = Some y \<and> stage_call (fst y) = Some c \<and> apps (w_env w') q = Some b \<and> app_host b = j \<and> app_pid b = p"
    if m: "modules w' j = Some (HostM g')" "syscallMap g' c = Some p" for j g' c p
  proof (cases "j = i \<and> p = pid")
    case True
    then show ?thesis using m A(4) assms(4) assms(7) [of c] by auto
  next
    case False
    from affects_back [OF assms(3) m(1) False] obtain g where "modules w j = Some (HostM g)" "syscallMap g c = Some p"
      using m(2) by metis
    from old(4) [OF this] obtain q b y where b: "T q = Some y" "stage_call (fst y) = Some c"
      "apps (w_env w) q = Some b" "app_host b = j" "app_pid b = p" by blast
    have "q \<noteq> r" using b assms(2) False by fastforce
    with b A(1) show ?thesis by (intro exI [of _ q] exI [of _ b] exI [of _ y]) auto
  qed
  ultimately show ?thesis unfolding accounted_def by (intro conjI allI impI ballI) (blast+)
qed

text \<open>A step for one application, which may be a new one or leave.\<close>

lemma living_change:
  assumes "living P R T w s"
    and old: "T r \<noteq> None \<Longrightarrow> \<exists>a. runs_on P w s r a h \<and> app_host a = i \<and> app_pid a = pid" "T r = None \<Longrightarrow> processInfoMap h pid = None"
    and aff: "affects P r i pid h h' (token_msgs (T r) \<union> token_msgs new) w s w' s'"
    and fresh: "token_msgs new \<inter> dom (containers s) = {}"
    and app: "\<exists>a'. apps (w_env w') r = Some a' \<and> app_host a' = i \<and> app_pid a' = pid"
    and dom: "dom (containers s') \<subseteq> dom (containers s) - token_msgs (T r) \<union> token_msgs new"
    and ready: "r \<in> runnableReady s' \<Longrightarrow> \<exists>y. new = Some (Waking, y)"
    and calls: "\<And>c. syscallMap h' c = Some pid \<Longrightarrow> \<exists>y. new = Some y \<and> stage_call (fst y) = Some c"
    and info: "map_option application (processInfoMap h' pid) = (if new = None then None else Some r)"
    and stage: "case new of None \<Rightarrow> finished w' r | Some y \<Rightarrow> at_stage P w' s' r y"
    and inv: "sys_inv {} s'" and ids: "uuids_ok (work (T(r := new))) s'"
    and time: "currentTime s' = currentTime s \<or> runnableReady s = {}" "unat (currentTime s') \<le> deadline P"
  shows "living P R (T(r := new)) w' s'"
proof -
  note L = livingD [OF assms(1)]
  have "T r \<noteq> None \<Longrightarrow> \<exists>a. apps (w_env w) r = Some a \<and> app_host a = i \<and> app_pid a = pid" using old(1) by (blast dest: runs_onD)
  from accounted_step [OF L(7) this aff app dom ready calls info] have "accounted (T(r := new)) w' s'" .
  moreover have "at_stage P w' s' q y" if q: "(T(r := new)) q = Some y" for q y
  proof (cases "q = r")
    case True
    then show ?thesis using stage q by simp
  next
    case False
    then have y: "T q = Some y" using q by simp
    have "stage_msgs (fst y) \<subseteq> dom (containers s)"
      using L(6) [OF y] unfolding at_stage_def by (blast dest: stage_okD_msgs)
    moreover have "stage_msgs (fst y) \<inter> token_msgs (T r) = {}"
      using tokens_disjoint [OF L(6) L(6) [OF y]] False by (auto simp: token_msgs_def split: option.splits)
    ultimately have U: "stage_msgs (fst y) \<inter> (token_msgs (T r) \<union> token_msgs new) = {}" using fresh by blast
    have ne: "app_pid b \<noteq> pid" if b: "runs_on P w s q b g" "app_host b = i" for b g
    proof (cases "T r = None")
      case True
      have "g = h" using runs_onD(2) [OF b(1)] affectsD(3) [OF aff] b(2) by simp
      then show ?thesis using runs_onD(6) [OF b(1)] old(2) [OF True] by auto
    next
      case False
      then obtain a where a: "runs_on P w s r a h" "app_host a = i" "app_pid a = pid" using old(1) by blast
      then show ?thesis using runs_on_unique [OF b(1) a(1)] b(2) \<open>q \<noteq> r\<close> by auto
    qed
    show ?thesis by (rule at_stage_frame [OF L(6) [OF y] False _ aff U]) (use ne time(1) in blast)+
  qed
  moreover have "finished w' q" if "q \<in> R" "(T(r := new)) q = None" for q
  proof (cases "q = r")
    case True
    then show ?thesis using stage that(2) by simp
  next
    case False
    then have "finished w q" using L(8) [OF that(1)] that(2) by simp
    then show ?thesis using affectsD(1) [OF aff False] by (simp add: finished_def)
  qed
  ultimately show ?thesis unfolding living_def using L(2,4,9) affects_view [OF aff] inv ids time(2)
    by (intro conjI allI impI ballI) simp_all
qed

lemma living_step:
  assumes "living P R T w s" and "T r = Some x" and "runs_on P w s r a h"
    and "affects P r (app_host a) (app_pid a) h h' (stage_msgs (fst x) \<union> token_msgs new) w s w' s'"
    and "token_msgs new \<inter> dom (containers s) = {}"
    and "\<exists>a'. apps (w_env w') r = Some a' \<and> app_host a' = app_host a \<and> app_pid a' = app_pid a"
    and "dom (containers s') \<subseteq> dom (containers s) - stage_msgs (fst x) \<union> token_msgs new"
    and "r \<in> runnableReady s' \<Longrightarrow> \<exists>y. new = Some (Waking, y)"
    and "\<And>c. syscallMap h' c = Some (app_pid a) \<Longrightarrow> \<exists>y. new = Some y \<and> stage_call (fst y) = Some c"
    and "map_option application (processInfoMap h' (app_pid a)) = (if new = None then None else Some r)"
    and "case new of None \<Rightarrow> finished w' r | Some y \<Rightarrow> at_stage P w' s' r y"
    and "sys_inv {} s'" and "uuids_ok (work (T(r := new))) s'"
    and "currentTime s' = currentTime s \<or> runnableReady s = {}" and "unat (currentTime s') \<le> deadline P"
  shows "living P R (T(r := new)) w' s'"
proof -
  have x: "token_msgs (T r) = stage_msgs (fst x)" using assms(2) by (simp add: token_msgs_def)
  show ?thesis
    by (rule living_change [OF assms(1) _ _ assms(4) [folded x] assms(5,6) assms(7) [folded x] assms(8-15)]) (use assms(2,3) in auto)
qed

end
