(* ===== verification/App_Lifetime.thy ===== *)
theory App_Lifetime
  imports App_Tokens TCP_Application
begin

text \<open>
  The life of an application from \<^verbatim>\<open>launchApplication\<close> over its system calls to the removal of its process, through
  scheduler, host and application together. Every step of a token makes the measure of \<^verbatim>\<open>App_Tokens\<close> smaller,
  so a run with any number of sleeping applications on any hosts of a network ends, in time.
\<close>

section \<open>Waking an application\<close>

lemma uuid_fresh:
  assumes "uuids_ok n s" and "0 < n"
  shows "currentUUID s + 1 \<notin> dom (containers s)"
proof
  assume "currentUUID s + 1 \<in> dom (containers s)"
  then have "unat (currentUUID s + 1) \<le> unat (currentUUID s)" using assms(1) by (simp add: uuids_ok_def)
  moreover have "unat (currentUUID s + 1) = unat (currentUUID s) + 1"
    using assms by (subst unat_plus_no_wrap) (simp_all add: uuids_ok_def)
  ultimately show False by simp
qed

lemma uuids_ok_sent:
  assumes "uuids_ok n s" and "m < n" and "currentUUID s' = currentUUID s + 1"
    and "dom (containers s') \<subseteq> insert (currentUUID s + 1) (dom (containers s))"
  shows "uuids_ok m s'"
proof -
  have nxt: "unat (currentUUID s + 1) = unat (currentUUID s) + 1"
    using assms(1,2) by (subst unat_plus_no_wrap) (simp_all add: uuids_ok_def)
  have "unat u \<le> unat (currentUUID s) + 1" if "u \<in> dom (containers s')" for u
  proof (cases "u = currentUUID s + 1")
    case False
    then have "u \<in> dom (containers s)" using that assms(4) by blast
    then have "unat u \<le> unat (currentUUID s)" using assms(1) unfolding uuids_ok_def by blast
    then show ?thesis by simp
  qed (simp add: nxt)
  then show ?thesis using assms(1-3) nxt unfolding uuids_ok_def by simp
qed

lemma uuids_ok_less:
  assumes "uuids_ok n s" and "m \<le> n" and "currentUUID s' = currentUUID s" and "dom (containers s') \<subseteq> dom (containers s)"
  shows "uuids_ok m s'"
proof -
  have "unat u \<le> unat (currentUUID s)" if "u \<in> dom (containers s')" for u
    using that assms(1,4) unfolding uuids_ok_def by blast
  then show ?thesis using assms(1-3) unfolding uuids_ok_def by simp
qed

text \<open>An application that is woken runs to its next call or to its end.\<close>

definition put_app :: "runnable \<Rightarrow> app \<Rightarrow> world \<Rightarrow> world" where
  "put_app r a w = w\<lparr>w_env := (w_env w)\<lparr>apps := (apps (w_env w))(r \<mapsto> a)\<rparr>\<rparr>"

lemma put_app_simps [simp]:
  "modules (put_app r a w) = modules w" "apps (w_env (put_app r a w)) = (apps (w_env w))(r \<mapsto> a)"
  by (simp_all add: put_app_def)

text \<open>On a stopped host every call fails at once, and the program runs to its end.\<close>

lemma app_run_gives_up:
  assumes "gives_up p g" and "g \<le> f"
  shows "\<exists>v. app_run (Suc f) False r a p (e, s) = app_run (Suc 0) False r a (Exit v) (e, s)"
  using assms
proof (induction arbitrary: f rule: gives_up.induct)
  case (fails k g param)
  then obtain f' where "f = Suc f'" "g \<le> f'" by (cases f) auto
  with fails.IH show ?case by simp
qed auto

definition next_prog :: "app \<Rightarrow> world \<times> net \<Rightarrow> prog" where
  "next_prog a st = (case resume_at a of AtMain p \<Rightarrow> p | InSyscall k \<Rightarrow> k (syscallRet a) (getCurrentTime (snd st)) (mem (w_env (fst st))))"

lemma ready_to_next: "ready_to Q a \<Longrightarrow> Q (next_prog a st)"
  by (cases "resume_at a") (simp_all add: ready_to_def next_prog_def)

lemma net_wake_ready:
  assumes "runs_on P w s r a h" and "app_state a = READY"
  shows "net_wake f r (w, s) = bindE (app_run f (running h) r (a\<lparr>app_state := RUNNING\<rparr>) (next_prog a (w, s)) (w_env w, s))
      (\<lambda>(next_state, e, s'). Inr (next_state, w\<lparr>w_env := e\<rparr>, s'))"
  using runs_onD(1,2) [OF assms(1)] assms(2) by (cases "resume_at a") (simp_all add: net_wake_def app_wake_def next_prog_def)

lemma woken:
  assumes "runs_on P w s r a h" and "ready_to (\<lambda>p. if running h then ends P p n d else gives_up p (patience P)) a" and "sys_inv {} s"
    and "currentUUID s + 1 \<notin> dom (containers s)" and "patience P \<le> f"
  shows "\<exists>a' m s1. net_wake (Suc f) r (w, s) = Inr (app_state a', put_app r a' w, s1) \<and> app_state a' \<noteq> READY \<and>
    post (app_host a) (app_host a) m 0 s = Inr s1 \<and> app_host a' = app_host a \<and> app_pid a' = app_pid a \<and>
    ((\<exists>v. m = ReturnMsg (app_pid a) v) \<and> app_state a' = TERMINATED \<or>
     running h \<and> (\<exists>param. m = SyscallMsg (app_pid a) param \<and> calls_next P param a' n d))"
proof -
  let ?p = "next_prog a (w, s)"
  have READY: "app_state a = READY" using assms(2) by (simp add: ready_to_def)
  note wake = net_wake_ready [OF assms(1) READY]
  have next_ok: "if running h then ends P ?p n d else gives_up ?p (patience P)" using ready_to_next [OF assms(2)] .
  have leave: ?thesis if "app_run (Suc f) (running h) r (a\<lparr>app_state := RUNNING\<rparr>) ?p (w_env w, s) =
      app_run (Suc 0) b r (a\<lparr>app_state := RUNNING\<rparr>) (Exit v) (w_env w, s)" for b v
  proof -
    obtain s1 where s1: "post (app_host a) (app_host a) (ReturnMsg (app_pid a) v) 0 s = Inr s1" using post_ok [OF assms(3,4)] by blast
    have "net_wake (Suc f) r (w, s) = Inr (TERMINATED, put_app r (a\<lparr>app_state := TERMINATED\<rparr>) w, s1)"
      unfolding wake that by (simp add: exitProcess_def s1 put_app_def)
    with s1 show ?thesis
      by (intro exI [of _ "a\<lparr>app_state := TERMINATED\<rparr>"] exI [of _ "ReturnMsg (app_pid a) v"] exI [of _ s1]) simp
  qed
  show ?thesis
  proof (cases "running h")
    case False
    with next_ok app_run_gives_up [OF _ assms(5)] leave show ?thesis by (metis (full_types))
  next
    case True
    show ?thesis
    proof (cases ?p)
      case (Exit v)
      then show ?thesis by (intro leave [of True v]) (simp add: True)
    next
      case (Invoke param k)
      obtain s1 where s1: "sendMessage (app_host a) (app_host a) (SyscallMsg (app_pid a) param) 0 s = Inr (currentUUID s + 1, s1)"
        using sendMessage_ok [OF assms(3,4)] by blast
      let ?a = "a\<lparr>syscallRet := - 1, app_state := WAITING, resume_at := InSyscall k\<rparr>"
      have "ends P (Invoke param k) n d" using next_ok True Invoke by simp
      then have "calls_next P param ?a n d" by (auto elim!: ends_InvokeE simp: calls_next_def in_call_def in_socket_def)
      with True show ?thesis
        by (intro exI [of _ ?a] exI [of _ "SyscallMsg (app_pid a) param"] exI [of _ s1])
          (simp add: wake Invoke issueSystemCall_def post_def s1 put_app_def)
    qed
  qed
qed

lemma living_calls:
  assumes "living P R T w s" and "runs_on P w s r a h" and "syscallMap h c = Some (app_pid a)"
  shows "\<exists>y. T r = Some y \<and> stage_call (fst y) = Some c"
proof -
  note L = livingD [OF assms(1)]
  from accountedD(4) [OF L(7) runs_onD(2) [OF assms(2)] assms(3)] obtain q b z where
    b: "T q = Some z" "stage_call (fst z) = Some c" "apps (w_env w) q = Some b" "app_host b = app_host a" "app_pid b = app_pid a" by blast
  obtain b' g where g: "runs_on P w s q b' g" using L(6) [OF b(1)] unfolding at_stage_def by blast
  then have "b' = b" using b(3) runs_onD(1) by fastforce
  with runs_on_unique [OF g assms(2)] b show ?thesis by blast
qed

text \<open>The token after the message an application has sent.\<close>

lemma stage_sent:
  assumes "queued s u (app_host a') m (unat (currentTime s))" and "unat (currentTime s) + d \<le> deadline P"
    and "(\<exists>v. m = ReturnMsg (app_pid a') v) \<and> app_state a' = TERMINATED \<or>
      running h \<and> (\<exists>param. m = SyscallMsg (app_pid a') param \<and> calls_next P param a' n d)"
  obtains y where "stage_ok P s r a' h y" "stage_msgs (fst y) = {u}" "weight y < 3 * n + 2" "stage_call (fst y) = None"
  using assms(3)
proof (elim disjE conjE exE)
  fix v assume "m = ReturnMsg (app_pid a') v" "app_state a' = TERMINATED"
  with assms(1,2) show thesis by (intro that [of "(Leaving u, 0, 0)"]) (auto simp: queued_def)
next
  fix param assume "running h" and m: "m = SyscallMsg (app_pid a') param" and "calls_next P param a' n d"
  moreover have "queued s u (app_host a') (SyscallMsg (app_pid a') param) (deadline P - d)" using assms(1,2) m by (auto simp: queued_def)
  ultimately show thesis using assms(2) by (intro that [of "(Calling u, n, d)"]) auto
qed

lemma living_wakes:
  assumes "living P R T w s" and "r \<in> runnableReady s" and "patience P \<le> f"
  shows "\<exists>T' w' s'. work T' < work T \<and> wake_one (net_callbacks (Suc f)) r (w, s) = Inr (w', s') \<and> living P R T' w' s' \<and>
    runnableReady s' = runnableReady s - {r}"
proof -
  note L = livingD [OF assms(1)]
  obtain n d where x: "T r = Some (Waking, n, d)" using accountedD(1) [OF L(7) assms(2)] by force
  obtain a h where a: "runs_on P w s r a h" "ready_to (\<lambda>p. if running h then ends P p n d else gives_up p (patience P)) a"
      "unat (currentTime s) + d \<le> deadline P"
    using L(6) [OF x] unfolding at_stage_def by auto
  note H = runs_onD [OF a(1)]
  have work: "work (T(r \<mapsto> y)) + (3 * n + 2) = work T + weight y" for y using work_upd [OF L(2), of r "Some y"] x by simp
  have "0 < work T" using work [of "(Leaving 0, 0, 0)"] by simp
  note free = uuid_fresh [OF L(3) this]
  from woken [OF a(1,2) L(1) free assms(3)] obtain a' m s1 where
    s1: "net_wake (Suc f) r (w, s) = Inr (app_state a', put_app r a' w, s1)" "app_state a' \<noteq> READY"
      "post (app_host a) (app_host a) m 0 s = Inr s1" "app_host a' = app_host a" "app_pid a' = app_pid a"
    and m: "(\<exists>v. m = ReturnMsg (app_pid a') v) \<and> app_state a' = TERMINATED \<or>
      running h \<and> (\<exists>param. m = SyscallMsg (app_pid a') param \<and> calls_next P param a' n d)" by metis
  note E = post_effect [OF L(1) s1(3)]
  let ?u = "currentUUID s + 1" and ?w = "put_app r a' w" and ?s = "delRunnable r s1"
  have q: "queued ?s ?u (app_host a') m (unat (currentTime ?s))" "unat (currentTime ?s) + d \<le> deadline P"
    using E s1(4) a(3) by (simp_all add: queued_def delRunnable_def)
  have reg: "registeredModule s1 = registeredModule s" using E by (simp add: evolves_def)
  have on: "runs_on P ?w ?s r a' h" unfolding runs_on_def using H reg s1(4,5) by (simp add: delRunnable_def)
  obtain y where y: "stage_ok P ?s r a' h y" "stage_msgs (fst y) = {?u}" "weight y < 3 * n + 2" "stage_call (fst y) = None"
    using stage_sent [OF q m] by blast
  have less: "work (T(r \<mapsto> y)) < work T" using work [of y] y(3) by simp
  have aff: "affects P r (app_host a) (app_pid a) h h (stage_msgs (fst (Waking, n, d)) \<union> token_msgs (Some y)) w s ?w ?s"
    using H E reg y(2) by (auto simp: affects_def host_keeps_def delRunnable_def token_msgs_def)
  have calls: "\<And>c. syscallMap h c = Some (app_pid a) \<Longrightarrow> \<exists>z. Some y = Some z \<and> stage_call (fst z) = Some c"
    using living_calls [OF assms(1) a(1)] x by fastforce
  have ids: "uuids_ok (work (T(r \<mapsto> y))) ?s"
    by (rule uuids_ok_sent [OF L(3) less]) (use E in \<open>auto simp: delRunnable_def\<close>)
  have "living P R (T(r \<mapsto> y)) ?w ?s"
    using living_step [OF assms(1) x a(1) aff _ _ _ _ calls _ _ _ ids] y on s1(4,5) E L(5) free H(6)
    by (auto simp: at_stage_def delRunnable_def token_msgs_def)
  moreover have "wake_one (net_callbacks (Suc f)) r (w, s) = Inr (?w, ?s)" using s1(1,2) by (simp add: wake_one_def)
  moreover have "runnableReady ?s = runnableReady s - {r}" using E by (simp add: delRunnable_def)
  ultimately show ?thesis using less by blast
qed

section \<open>Handling its messages\<close>

lemma weight_pos: "1 \<le> weight x"
  by (cases x rule: weight.cases) simp_all

lemma tokens_work: "card (dom T) \<le> work T"
proof -
  have "card (dom T) = (\<Sum>r \<in> dom T. 1)" by simp
  also have "\<dots> \<le> work T" unfolding work_def by (intro sum_mono weight_pos)
  finally show ?thesis .
qed

lemma living_call_free:
  assumes "living P R T w s" and "modules w i = Some (HostM h)"
  shows "dom (syscallMap h) \<noteq> UNIV"
proof
  note L = livingD [OF assms(1)]
  assume all: "dom (syscallMap h) = UNIV"
  let ?f = "\<lambda>r. the (stage_call (fst (the (T r))))"
  have "c \<in> ?f ` dom T" if c: "syscallMap h c = Some pid" for c pid
  proof -
    obtain r x where "T r = Some x" "stage_call (fst x) = Some c" using accountedD(4) [OF L(7) assms(2) c] by blast
    then show ?thesis by (intro image_eqI [of _ _ r]) auto
  qed
  then have "dom (syscallMap h) \<subseteq> ?f ` dom T" by blast
  then have "card (UNIV :: UUID set) \<le> card (dom T)"
    unfolding all using L(2) by (meson card_image_le card_mono finite_imageI order_trans)
  moreover have "work T < 2 ^ 64" using L(3) by (simp add: uuids_ok_def)
  ultimately show False using tokens_work [of T] by (simp add: card_word)
qed

lemma handle_top_host:
  assumes "timerQueue s = u # q" and "containers s u = Some c" and "\<not> canceled c" and "t_from c = i" and "t_to c = i"
    and "modules w i = Some (HostM h)" and "i \<in> registeredModule s"
    and "Host_messageReceived i i (t_message c) (h, w_env w, s\<lparr>timerQueue := q, currentTime := wakeup c\<rparr>) = Inr (None, h', e', s2)"
    and "registeredModule s2 = registeredModule s"
  shows "handle_top (net_callbacks f) (w, s) = Inr (w\<lparr>modules := (modules w)(i \<mapsto> HostM h'), w_env := e'\<rparr>, retire u s2)"
  using assms by (simp add: handle_top_def deliver_def require_module_def isRegistered_def net_received_def net_finished_def
      Host_messageFinished_def expect_empty_response_def)

lemma retire_simps [simp]:
  "containers (retire u s) = (containers s)(u := None)" "currentTime (retire u s) = currentTime s" "currentUUID (retire u s) = currentUUID s"
  "registeredModule (retire u s) = registeredModule s" "runnableReady (retire u s) = runnableReady s"
  by (simp_all add: retire_def)

text \<open>The message at the head of the queue belongs to application \<open>r\<close> on a host.\<close>

definition due :: "UUID \<Rightarrow> UUID list \<Rightarrow> msg timer \<Rightarrow> ModuleID \<Rightarrow> net \<Rightarrow> bool" where
  "due u q c i s \<longleftrightarrow> runnableReady s = {} \<and> timerQueue s = u # q \<and> containers s u = Some c \<and> \<not> canceled c \<and> t_from c = i \<and> t_to c = i"

definition popped :: "UUID list \<Rightarrow> msg timer \<Rightarrow> net \<Rightarrow> net" where
  "popped q c s = s\<lparr>timerQueue := q, currentTime := wakeup c\<rparr>"

lemma popped_simps [simp]:
  "containers (popped q c s) = containers s" "currentTime (popped q c s) = wakeup c" "currentUUID (popped q c s) = currentUUID s"
  "registeredModule (popped q c s) = registeredModule s" "runnableReady (popped q c s) = runnableReady s"
  by (simp_all add: popped_def)

lemma living_handled:
  assumes "living P R T w s" and "T r = Some x" and "runs_on P w s r a h" and "due u q c (app_host a) s" and "stage_msgs (fst x) = {u}"
    and rec: "Host_messageReceived (app_host a) (app_host a) (t_message c) (h, w_env w, popped q c s) = Inr (None, h', e', s2)"
    and inv: "sys_inv {u} s2" and s2: "registeredModule s2 = registeredModule s" "currentTime s2 = wakeup c" "runnableReady s2 \<subseteq> {r}"
      "dom (containers s2) \<subseteq> dom (containers s) \<union> token_msgs new" "\<And>v. v \<noteq> u \<Longrightarrow> v \<notin> token_msgs new \<Longrightarrow> containers s2 v = containers s v"
    and fresh: "token_msgs new \<inter> dom (containers s) = {}"
    and e': "\<And>q. q \<noteq> r \<Longrightarrow> apps e' q = apps (w_env w) q" "apps e' r = Some a'" "app_host a' = app_host a" "app_pid a' = app_pid a"
    and h': "host_keeps P (app_pid a) h h'" "\<And>c. syscallMap h' c = Some (app_pid a) \<Longrightarrow> \<exists>y. new = Some y \<and> stage_call (fst y) = Some c"
      "map_option application (processInfoMap h' (app_pid a)) = (if new = None then None else Some r)"
    and ready: "r \<in> runnableReady s2 \<Longrightarrow> \<exists>y. new = Some (Waking, y)"
    and time: "unat (wakeup c) \<le> deadline P" and ids: "uuids_ok (work (T(r := new))) (retire u s2)" and less: "work (T(r := new)) < work T"
    and stage: "case new of None \<Rightarrow> app_state a' = TERMINATED | Some y \<Rightarrow> stage_ok P (retire u s2) r a' h' y"
  shows "\<exists>T' w' s'. work T' < work T \<and> handle_top (net_callbacks f) (w, s) = Inr (w', s') \<and> living P R T' w' s'"
proof -
  note H = runs_onD [OF assms(3)]
  have c: "runnableReady s = {}" "timerQueue s = u # q" "containers s u = Some c" "\<not> canceled c" "t_from c = app_host a" "t_to c = app_host a"
    using assms(4) by (simp_all add: due_def)
  let ?w = "w\<lparr>modules := (modules w)(app_host a \<mapsto> HostM h'), w_env := e'\<rparr>" and ?s = "retire u s2"
  have top: "handle_top (net_callbacks f) (w, s) = Inr (?w, ?s)"
    by (rule handle_top_host [OF c(2-6) H(2,3) rec [unfolded popped_def] s2(1)])
  have aff: "affects P r (app_host a) (app_pid a) h h' (stage_msgs (fst x) \<union> token_msgs new) w s ?w ?s"
    unfolding affects_def assms(5) using H(2) c(1) s2 e'(1) h'(1) by simp
  have "living P R (T(r := new)) ?w ?s"
  proof (rule living_step [OF assms(1-3) aff fresh _ _ _ h'(2,3) _ _ ids])
    show "sys_inv {} ?s" using inv by (intro retire_inv) simp_all
    show "dom (containers ?s) \<subseteq> dom (containers s) - stage_msgs (fst x) \<union> token_msgs new" using s2(4) fresh c(3) assms(5) by auto
    show "case new of None \<Rightarrow> finished ?w r | Some y \<Rightarrow> at_stage P ?w ?s r y"
    proof (cases new)
      case (Some y)
      then have "runs_on P ?w ?s r a' h'"
        unfolding runs_on_def using e'(2-4) H(3,5) s2(1) host_keepsD(1) [OF h'(1)] h'(3) by simp
      with stage Some show ?thesis by (auto simp: at_stage_def)
    qed (use stage e'(2) in \<open>simp add: finished_def\<close>)
    show "unat (currentTime ?s) \<le> deadline P" using s2(2) time by simp
    show "currentTime ?s = currentTime s \<or> runnableReady s = {}" using c(1) by simp
  qed (use e'(2-4) ready in simp_all)
  with less top show ?thesis by blast
qed

lemma timer_queued:
  assumes "containers s2 = cs(v \<mapsto> \<lparr>t_from = i, t_to = i, canceled = False, wakeup = now + t, t_message = m, t_uuid = v\<rparr>)" and "v \<noteq> u"
    and "unat t \<le> d" and "unat now \<le> D - d" and "d \<le> D" and "D < 2 ^ 64"
  shows "queued (retire u s2) v i m (D - (d - unat t))"
proof -
  have "unat (now + t) = unat now + unat t" using assms(3-6) by (intro unat_plus_no_wrap) simp
  then have "unat (now + t) \<le> D - (d - unat t)" using assms(3-5) by simp
  moreover have "containers (retire u s2) v = Some \<lparr>t_from = i, t_to = i, canceled = False, wakeup = now + t, t_message = m, t_uuid = v\<rparr>"
    unfolding retire_simps assms(1) using assms(2) by simp
  ultimately show ?thesis unfolding queued_def by (intro exI conjI) (assumption | simp)+
qed

lemma living_nsleep:
  assumes "living P R T w s" and "T r = Some (Calling u, Suc m, d)" and "runs_on P w s r a h" and "due u q c (app_host a) s" and "running h"
    and a: "t_message c = SyscallMsg (app_pid a) param" "unat (wakeup c) \<le> deadline P - d" "d \<le> deadline P"
      "syscallNumber param = NSLEEP" "params param = [U64 t, x, y]" "unat t \<le> d" "in_call P a m (d - unat t)"
  shows "\<exists>T' w' s'. work T' < work T \<and> handle_top (net_callbacks f) (w, s) = Inr (w', s') \<and> living P R T' w' s'"
proof -
  note L = livingD [OF assms(1)] and H = runs_onD [OF assms(3)]
  have c: "timerQueue s = u # q" "containers s u = Some c" "runnableReady s = {}" using assms(4) by (simp_all add: due_def)
  let ?u = "currentUUID s + 1"
  have "0 < work T" using work_upd [OF L(2), of r None] assms(2) by simp
  note free = uuid_fresh [OF L(3) this]
  have inv1: "sys_inv {u} (popped q c s)" using pop_inv [OF L(1) c(1)] by (simp add: popped_def)
  obtain info where info: "processInfoMap h (app_pid a) = Some info" "application info = r" using H(6) by auto
  have pre: "apps (w_env w) (application info) = Some a" "interfaceMap h (0, 0) = Some DefaultIface"
    "currentUUID (popped q c s) + 1 \<notin> dom (containers (popped q c s))"
    using H(1,4) info(2) free by (simp_all add: host_serves_def)
  from nsleep_syscall [OF info(1) pre(1) HOL.refl H(5) pre(2) living_call_free [OF assms(1) H(2)] a(4,5) inv1 pre(3), of "app_host a"]
  obtain cid s2 where cid: "cid \<notin> dom (syscallMap h)" and
    s2: "sendMessage (app_host a) (app_host a) (TimerMsg ''DefaultSyscall'' (AnyUUID cid)) t (popped q c s) = Inr (?u, s2)" and
    call: "Host_syscall (app_host a) (app_pid a) param (h, w_env w, popped q c s) =
      Inr (h\<lparr>syscallIDStart := cid + 1, syscallMap := (syscallMap h)(cid \<mapsto> app_pid a)\<rparr>, w_env w, s2)"
    unfolding popped_simps by blast
  let ?h = "h\<lparr>syscallIDStart := cid + 1, syscallMap := (syscallMap h)(cid \<mapsto> app_pid a)\<rparr>"
  let ?y = "(Sleeping ?u cid, m, d - unat t)"
  note S = sendMessage_effects [OF inv1 s2, unfolded popped_simps]
  have "?u \<noteq> u" using c(2) free by auto
  from timer_queued [OF S(6) this a(6,2,3) L(4)]
  have q: "queued (retire u s2) ?u (app_host a) (TimerMsg ''DefaultSyscall'' (AnyUUID cid)) (deadline P - (d - unat t))" .
  have less: "work (T(r \<mapsto> ?y)) < work T" using work_upd [OF L(2), of r "Some ?y"] assms(2) by simp
  have none: "\<And>c. syscallMap h c \<noteq> Some (app_pid a)" using living_calls [OF assms(1,3)] assms(2) by fastforce
  show ?thesis
  proof (rule living_handled [OF assms(1-4), of ?h "w_env w" s2 "Some ?y" a])
    show "Host_messageReceived (app_host a) (app_host a) (t_message c) (h, w_env w, popped q c s) = Inr (None, ?h, w_env w, s2)"
      using call by (simp add: a(1) Host_messageReceived_def)
    show "uuids_ok (work (T(r := Some ?y))) (retire u s2)" by (rule uuids_ok_sent [OF L(3) less]) (use S in auto)
    show "host_keeps P (app_pid a) h ?h" using H(4) cid by (auto simp: host_keeps_def host_serves_def)
    show "map_option application (processInfoMap ?h (app_pid a)) = (if Some ?y = None then None else Some r)" using info by simp
    show "case Some ?y of None \<Rightarrow> app_state a = TERMINATED | Some y \<Rightarrow> stage_ok P (retire u s2) r a ?h y"
      using q a(3,7) assms(5) by simp
    show "\<exists>z. Some ?y = Some z \<and> stage_call (fst z) = Some y'" if "syscallMap ?h y' = Some (app_pid a)" for y'
      using that none by (auto split: if_splits)
  qed (use S c(2,3) H(1) less a(2) free in \<open>auto simp: token_msgs_def\<close>)
qed

lemma ready_inv [simp]: "sys_inv F (addRunnable r s) = sys_inv F s" "sys_inv F (delRunnable r s) = sys_inv F s"
  by (simp_all add: addRunnable_def delRunnable_def)

lemma runnable_simps [simp]:
  "containers (addRunnable r s) = containers s" "currentTime (addRunnable r s) = currentTime s" "currentUUID (addRunnable r s) = currentUUID s"
  "registeredModule (addRunnable r s) = registeredModule s" "runnableReady (addRunnable r s) = insert r (runnableReady s)"
  "containers (delRunnable r s) = containers s" "currentTime (delRunnable r s) = currentTime s" "currentUUID (delRunnable r s) = currentUUID s"
  "registeredModule (delRunnable r s) = registeredModule s" "runnableReady (delRunnable r s) = runnableReady s - {r}"
  by (simp_all add: addRunnable_def delRunnable_def)

text \<open>A call of \<^verbatim>\<open>socket\<close> reaches the TCP assignment, which does nothing: the application stays blocked.\<close>

lemma living_socket:
  assumes "living P R T w s" and "T r = Some (Calling u, Suc m, d)" and "runs_on P w s r a h" and "due u q c (app_host a) s"
    and a: "t_message c = SyscallMsg (app_pid a) param" "unat (wakeup c) \<le> deadline P - d"
      "blocking P" "opens_socket param" "in_socket P a"
  shows "\<exists>T' w' s'. work T' < work T \<and> handle_top (net_callbacks f) (w, s) = Inr (w', s') \<and> living P R T' w' s'"
proof -
  note L = livingD [OF assms(1)] and H = runs_onD [OF assms(3)]
  have c: "timerQueue s = u # q" "containers s u = Some c" "runnableReady s = {}" using assms(4) by (simp_all add: due_def)
  obtain info where info: "processInfoMap h (app_pid a) = Some info" "application info = r" using H(6) by auto
  obtain ty where param: "syscallNumber param = SOCKET" "params param = [I32 AF_INET, ty, I32 IPPROTO_TCP]"
    using a(4) by (auto simp: opens_socket_def)
  have pre: "apps (w_env w) (application info) = Some a" "interfaceMap h (AF_INET, IPPROTO_TCP) = Some TCPIface"
    "syscall_namespace param info = Inr (AF_INET, IPPROTO_TCP)"
    using H(1,4) info(2) a(3) param by (simp_all add: host_serves_def syscall_namespace_def get_param_def)
  from Host_syscall_dispatch [OF info(1) pre(1) HOL.refl H(5) pre(3,2) living_call_free [OF assms(1) H(2)], of "app_host a" "popped q c s"]
  obtain cid where cid: "cid \<notin> dom (syscallMap h)" and call: "Host_syscall (app_host a) (app_pid a) param (h, w_env w, popped q c s) =
      Inr (h\<lparr>syscallIDStart := cid + 1, syscallMap := (syscallMap h)(cid \<mapsto> app_pid a)\<rparr>, w_env w, popped q c s)"
    using param(1) by (auto simp: iface_systemCallback_def TCP_systemCallback_def)
  let ?h = "h\<lparr>syscallIDStart := cid + 1, syscallMap := (syscallMap h)(cid \<mapsto> app_pid a)\<rparr>"
  let ?y = "(Blocked cid, 0, 0)"
  have less: "work (T(r \<mapsto> ?y)) < work T" using work_upd [OF L(2), of r "Some ?y"] assms(2) by simp
  have none: "\<And>c. syscallMap h c \<noteq> Some (app_pid a)" using living_calls [OF assms(1,3)] assms(2) by fastforce
  show ?thesis
  proof (rule living_handled [OF assms(1-4), of ?h "w_env w" "popped q c s" "Some ?y" a])
    show "Host_messageReceived (app_host a) (app_host a) (t_message c) (h, w_env w, popped q c s) = Inr (None, ?h, w_env w, popped q c s)"
      using call by (simp add: a(1) Host_messageReceived_def)
    show "sys_inv {u} (popped q c s)" using pop_inv [OF L(1) c(1)] by (simp add: popped_def)
    show "uuids_ok (work (T(r := Some ?y))) (retire u (popped q c s))"
      by (rule uuids_ok_less [OF L(3) less_imp_le [OF less]]) auto
    show "host_keeps P (app_pid a) h ?h" using H(4) cid by (auto simp: host_keeps_def host_serves_def)
    show "map_option application (processInfoMap ?h (app_pid a)) = (if Some ?y = None then None else Some r)" using info by simp
    show "\<exists>z. Some ?y = Some z \<and> stage_call (fst z) = Some y'" if "syscallMap ?h y' = Some (app_pid a)" for y'
      using that none by (auto split: if_splits)
  qed (use c(3) H(1) less a(2,3,5) in \<open>simp_all add: token_msgs_def\<close>)
qed

lemma living_calling:
  assumes "living P R T w s" and "T r = Some (Calling u, n, d)" and "runs_on P w s r a h" and "stage_ok P s r a h (Calling u, n, d)"
    and "due u q c (app_host a) s"
  shows "\<exists>T' w' s'. work T' < work T \<and> handle_top (net_callbacks f) (w, s) = Inr (w', s') \<and> living P R T' w' s'"
proof -
  have "containers s u = Some c" using assms(5) by (simp add: due_def)
  with assms(4) obtain param where p: "t_message c = SyscallMsg (app_pid a) param" "unat (wakeup c) \<le> deadline P - d" "d \<le> deadline P"
    "running h" "calls_next P param a n d" by (auto simp: queued_def)
  from p(5) show ?thesis unfolding calls_next_def
    using living_nsleep [OF assms(1) _ assms(3,5) p(4,1-3)] living_socket [OF assms(1) _ assms(3,5) p(1,2)] assms(2) by blast
qed

lemma living_sleeping:
  assumes "living P R T w s" and "T r = Some (Sleeping u y, n, d)" and "runs_on P w s r a h" and "stage_ok P s r a h (Sleeping u y, n, d)"
    and "due u q c (app_host a) s"
  shows "\<exists>T' w' s'. work T' < work T \<and> handle_top (net_callbacks f) (w, s) = Inr (w', s') \<and> living P R T' w' s'"
proof -
  note L = livingD [OF assms(1)] and H = runs_onD [OF assms(3)]
  have c: "timerQueue s = u # q" "containers s u = Some c" "runnableReady s = {}" using assms(5) by (simp_all add: due_def)
  have a: "in_call P a n d" "syscallMap h y = Some (app_pid a)" "d \<le> deadline P" "t_message c = TimerMsg ''DefaultSyscall'' (AnyUUID y)"
      "unat (wakeup c) \<le> deadline P - d" "running h" using assms(4) c(2) by (auto simp: queued_def)
  obtain k where k: "app_state a = WAITING" "resume_at a = InSyscall k" "\<forall>v now m. ends P (k v now m) n d" using a(1) by (auto simp: in_call_def)
  obtain info where info: "processInfoMap h (app_pid a) = Some info" "application info = r" using H(6) by auto
  let ?h = "h\<lparr>syscallMap := (syscallMap h)(y := None)\<rparr>" and ?a = "a\<lparr>syscallRet := 0, app_state := READY\<rparr>"
  let ?e = "(w_env w)\<lparr>apps := (apps (w_env w))(r \<mapsto> ?a)\<rparr>" and ?s2 = "addRunnable r (popped q c s)" and ?y = "(Waking, n, d)"
  have "pending y (app_pid a) info a h (w_env w)" using a(2) info H(1) k(1) by (simp add: pending_def)
  from returnSystemCall_pending [OF this, of 0 "popped q c s"]
  have rec: "Host_messageReceived (app_host a) (app_host a) (t_message c) (h, w_env w, popped q c s) = Inr (None, ?h, ?e, ?s2)"
    using H(4) info(2)
    by (simp add: a(4) Host_messageReceived_def Host_timer_def host_serves_def module_timerCallback_def Default_timerCallback_def)
  have less: "work (T(r \<mapsto> ?y)) < work T" using work_upd [OF L(2), of r "Some ?y"] assms(2) by simp
  show ?thesis
  proof (rule living_handled [OF assms(1-3,5) _ rec, of "Some ?y" ?a])
    show "sys_inv {u} ?s2" using pop_inv [OF L(1) c(1)] by (simp add: popped_def)
    show "uuids_ok (work (T(r := Some ?y))) (retire u ?s2)"
      by (rule uuids_ok_less [OF L(3) less_imp_le [OF less]]) auto
    show "host_keeps P (app_pid a) h ?h" using H(4) a(2) by (auto simp: host_keeps_def host_serves_def)
    show "map_option application (processInfoMap ?h (app_pid a)) = (if Some ?y = None then None else Some r)" using info by simp
    show "\<exists>z. Some ?y = Some z \<and> stage_call (fst z) = Some y'" if "syscallMap ?h y' = Some (app_pid a)" for y'
      using that living_calls [OF assms(1,3), of y'] assms(2) by (auto split: if_splits)
    show "case Some ?y of None \<Rightarrow> app_state ?a = TERMINATED | Some y \<Rightarrow> stage_ok P (retire u ?s2) r ?a ?h y"
      using k a(3,5,6) by (simp add: ready_to_def)
  qed (use c(3) H(1) less a(5) in \<open>simp_all add: token_msgs_def\<close>)
qed

lemma living_leaving:
  assumes "living P R T w s" and "T r = Some (Leaving u, n, d)" and "runs_on P w s r a h" and "stage_ok P s r a h (Leaving u, n, d)"
    and "due u q c (app_host a) s"
  shows "\<exists>T' w' s'. work T' < work T \<and> handle_top (net_callbacks f) (w, s) = Inr (w', s') \<and> living P R T' w' s'"
proof -
  note L = livingD [OF assms(1)] and H = runs_onD [OF assms(3)]
  have c: "timerQueue s = u # q" "containers s u = Some c" "runnableReady s = {}" using assms(5) by (simp_all add: due_def)
  obtain v where a: "app_state a = TERMINATED" "t_message c = ReturnMsg (app_pid a) v" "unat (wakeup c) \<le> deadline P"
    using assms(4) c(2) by (auto simp: queued_def)
  obtain info where info: "processInfoMap h (app_pid a) = Some info" "application info = r" using H(6) by auto
  have none: "\<And>c. syscallMap h c \<noteq> Some (app_pid a)" using living_calls [OF assms(1,3)] assms(2) by fastforce
  then have ran: "app_pid a \<notin> ran (syscallMap h)" by (simp add: ran_def)
  let ?h = "h\<lparr>processInfoMap := (processInfoMap h)(app_pid a := None)\<rparr>" and ?s2 = "delRunnable r (popped q c s)"
  have rec: "Host_messageReceived (app_host a) (app_host a) (t_message c) (h, w_env w, popped q c s) = Inr (None, ?h, w_env w, ?s2)"
    using info H(1) ran by (simp add: a(2) Host_messageReceived_def Host_return_def)
  have less: "work (T(r := None)) < work T" using work_upd [OF L(2), of r None] assms(2) by simp
  show ?thesis
  proof (rule living_handled [OF assms(1-3,5) _ rec, of None a])
    show "sys_inv {u} ?s2" using pop_inv [OF L(1) c(1)] by (simp add: popped_def)
    show "uuids_ok (work (T(r := None))) (retire u ?s2)"
      by (rule uuids_ok_less [OF L(3) less_imp_le [OF less]]) auto
    show "host_keeps P (app_pid a) h ?h" using H(4) by (auto simp: host_keeps_def host_serves_def)
  qed (use c(3) H(1) less a none in \<open>simp_all add: token_msgs_def\<close>)
qed

lemma living_top:
  assumes "living P R T w s" and "runnableReady s = {}" and "timerQueue s \<noteq> []"
  shows "\<exists>T' w' s'. work T' < work T \<and> handle_top (net_callbacks f) (w, s) = Inr (w', s') \<and> living P R T' w' s'"
proof -
  note L = livingD [OF assms(1)]
  obtain u q where q: "timerQueue s = u # q" using assms(3) by (cases "timerQueue s") auto
  then have "u \<in> dom (containers s)" using L(1) by (simp add: sys_inv_def)
  from accountedD(2) [OF L(7) this] obtain r st n d where x: "T r = Some (st, n, d)" "u \<in> stage_msgs st" by force
  obtain a h where a: "runs_on P w s r a h" "stage_ok P s r a h (st, n, d)" using L(6) [OF x(1)] unfolding at_stage_def by blast
  have due: "\<exists>c. due u q c (app_host a) s" if "queued s u (app_host a) m E" for m E
    using that assms(2) q by (auto simp: due_def queued_def)
  consider "st = Calling u" | y where "st = Sleeping u y" | "st = Leaving u" using x(2) by (cases st) auto
  then show ?thesis
  proof cases
    case 1
    moreover obtain c where "due u q c (app_host a) s" using due a(2) 1 by auto
    ultimately show ?thesis using living_calling [OF assms(1) _ a(1)] x(1) a(2) by blast
  next
    case (2 y)
    moreover obtain c where "due u q c (app_host a) s" using due a(2) 2 by auto
    ultimately show ?thesis using living_sleeping [OF assms(1) _ a(1)] x(1) a(2) by blast
  next
    case 3
    moreover obtain c where "due u q c (app_host a) s" using due a(2) 3 by auto
    ultimately show ?thesis using living_leaving [OF assms(1) _ a(1)] x(1) a(2) by blast
  qed
qed

text \<open>The application threads have fuel for the calls that fail on a stopped host.\<close>

definition lively :: "plan \<Rightarrow> runnable set \<Rightarrow> nat \<Rightarrow> nat \<Rightarrow> world \<Rightarrow> net \<Rightarrow> bool" where
  "lively P R f n w s \<longleftrightarrow> patience P \<le> f \<and> (\<exists>T. living P R T w s \<and> work T = n)"

interpretation sleepers: ending_client "net_callbacks (Suc f)" "lively P R f" for P R f
proof
  fix n w s r
  assume "lively P R f n w s"
  then obtain T where T: "living P R T w s" "work T = n" and f: "patience P \<le> f" by (auto simp: lively_def)
  have "runnableReady s \<subseteq> dom T" using accountedD(1) [OF livingD(7) [OF T(1)]] by blast
  then show "finite (runnableReady s)" using livingD(2) [OF T(1)] finite_subset by blast
  show "r \<in> runnableReady s \<Longrightarrow> \<exists>m w' s'. m < n \<and> wake_one (net_callbacks (Suc f)) r (w, s) = Inr (w', s') \<and> lively P R f m w' s' \<and>
      runnableReady s' = runnableReady s - {r}"
    using living_wakes [OF T(1) _ f, of r] T(2) f unfolding lively_def by blast
  show "runnableReady s = {} \<Longrightarrow> timerQueue s \<noteq> [] \<Longrightarrow>
      \<exists>m w' s'. m < n \<and> handle_top (net_callbacks (Suc f)) (w, s) = Inr (w', s') \<and> lively P R f m w' s'"
    using living_top [OF T(1), of "Suc f"] T(2) f unfolding lively_def by blast
qed

section \<open>Launching\<close>

definition serving :: "plan \<Rightarrow> world \<Rightarrow> net \<Rightarrow> ModuleID \<Rightarrow> bool" where
  "serving P w s i \<longleftrightarrow> (\<exists>h. modules w i = Some (HostM h) \<and> i \<in> registeredModule s \<and> host_serves P h \<and> running h)"

lemma living_pid_free:
  assumes "living P R T w s" and "modules w i = Some (HostM h)" and "card (dom T) < nat MAX_PID"
  shows "\<not> (\<forall>p \<in> {0..<MAX_PID}. processInfoMap h p \<noteq> None)"
proof
  note L = livingD [OF assms(1)]
  assume all: "\<forall>p \<in> {0..<MAX_PID}. processInfoMap h p \<noteq> None"
  let ?f = "\<lambda>r. app_pid (the (apps (w_env w) r))"
  have "p \<in> ?f ` dom T" if p: "p \<in> {0..<MAX_PID}" for p
  proof -
    obtain info where "processInfoMap h p = Some info" using all p by blast
    from accountedD(3) [OF L(7) assms(2) this] show ?thesis by (intro image_eqI [of _ _ "application info"]) auto
  qed
  then have "card {0..<MAX_PID} \<le> card (dom T)"
    using L(2) by (meson card_image_le card_mono finite_imageI order_trans subsetI)
  with assms(3) show False by simp
qed

lemma launched:
  assumes "modules w i = Some (HostM h)" and "host_serves P h" and "\<not> (\<forall>p \<in> {0..<MAX_PID}. processInfoMap h p \<noteq> None)"
  obtains pid where "processInfoMap h pid = None" "0 \<le> pid" "pid < MAX_PID"
    "launch new i p (w, s) = Inr (
       (put_app new \<lparr>app_host = i, app_pid = pid, app_state = READY, syscallRet = 0, resume_at = AtMain p\<rparr> w)
         \<lparr>modules := (modules w)(i \<mapsto> HostM (h\<lparr>processInfoMap := (processInfoMap h)(pid \<mapsto> \<lparr>application = new, fdToDomain = []\<rparr>),
            pidStart := (pid + 1) mod MAX_PID\<rparr>))\<rparr>,
       addRunnable new s)"
proof -
  let ?e = "(w_env w)\<lparr>apps := (apps (w_env w))(new \<mapsto> SystemCallApplication_new i p)\<rparr>"
  have "0 \<le> pidStart h" "pidStart h < MAX_PID" using assms(2) by (simp_all add: host_serves_def)
  from registerProcess_spec [OF this, of ?e new] assms(3) obtain pid where
    pid: "processInfoMap h pid = None" "0 \<le> pid" "pid < MAX_PID" and
    reg: "registerProcess new (h, ?e) = Some (Inr (pid,
         h\<lparr>processInfoMap := (processInfoMap h)(pid \<mapsto> \<lparr>application = new, fdToDomain = []\<rparr>), pidStart := (pid + 1) mod MAX_PID\<rparr>,
         ?e\<lparr>apps := (apps ?e)(new \<mapsto> (SystemCallApplication_new i p)\<lparr>app_pid := pid\<rparr>)\<rparr>))" by auto
  show thesis
  proof (rule that [OF pid])
    show "launch new i p (w, s) = Inr (
       (put_app new \<lparr>app_host = i, app_pid = pid, app_state = READY, syscallRet = 0, resume_at = AtMain p\<rparr> w)
         \<lparr>modules := (modules w)(i \<mapsto> HostM (h\<lparr>processInfoMap := (processInfoMap h)(pid \<mapsto> \<lparr>application = new, fdToDomain = []\<rparr>),
            pidStart := (pid + 1) mod MAX_PID\<rparr>))\<rparr>,
       addRunnable new s)"
      unfolding launch_def on_host_def addApplication_def split_conv assms(1) option.case modul.case reg
      by (simp add: launchApplication_def env_addRunnable_def SystemCallApplication_new_def put_app_def Let_def)
  qed
qed

lemma living_launch:
  assumes "living P R T w s" and "T new = None" and "serving P w s i" and "ends P p n d" and "unat (currentTime s) + d \<le> deadline P"
    and "card (dom T) < nat MAX_PID" and "uuids_ok (work T + (3 * n + 2)) s"
  shows "\<exists>w' s'. launch new i p (w, s) = Inr (w', s') \<and> living P (insert new R) (T(new \<mapsto> (Waking, n, d))) w' s' \<and>
    (\<forall>j. serving P w s j \<longrightarrow> serving P w' s' j) \<and> currentTime s' = currentTime s \<and> currentUUID s' = currentUUID s \<and>
    dom (containers s') = dom (containers s)"
proof -
  note L = livingD [OF assms(1)]
  obtain h where h: "modules w i = Some (HostM h)" "i \<in> registeredModule s" "host_serves P h" "running h"
    using assms(3) by (auto simp: serving_def)
  obtain pid where pid: "processInfoMap h pid = None" "0 \<le> pid" "pid < MAX_PID" and
    l: "launch new i p (w, s) = Inr (
       (put_app new \<lparr>app_host = i, app_pid = pid, app_state = READY, syscallRet = 0, resume_at = AtMain p\<rparr> w)
         \<lparr>modules := (modules w)(i \<mapsto> HostM (h\<lparr>processInfoMap := (processInfoMap h)(pid \<mapsto> \<lparr>application = new, fdToDomain = []\<rparr>),
            pidStart := (pid + 1) mod MAX_PID\<rparr>))\<rparr>,
       addRunnable new s)" by (rule launched [OF h(1,3) living_pid_free [OF assms(1) h(1) assms(6)]])
  define a where "a = \<lparr>app_host = i, app_pid = pid, app_state = READY, syscallRet = 0, resume_at = AtMain p\<rparr>"
  define h' where "h' = h\<lparr>processInfoMap := (processInfoMap h)(pid \<mapsto> \<lparr>application = new, fdToDomain = []\<rparr>), pidStart := (pid + 1) mod MAX_PID\<rparr>"
  define w' where "w' = (put_app new a w)\<lparr>modules := (modules w)(i \<mapsto> HostM h')\<rparr>"
  have w': "modules w' = (modules w)(i \<mapsto> HostM h')" "apps (w_env w') = (apps (w_env w))(new \<mapsto> a)" by (simp_all add: w'_def put_app_def)
  have serves: "host_serves P h'" using h(3) pid(2,3) by (simp add: host_serves_def h'_def MAX_PID_def)
  have calls: "syscallMap h c \<noteq> Some pid" for c
  proof
    assume "syscallMap h c = Some pid"
    from accountedD(4) [OF L(7) h(1) this] obtain r b y where
      b: "T r = Some y" "apps (w_env w) r = Some b" "app_host b = i" "app_pid b = pid" by blast
    obtain b' g where g: "runs_on P w s r b' g" using L(6) [OF b(1)] unfolding at_stage_def by blast
    have "b' = b" using runs_onD(1) [OF g] b(2) by simp
    then show False using runs_onD(2,6) [OF g] b(3,4) h(1) pid(1) by simp
  qed
  have aff: "affects P new i pid h h' (token_msgs (T new) \<union> token_msgs (Some (Waking, n, d))) w s w' (addRunnable new s)"
    using h(1) w' serves by (auto simp: affects_def host_keeps_def h'_def)
  have stage: "at_stage P w' (addRunnable new s) new (Waking, n, d)"
    unfolding at_stage_def runs_on_def using w' h(2,4) serves pid(2) assms(4,5)
    by (intro exI [of _ a] exI [of _ h']) (simp add: a_def h'_def ready_to_def)
  have "work (T(new \<mapsto> (Waking, n, d))) = work T + (3 * n + 2)" using work_upd [OF L(2), of new "Some (Waking, n, d)"] assms(2) by simp
  then have ids: "uuids_ok (work (T(new \<mapsto> (Waking, n, d)))) (addRunnable new s)" using assms(7) by (simp add: uuids_ok_def)
  have "living P R (T(new \<mapsto> (Waking, n, d))) w' (addRunnable new s)"
    by (rule living_change [OF assms(1) _ _ aff _ _ _ _ _ _ _ _ ids])
      (use assms(2) pid(1) w' calls stage L(1,5) in \<open>simp_all add: token_msgs_def a_def h'_def\<close>)
  then have "living P (insert new R) (T(new \<mapsto> (Waking, n, d))) w' (addRunnable new s)" by (auto simp: living_def)
  moreover have "serving P w' (addRunnable new s) j" if "serving P w s j" for j
    using that w'(1) serves h(2,4) by (auto simp: serving_def h'_def)
  ultimately show ?thesis using l unfolding w'_def a_def h'_def by auto
qed

section \<open>The end of a run\<close>

text \<open>Nothing is queued or ready, and no host has a process or a pending call.\<close>

definition quiet :: "world \<Rightarrow> net \<Rightarrow> bool" where
  "quiet w s \<longleftrightarrow> sys_inv {} s \<and> timerQueue s = [] \<and> runnableReady s = {} \<and>
     (\<forall>i h. modules w i = Some (HostM h) \<longrightarrow> processInfoMap h = Map.empty \<and> syscallMap h = Map.empty)"

lemma no_containers:
  assumes "sys_inv {} s" and "timerQueue s = []"
  shows "containers s = Map.empty"
proof -
  have "dom (containers s) = {}" using assms unfolding sys_inv_def by simp
  then show ?thesis by simp
qed

lemma quiet_containers: "quiet w s \<Longrightarrow> containers s = Map.empty"
  by (rule no_containers) (simp_all add: quiet_def)

lemma quiet_living:
  assumes "quiet w s" and "unat (currentTime s) \<le> deadline P" and "deadline P < 2 ^ 64" and "view P = host_view w"
  shows "living P {} Map.empty w s"
  using assms quiet_containers [OF assms(1)] unsigned_less [of "currentUUID s", where ?'a = nat]
  by (auto simp: living_def accounted_def quiet_def uuids_ok_def work_def)

lemma living_blocked:
  assumes "living P R T w s" and "runnableReady s = {}" and "timerQueue s = []" and x: "T r = Some x"
  shows "blocking P" "\<exists>c. fst x = Blocked c"
proof -
  note L = livingD [OF assms(1)]
  have none: "containers s = Map.empty" using no_containers [OF L(1) assms(3)] .
  obtain st n d where st: "x = (st, n, d)" by (cases x)
  obtain a h where "stage_ok P s r a h (st, n, d)" using L(6) [OF x] st unfolding at_stage_def by blast
  then have "blocking P \<and> (\<exists>c. st = Blocked c)" using assms(2) none by (cases st) (auto simp: queued_def)
  then show "blocking P" "\<exists>c. fst x = Blocked c" using st by auto
qed

lemma living_over:
  assumes "living P R T w s" and "runnableReady s = {}" and "timerQueue s = []" and "\<not> blocking P"
  shows "quiet w s" "\<And>r. r \<in> R \<Longrightarrow> finished w r"
proof -
  note L = livingD [OF assms(1)]
  have T: "T r = None" for r using living_blocked(1) [OF assms(1-3), of r] assms(4) by (cases "T r") blast+
  show "finished w r" if "r \<in> R" for r using L(8) [OF that T] .
  have "processInfoMap h = Map.empty" "syscallMap h = Map.empty" if m: "modules w i = Some (HostM h)" for i h
    using accountedD(3,4) [OF L(7) m] T by (fastforce intro: ext)+
  then show "quiet w s" using assms(2,3) L(1) by (auto simp: quiet_def)
qed

lemma living_top_due:
  assumes "living P R T w s" and "timerQueue s \<noteq> []"
  shows "unat (top_wakeup s) \<le> deadline P"
proof -
  note L = livingD [OF assms(1)]
  have "hd (timerQueue s) \<in> dom (containers s)" using L(1) assms(2) by (simp add: sys_inv_def)
  from accountedD(2) [OF L(7) this] obtain r x where x: "T r = Some x" "hd (timerQueue s) \<in> stage_msgs (fst x)" by blast
  obtain a h where "stage_ok P s r a h x" using L(6) [OF x(1)] unfolding at_stage_def by blast
  from stage_okD_msgs [OF this x(2)] show ?thesis by (auto simp: top_wakeup_def)
qed

lemma living_run:
  assumes "living P R T w s" and "enumerates ord" and "work T < N" and "till = 0 \<or> deadline P \<le> unat till" and "patience P \<le> f"
  shows "\<exists>T' w' s'. run ord (net_callbacks (Suc f)) N till (w, s) = Some (Inr (w', s')) \<and> living P R T' w' s' \<and>
    runnableReady s' = {} \<and> timerQueue s' = [] \<and> work T' \<le> work T"
proof -
  have "lively P R f (work T) w s" using assms(1,5) by (auto simp: lively_def)
  from sleepers.run_ends [OF this assms(2,3), of till] obtain m w' s' where
    run: "run ord (net_callbacks (Suc f)) N till (w, s) = Some (Inr (w', s'))" and m: "m \<le> work T" "lively P R f m w' s'" and
    over: "runnableReady s' = {}" "timerQueue s' = [] \<or> till \<noteq> 0 \<and> top_wakeup s' > till" by blast
  from m obtain T' where T': "living P R T' w' s'" "work T' \<le> work T" by (auto simp: lively_def)
  have "timerQueue s' = []"
  proof (rule ccontr)
    assume ne: "timerQueue s' \<noteq> []"
    then have "till \<noteq> 0" "unat till < unat (top_wakeup s')" using over(2) by (simp_all add: word_less_nat_alt)
    then show False using living_top_due [OF T'(1) ne] assms(4) by simp
  qed
  with run T' over(1) show ?thesis by blast
qed

abbreviation launch_all :: "(runnable \<times> ModuleID \<times> prog) list \<Rightarrow> world \<times> net \<Rightarrow> (world \<times> net) result" where
  "launch_all \<equiv> foldE (\<lambda>(r, i, p). launch r i p)"

lemma living_launch_all:
  assumes "living P R T w s" and "distinct (map fst ls)" and "\<And>r i p. (r, i, p) \<in> set ls \<Longrightarrow> T r = None \<and> serving P w s i \<and> ends P p n d"
    and "unat (currentTime s) + d \<le> deadline P" and "card (dom T) + length ls \<le> nat MAX_PID" and "uuids_ok (work T + length ls * (3 * n + 2)) s"
  shows "\<exists>T' w' s'. launch_all ls (w, s) = Inr (w', s') \<and> living P (R \<union> fst ` set ls) T' w' s' \<and>
    work T' = work T + length ls * (3 * n + 2)"
  using assms
proof (induction ls arbitrary: R T w s)
  case (Cons l ls)
  obtain r i p where l: "l = (r, i, p)" by (cases l) auto
  have first: "T r = None" "serving P w s i" "ends P p n d" using Cons.prems(3) l by auto
  have "uuids_ok (work T + (3 * n + 2)) s" "card (dom T) < nat MAX_PID" using Cons.prems(5,6) by (simp_all add: uuids_ok_def)
  with living_launch [OF Cons.prems(1) first Cons.prems(4)] obtain w1 s1 where
    one: "launch r i p (w, s) = Inr (w1, s1)" "living P (insert r R) (T(r \<mapsto> (Waking, n, d))) w1 s1"
      "\<And>j. serving P w s j \<Longrightarrow> serving P w1 s1 j" "currentTime s1 = currentTime s" "currentUUID s1 = currentUUID s"
      "dom (containers s1) = dom (containers s)" by blast
  let ?T = "T(r \<mapsto> (Waking, n, d))"
  have fin: "finite (dom T)" using livingD(2) [OF Cons.prems(1)] .
  have work: "work ?T = work T + (3 * n + 2)" using work_upd [OF fin, of r "Some (Waking, n, d)"] first(1) by simp
  have "card (dom ?T) = Suc (card (dom T))" using fin first(1) by (simp add: domIff)
  then have pids: "card (dom ?T) + length ls \<le> nat MAX_PID" using Cons.prems(5) by simp
  have ids: "uuids_ok (work ?T + length ls * (3 * n + 2)) s1"
    using Cons.prems(6) one(5,6) unfolding uuids_ok_def work by (simp add: algebra_simps)
  have rest: "?T q = None \<and> serving P w1 s1 j \<and> ends P p' n d" if "(q, j, p') \<in> set ls" for q j p'
  proof -
    have "q \<noteq> r" using that Cons.prems(2) l by force
    then show ?thesis using that Cons.prems(3) [of q j p'] one(3) by simp
  qed
  have time: "unat (currentTime s1) + d \<le> deadline P" using one(4) Cons.prems(4) by simp
  have "distinct (map fst ls)" using Cons.prems(2) by simp
  from Cons.IH [OF one(2) this rest time pids ids] obtain T' w' s' where "launch_all ls (w1, s1) = Inr (w', s')" "living P (insert r R \<union> fst ` set ls) T' w' s'"
      "work T' = work ?T + length ls * (3 * n + 2)" by blast
  moreover have "insert r R \<union> fst ` set ls = R \<union> fst ` set (l # ls)" by (auto simp: l)
  ultimately show ?case using one(1) work
    by (intro exI [of _ T'] exI [of _ w'] exI [of _ s']) (simp add: l)
qed auto

text \<open>The sleeping calls of \<^verbatim>\<open>TCPApplication\<close>.\<close>

lemma ends_tcp_nsleep:
  assumes "unat t \<le> d" and "\<And>v now m. ends P (k v now m) n (d - unat t)"
  shows "ends P (tcp_nsleep t k) (Suc n) d"
  unfolding tcp_nsleep_def make_param_def max_param_def
  by (rule ends.sleeps [of _ t "Ptr 0" "Ptr 0"]) (use assms in \<open>simp_all add: numeral_eq_Suc\<close>)

lemma ends_tcp_socket:
  assumes "blocking P" and "\<And>now m. gives_up (k (- 1) now m) (patience P)"
  shows "ends P (tcp_socket AF_INET ty IPPROTO_TCP k) (Suc n) d"
  unfolding tcp_socket_def make_param_def max_param_def
  by (rule ends.blocks) (use assms in \<open>simp_all add: opens_socket_def\<close>)

text \<open>Launching on a quiet network and the first run.\<close>

definition plan_of :: "bool \<Rightarrow> nat \<Rightarrow> nat \<Rightarrow> world \<Rightarrow> net \<Rightarrow> plan" where
  "plan_of b g d w s = \<lparr>blocking = b, patience = g, deadline = unat (currentTime s) + d, view = host_view w\<rparr>"

lemma plan_of_simps [simp]:
  "blocking (plan_of b g d w s) = b" "patience (plan_of b g d w s) = g" "deadline (plan_of b g d w s) = unat (currentTime s) + d"
  "view (plan_of b g d w s) = host_view w"
  by (simp_all add: plan_of_def)

lemma launched_run:
  assumes "quiet w s" and "distinct (map fst ls)"
    and "\<And>r i p. (r, i, p) \<in> set ls \<Longrightarrow> serving (plan_of b g d w s) w s i \<and> ends (plan_of b g d w s) p n d"
    and "length ls \<le> 65536" and "unat (currentTime s) + d < 2 ^ 64" and "unat (currentUUID s) + length ls * (3 * n + 2) < 2 ^ 64"
    and "enumerates ord" and "length ls * (3 * n + 2) < N" and "till = 0 \<or> unat (currentTime s) + d \<le> unat till" and "g \<le> f"
  shows "\<exists>w1 s1 T' w' s'. launch_all ls (w, s) = Inr (w1, s1) \<and> run ord (net_callbacks (Suc f)) N till (w1, s1) = Some (Inr (w', s')) \<and>
    living (plan_of b g d w s) (fst ` set ls) T' w' s' \<and> runnableReady s' = {} \<and> timerQueue s' = [] \<and> work T' < N"
proof -
  let ?P = "plan_of b g d w s"
  have none: "card (dom (Map.empty :: tokens)) + length ls \<le> nat MAX_PID" using assms(4) by (simp add: MAX_PID_def)
  have ids: "uuids_ok (work Map.empty + length ls * (3 * n + 2)) s"
    using assms(6) quiet_containers [OF assms(1)] by (simp add: uuids_ok_def work_def)
  have "living ?P {} Map.empty w s" by (rule quiet_living [OF assms(1)]) (use assms(5) in simp_all)
  from living_launch_all [OF this assms(2) _ _ none ids, of d] assms(3) obtain T' w1 s1 where
    l: "launch_all ls (w, s) = Inr (w1, s1)" "living ?P (fst ` set ls) T' w1 s1" "work T' = length ls * (3 * n + 2)"
    by (auto simp: work_def)
  have "work T' < N" using l(3) assms(8) by simp
  with living_run [OF l(2) assms(7) this, of till f] assms(9,10) l(1) show ?thesis by fastforce
qed

lemma launched_finish:
  assumes "quiet w s" and "distinct (map fst ls)"
    and "\<And>r i p. (r, i, p) \<in> set ls \<Longrightarrow> serving (plan_of False g d w s) w s i \<and> ends (plan_of False g d w s) p n d"
    and "length ls \<le> 65536" and "unat (currentTime s) + d < 2 ^ 64" and "unat (currentUUID s) + length ls * (3 * n + 2) < 2 ^ 64"
    and "enumerates ord" and "length ls * (3 * n + 2) < N" and "till = 0 \<or> unat (currentTime s) + d \<le> unat till" and "g \<le> f"
  shows "\<exists>w1 s1 w' s'. launch_all ls (w, s) = Inr (w1, s1) \<and> run ord (net_callbacks (Suc f)) N till (w1, s1) = Some (Inr (w', s')) \<and>
    quiet w' s' \<and> unat (currentTime s') \<le> unat (currentTime s) + d \<and> (\<forall>(r, i, p) \<in> set ls. finished w' r) \<and>
    host_view w' = host_view w"
proof -
  from launched_run [OF assms(1,2) _ assms(4-10), of False] assms(3) obtain w1 s1 T' w' s' where
    l: "launch_all ls (w, s) = Inr (w1, s1)" "run ord (net_callbacks (Suc f)) N till (w1, s1) = Some (Inr (w', s'))" and
    T': "living (plan_of False g d w s) (fst ` set ls) T' w' s'" and over: "runnableReady s' = {}" "timerQueue s' = []" by blast
  have "\<forall>(r, i, p) \<in> set ls. finished w' r" using living_over(2) [OF T' over] by force
  with l living_over(1) [OF T' over] livingD(5,9) [OF T'] show ?thesis by auto
qed

section \<open>Properties\<close>

text \<open>C4. Applications finish. On a network where nothing is queued and no process runs, let any number of applications
  (up to the 65536 process identifiers) be launched on hosts that are running, each of which makes at most \<open>n\<close> calls of
  \<^verbatim>\<open>nsleep\<close> of at most \<open>d\<close> nanoseconds in all and then returns. They are launched without an error, and a run whose limit, if
  it has one, is not earlier than \<open>d\<close> from now returns; at most \<open>d\<close> nanoseconds have passed; every application has terminated;
  nothing is queued, no process and no pending call is left on any host, and no host has lost a module, a port or a route.\<close>

theorem applications_finish:
  assumes "quiet w s" and "distinct (map fst ls)" and "\<forall>(r, i, p) \<in> set ls. serving (plan_of False 0 d w s) w s i \<and> ends (plan_of False 0 d w s) p n d"
    and "length ls \<le> 65536" and "unat (currentTime s) + d < 2 ^ 64" and "unat (currentUUID s) + length ls * (3 * n + 2) < 2 ^ 64"
    and "enumerates ord" and "length ls * (3 * n + 2) < N" and "till = 0 \<or> unat (currentTime s) + d \<le> unat till"
  shows "\<exists>w1 s1 w' s'. launch_all ls (w, s) = Inr (w1, s1) \<and> run ord (net_callbacks (Suc f)) N till (w1, s1) = Some (Inr (w', s')) \<and>
    quiet w' s' \<and> unat (currentTime s') \<le> unat (currentTime s) + d \<and> (\<forall>(r, i, p) \<in> set ls. finished w' r) \<and>
    host_view w' = host_view w"
  by (rule launched_finish [OF assms(1,2) _ assms(4-9), of 0]) (use assms(3) in blast)+

definition demo_host_net :: "world \<times> net" where
  "demo_host_net =
     ((fst NetworkSystem_new)\<lparr>modules := [1 \<mapsto> HostM (bare_host [])], next_module_id := 2\<rparr>,
      initial_system\<lparr>registeredModule := {1}\<rparr>)"

theorem applications_finish_witness:
  "\<exists>w1 s1 w' s'. launch_all [(7, 1, tcp_nsleep 5 (\<lambda>v now m. tcp_nsleep 9 (\<lambda>v now m. Exit v))), (8, 1, Exit 0)] demo_host_net = Inr (w1, s1) \<and>
     run sorted_list_of_set (net_callbacks 1) 100 0 (w1, s1) = Some (Inr (w', s')) \<and> timerQueue s' = [] \<and>
     unat (currentTime s') \<le> 14 \<and> finished w' 7 \<and> finished w' 8"
proof -
  let ?p = "tcp_nsleep 5 (\<lambda>v now m. tcp_nsleep 9 (\<lambda>v now m. Exit v))"
  let ?w = "fst demo_host_net" and ?s = "snd demo_host_net"
  let ?P = "plan_of False 0 14 ?w ?s"
  have h: "host_serves ?P (bare_host [])" "running (bare_host [])" "processInfoMap (bare_host []) = Map.empty" "syscallMap (bare_host []) = Map.empty"
    by (simp_all add: host_serves_def bare_host_def MAX_PID_def)
  have q: "quiet ?w ?s" using initial_system_inv h(3,4)
    by (simp add: quiet_def demo_host_net_def initial_system_def sys_inv_def split: if_splits)
  have "ends ?P ?p 2 14" unfolding numeral_2_eq_2 by (intro ends_tcp_nsleep ends.exits) simp_all
  moreover have "serving ?P ?w ?s 1" using h(1,2) by (simp add: serving_def demo_host_net_def)
  ultimately have ls: "\<forall>(r, i, p) \<in> set [(7, 1, ?p), (8, 1, Exit 0)]. serving ?P ?w ?s i \<and> ends ?P p 2 14"
    using ends.exits by simp
  have now: "unat (currentTime ?s) = 0" "unat (currentUUID ?s) = 0" by (simp_all add: demo_host_net_def initial_system_def)
  obtain w1 s1 w' s' where "launch_all [(7, 1, ?p), (8, 1, Exit 0)] (?w, ?s) = Inr (w1, s1)"
      "run sorted_list_of_set (net_callbacks (Suc 0)) 100 0 (w1, s1) = Some (Inr (w', s'))" "quiet w' s'" "unat (currentTime s') \<le> 14"
      "\<forall>(r, i, p) \<in> set [(7, 1, ?p), (8, 1, Exit 0)]. finished w' r"
    using applications_finish [OF q _ ls _ _ _ enumerates_sorted, of 100 0 0] now by auto
  then show ?thesis
    unfolding prod.collapse by (intro exI [of _ w1] exI [of _ s1] exI [of _ w'] exI [of _ s']) (simp add: quiet_def)
qed

end
