(* ===== verification/Fresh_Networks.thy ===== *)
theory Fresh_Networks
  imports App_Lifetime
begin

text \<open>
  Networks that have been built and have run nothing: every operation with which the tests build and configure a network
  keeps it fresh, and a fresh network is quiet, so that the theorems on the life of applications apply to it.
\<close>

section \<open>Networks under construction\<close>

text \<open>A host that has been built and configured and has run nothing.\<close>

definition fresh_host :: "host \<Rightarrow> bool" where
  "fresh_host h \<longleftrightarrow> interfaceMap h (0, 0) = Some DefaultIface \<and> timerModuleMap h ''DefaultSyscall'' = Some DefaultTimer \<and>
     0 \<le> pidStart h \<and> pidStart h < MAX_PID \<and> running h \<and> processInfoMap h = Map.empty \<and> syscallMap h = Map.empty"

definition fresh_net :: "world \<times> net \<Rightarrow> bool" where
  "fresh_net st \<longleftrightarrow> (\<forall>i h. modules (fst st) i = Some (HostM h) \<longrightarrow> fresh_host h \<and> i \<in> registeredModule (snd st)) \<and>
     (\<exists>R. snd st = initial_system\<lparr>registeredModule := R\<rparr>)"

definition keeps_fresh :: "(host \<Rightarrow> host result) \<Rightarrow> bool" where
  "keeps_fresh f \<longleftrightarrow> (\<forall>h h'. f h = Inr h' \<longrightarrow> fresh_host h \<longrightarrow> fresh_host h')"

text \<open>What \<^verbatim>\<open>addHostModule\<close> may change: entries are added to the maps of modules.\<close>

definition adds_modules :: "(host \<Rightarrow> host result) \<Rightarrow> bool" where
  "adds_modules f \<longleftrightarrow> (\<forall>h h'. f h = Inr h' \<longrightarrow> hostModuleMap h \<subseteq>\<^sub>m hostModuleMap h' \<and> timerModuleMap h \<subseteq>\<^sub>m timerModuleMap h' \<and>
     interfaceMap h \<subseteq>\<^sub>m interfaceMap h' \<and> running h' = running h \<and> pidStart h' = pidStart h \<and>
     processInfoMap h' = processInfoMap h \<and> syscallMap h' = syscallMap h)"

lemma insert_new_le: "insert_new x m = Inr m' \<Longrightarrow> m \<subseteq>\<^sub>m m'"
  by (auto simp: insert_new_def result_simps map_le_def split: option.splits)

lemma adds_addHostModule: "adds_modules (addHostModule c)"
  unfolding adds_modules_def by (auto simp: addHostModule_def result_simps dest: insert_new_le)

lemma adds_TCPAssignment: "adds_modules TCPAssignmentProvider_allocate"
  using adds_addHostModule [of TCPAssignmentC] by (simp add: adds_modules_def TCPAssignmentProvider_allocate_def)

lemma adds_keeps_fresh:
  assumes "adds_modules f"
  shows "keeps_fresh f"
  unfolding keeps_fresh_def
proof (intro allI impI)
  fix h h' assume f: "f h = Inr h'" "fresh_host h"
  have le: "timerModuleMap h \<subseteq>\<^sub>m timerModuleMap h'" "interfaceMap h \<subseteq>\<^sub>m interfaceMap h'" and
    eq: "running h' = running h" "pidStart h' = pidStart h" "processInfoMap h' = processInfoMap h" "syscallMap h' = syscallMap h"
    using assms f(1) unfolding adds_modules_def by blast+
  have "timerModuleMap h' ''DefaultSyscall'' = Some DefaultTimer" "interfaceMap h' (0, 0) = Some DefaultIface"
    using le f(2) by (auto simp: fresh_host_def map_le_def dom_def)
  with f(2) eq show "fresh_host h'" by (simp add: fresh_host_def)
qed

lemma keeps_fresh_routing: "keeps_fresh (on_routing f)"
  by (auto simp: keeps_fresh_def on_routing_def fresh_host_def)

lemma keeps_fresh_initialize: "keeps_fresh (initializeHostModule name)"
  by (auto simp: keeps_fresh_def initializeHostModule_def split: if_splits)

lemma fresh_Host_new: "Host_new = Inr h \<Longrightarrow> fresh_host h"
  by (auto simp: Host_new_def addHostModule_def insert_new_def fresh_host_def MAX_PID_def)

lemma fresh_NetworkSystem_new: "fresh_net NetworkSystem_new"
  by (simp add: fresh_net_def NetworkSystem_new_def initial_system_def)

lemma fresh_with_host:
  assumes "with_host i f st = Inr st'" and "keeps_fresh f" and "fresh_net st"
  shows "fresh_net st'"
  using assms by (cases st) (auto simp: with_host_def result_simps fresh_net_def keeps_fresh_def split: option.splits modul.splits if_splits)

lemma fresh_with_switch: "with_switch i f st = Inr st' \<Longrightarrow> fresh_net st \<Longrightarrow> fresh_net st'"
  by (cases st) (auto simp: with_switch_def result_simps fresh_net_def split: option.splits modul.splits if_splits)

lemma fresh_addModule:
  assumes "net_addModule m st = Inr (i, st')" and "fresh_net st" and "\<And>h. m = HostM h \<Longrightarrow> fresh_host h"
  shows "fresh_net st'"
  using assms by (cases st) (auto simp: net_addModule_def addModule_def Let_def fresh_net_def initial_system_def split: if_splits)

lemma fresh_connectWire:
  assumes "net_connectWire i wid w = Inr (p, w')" and "fresh_net (w, s)"
  shows "fresh_net (w', s)"
proof -
  have "modules w' j = modules w j \<or> (\<exists>h. modules w j = Some (HostM h) \<and> modules w' j = Some (HostM (snd (host_connectWire wid h)))) \<or>
      (\<forall>h. modules w' j \<noteq> Some (HostM h))" for j
    using assms(1) by (auto simp: net_connectWire_def Let_def split: option.splits modul.splits prod.splits if_splits)
  moreover have "fresh_host h \<Longrightarrow> fresh_host (snd (host_connectWire wid h))" for h
    by (simp add: host_connectWire_def fresh_host_def)
  ultimately show ?thesis using assms(2) unfolding fresh_net_def by (metis fst_conv modul.inject(4) option.inject snd_conv)
qed

lemma fresh_addHost: "addHost st = Inr (i, st') \<Longrightarrow> fresh_net st \<Longrightarrow> fresh_net st'"
  by (auto simp: addHost_def result_simps dest: fresh_Host_new intro: fresh_addModule)

lemma fresh_addSwitch: "addSwitch g g' b st = Inr (i, st') \<Longrightarrow> fresh_net st \<Longrightarrow> fresh_net st'"
  by (auto simp: addSwitch_def intro: fresh_addModule)

lemma fresh_addWire:
  assumes "addWire l r pd bps b st = Inr (i, p, q, st')" and "fresh_net st"
  shows "fresh_net st'"
proof -
  obtain w1 w2 w3 s where "net_addModule (WireM (Wire_new l r pd bps b (snd st))) st = Inr (i, w1, s)" "net_connectWire l i w1 = Inr (p, w2)"
    "net_connectWire r i w2 = Inr (q, w3)" "st' = (w3, s)"
    using assms(1) by (auto simp: addWire_def result_simps)
  with fresh_addModule [OF _ assms(2)] show ?thesis by (blast intro: fresh_connectWire)
qed

lemmas fresh_intros = fresh_with_host fresh_with_switch fresh_addHost fresh_addSwitch fresh_addWire keeps_fresh_routing keeps_fresh_initialize
  adds_keeps_fresh adds_addHostModule

lemma fresh_perform:
  assumes "perform fs st = Inr st'" and "fresh_net st" and "\<And>f st st'. f \<in> set fs \<Longrightarrow> f st = Inr st' \<Longrightarrow> fresh_net st \<Longrightarrow> fresh_net st'"
  shows "fresh_net st'"
  using assms(1,2) by (rule foldE_preserves) (use assms(3) in blast)

lemma fresh_quiet: "fresh_net (w, s) \<Longrightarrow> quiet w s"
  using initial_system_inv by (auto simp: fresh_net_def quiet_def fresh_host_def initial_system_def sys_inv_def)

lemma fresh_serving:
  assumes "fresh_net (w, s)" and "modules w i = Some (HostM h)" and "blocking P \<Longrightarrow> interfaceMap h (AF_INET, IPPROTO_TCP) = Some TCPIface"
  shows "serving P w s i"
proof -
  have "fresh_host h" "i \<in> registeredModule s" using assms(1,2) by (auto simp: fresh_net_def)
  then show ?thesis using assms(2,3) by (auto simp: fresh_host_def serving_def host_serves_def)
qed

end
