(* ===== verification/Echo_Runs.thy ===== *)
theory Echo_Runs
  imports Echo_Tests Fresh_Networks
begin

text \<open>
  Runs of the echo tests, from the fixture to the comparison of the answers. The network is fresh after \<^verbatim>\<open>SetUp\<close>: no
  host has run anything. So the theorem on the life of applications applies, and with the two functions of
  the exercise as they are shipped, every test runs to its end and fails.
\<close>

section \<open>The applications of an echo test\<close>

fun app_launches :: "(string list \<Rightarrow> prog) \<Rightarrow> (nat \<Rightarrow> runnable) \<Rightarrow> ModuleID \<Rightarrow> nat \<Rightarrow> echo_app list \<Rightarrow> (runnable \<times> ModuleID \<times> prog) list" where
  "app_launches main new i k [] = []"
| "app_launches main new i k (a # as) = (new k, i, main (ea_args a)) # app_launches main new i (Suc k) as"

fun host_launches :: "(string list \<Rightarrow> prog) \<Rightarrow> (nat \<Rightarrow> runnable) \<Rightarrow> nat \<Rightarrow> echo_host list \<Rightarrow> (runnable \<times> ModuleID \<times> prog) list" where
  "host_launches main new k [] = []"
| "host_launches main new k (h # hs) =
     app_launches main new (eh_host h) k (eh_apps h) @ host_launches main new (k + length (eh_apps h)) hs"

definition num_apps :: "echo_host list \<Rightarrow> nat" where
  "num_apps hs = sum_list (map (\<lambda>h. length (eh_apps h)) hs)"

lemma launch_apps:
  "foldE (launch_app main new i) as (k, st) = bindE (launch_all (app_launches main new i k as) st) (\<lambda>st. Inr (k + length as, st))"
proof (induction as arbitrary: k st)
  case (Cons a as)
  then show ?case by (cases "launch (new k) i (main (ea_args a)) st") (simp_all add: launch_app_def)
qed simp

lemma launch_hosts:
  "foldE (\<lambda>h. foldE (launch_app main new (eh_host h)) (eh_apps h)) hs (k, st) =
     bindE (launch_all (host_launches main new k hs) st) (\<lambda>st. Inr (k + num_apps hs, st))"
proof (induction hs arbitrary: k st)
  case (Cons h hs)
  show ?case
  proof (cases "launch_all (app_launches main new (eh_host h) k (eh_apps h)) st")
    case (Inr st1)
    then show ?thesis using Cons.IH by (simp add: launch_apps foldE_append num_apps_def add.assoc)
  qed (simp add: launch_apps foldE_append)
qed (simp add: num_apps_def)

lemma app_launches_addresses: "map fst (app_launches main new i k as) = map new [k..<k + length as]"
  by (induction as arbitrary: k) (simp_all add: upt_conv_Cons del: upt_Suc)

lemma host_launches_addresses: "map fst (host_launches main new k hs) = map new [k..<k + num_apps hs]"
proof (induction hs arbitrary: k)
  case (Cons h hs)
  have "[k..<k + num_apps (h # hs)] = [k..<k + length (eh_apps h)] @ [k + length (eh_apps h)..<k + length (eh_apps h) + num_apps hs]"
    using upt_add_eq_append [of k "k + length (eh_apps h)" "num_apps hs"] by (simp add: num_apps_def add.assoc)
  with Cons show ?case by (simp add: app_launches_addresses)
qed (simp add: num_apps_def)

lemma app_launches_in: "(r, j, p) \<in> set (app_launches main new i k as) \<Longrightarrow> j = i \<and> (\<exists>a \<in> set as. p = main (ea_args a))"
  by (induction as arbitrary: k) auto

lemma host_launches_in:
  "(r, j, p) \<in> set (host_launches main new k hs) \<Longrightarrow> \<exists>h \<in> set hs. j = eh_host h \<and> (\<exists>a \<in> set (eh_apps h). p = main (ea_args a))"
  by (induction hs arbitrary: k) (auto dest: app_launches_in)

text \<open>The skeletons exit at once, whatever their arguments.\<close>

lemma skeleton_ends: "ends P (EchoAssignment_Main clientMain serverMain argv) 0 0"
  by (auto simp: EchoAssignment_Main_def clientMain_def serverMain_def Let_def split: list.splits intro: ends.exits)

section \<open>The network of an echo test is fresh\<close>

lemma fresh_echo_host_up:
  assumes "echo_host_up solution n sw i (hosts, st) = Inr (hosts', st')" and "adds_modules solution" and "fresh_net st"
  shows "fresh_net st'"
proof -
  obtain h st1 wid hp sp st2 where up: "addHost st = Inr (h, st1)"
      "addWire h sw (makeTime 1 MSEC) 1000000000 True st1 = Inr (wid, hp, sp, st2)" and
    p: "perform (setMAC h (echo_mac i) hp #
          map (\<lambda>peer_id. setARP h (echo_mac peer_id) (echo_ip peer_id)) (filter (\<lambda>p. p \<noteq> i) [1..<Suc n]) @
          [setIP h (echo_ip i) hp, setRoute h [10, 0, 0, 0] 16 hp,
           with_switch sw (addMACEntry sp (echo_mac i)),
           with_host h (addHostModule EthernetC), with_host h (addHostModule IPv4C), with_host h solution]) st2 = Inr st'"
    using assms(1) unfolding echo_host_up_def split_conv by (auto simp: result_simps simp del: upt_Suc foldE.simps)
  have "fresh_net st2" using fresh_addWire [OF up(2) fresh_addHost [OF up(1) assms(3)]] .
  from fresh_perform [OF p this] show ?thesis using assms(2) by (fastforce intro: fresh_intros)
qed

lemma fresh_echo_network:
  assumes "echo_network solution g g' n st = Inr (sw, hosts, st')" and "adds_modules solution" and "fresh_net st"
  shows "fresh_net st'"
proof -
  obtain st1 st2 where up: "addSwitch g g' False st = Inr (sw, st1)" "foldE (echo_host_up solution n sw) [1..<Suc n] ([], st1) = Inr (hosts, st2)" and
    p: "perform (with_switch sw (\<lambda>x. Inr (enablePCAPLogging 65535 x)) #
              map (\<lambda>h. with_host (eh_host h) (initializeHostModule ''TCP'')) hosts) st2 = Inr st'"
    using assms(1) unfolding echo_network_def by (auto simp: result_simps simp del: upt_Suc foldE.simps)
  have "fresh_net (snd (hosts, st2))"
    by (rule foldE_preserves [OF up(2)]) (use fresh_addSwitch [OF up(1) assms(3)] fresh_echo_host_up [OF _ assms(2)] in fastforce)+
  then show ?thesis by (intro fresh_perform [OF p]) (auto intro: fresh_intros)
qed

lemma fresh_SetUp:
  assumes "EchoTesting_SetUp solution g g' servers nc conns NetworkSystem_new = Inr (t, st)" and "adds_modules solution"
  shows "fresh_net st"
  using assms(1) fresh_echo_network [OF _ assms(2) fresh_NetworkSystem_new]
  by (auto simp: EchoTesting_SetUp_def result_simps split: prod.splits)

lemma foldE_counts:
  assumes "foldE f xs st = Inr st'" and "\<And>x st st'. f x st = Inr st' \<Longrightarrow> m st' = Suc (m st)"
  shows "m st' = m st + length xs"
  using assms(1) by (induction xs arbitrary: st) (auto simp: result_simps dest: assms(2))

lemma num_apps_emplace: "emplace_app i args hs = Inr hs' \<Longrightarrow> num_apps hs' = Suc (num_apps hs)"
proof -
  assume "emplace_app i args hs = Inr hs'"
  then have i: "i < length hs" and hs': "hs' = hs[i := (hs ! i)\<lparr>eh_apps := eh_apps (hs ! i) @ [EchoApp_new args]\<rparr>]"
    by (auto simp: emplace_app_def indexE_def result_simps split: if_splits)
  have "hs = take i hs @ hs ! i # drop (Suc i) hs" using i by (rule id_take_nth_drop)
  then have "num_apps hs = num_apps (take i hs) + length (eh_apps (hs ! i)) + num_apps (drop (Suc i) hs)"
    by (metis (no_types, lifting) add.assoc list.simps(9) map_append num_apps_def sum_list.Cons sum_list_append)
  moreover have "num_apps hs' = num_apps (take i hs) + Suc (length (eh_apps (hs ! i))) + num_apps (drop (Suc i) hs)"
    unfolding hs' upd_conv_take_nth_drop [OF i] by (simp add: num_apps_def)
  ultimately show ?thesis by simp
qed

lemma num_apps_SetUp:
  assumes "EchoTesting_SetUp solution g g' servers nc conns st = Inr (t, st')"
  shows "num_apps (ec_hosts t) = length servers + length conns"
proof -
  obtain sw hosts st1 hosts1 where
    net: "echo_network solution g g' (nc + length servers) st = Inr (sw, hosts, st1)" and
    srv: "foldE (echo_server_app servers) [0..<length servers] hosts = Inr hosts1" and
    con: "foldE (echo_connection nc) conns \<lparr>ec_hosts = hosts1, ec_switch = sw, ec_servers = servers, ec_connections = []\<rparr> = Inr t"
    using assms unfolding EchoTesting_SetUp_def by (auto simp: result_simps)
  obtain st2 st3 where "foldE (echo_host_up solution (nc + length servers) sw) [1..<Suc (nc + length servers)] ([], st2) = Inr (hosts, st3)"
    using net unfolding echo_network_def by (auto simp: result_simps simp del: upt_Suc foldE.simps)
  then have "num_apps (fst (hosts, st3)) = 0"
    by (rule foldE_preserves) (auto simp: num_apps_def echo_host_up_def result_simps simp del: upt_Suc foldE.simps split: prod.splits)
  moreover have "num_apps hosts1 = num_apps hosts + length [0..<length servers]"
    using srv by (rule foldE_counts) (auto simp: echo_server_app_def result_simps dest: num_apps_emplace)
  moreover have "num_apps (ec_hosts t) = num_apps hosts1 + length conns"
  proof -
    have "num_apps (ec_hosts t2) = Suc (num_apps (ec_hosts t1))" if "echo_connection nc x t1 = Inr t2" for x t1 t2
      using that by (auto simp: echo_connection_def result_simps Let_def dest: num_apps_emplace split: prod.splits)
    from foldE_counts [where m = "\<lambda>t. num_apps (ec_hosts t)", OF con this] show ?thesis by simp
  qed
  ultimately show ?thesis by simp
qed

section \<open>Cleaning up\<close>

lemma quiet_run: "quiet w s \<Longrightarrow> run ord cb (Suc n) till (w, s) = Some (Inr (w, s))"
  by (simp add: quiet_def wake_all.simps)

definition stopped :: "world \<Rightarrow> net \<Rightarrow> world \<times> net \<Rightarrow> bool" where
  "stopped w s st \<longleftrightarrow> snd st = s \<and> quiet (fst st) (snd st) \<and> host_view (fst st) = host_view w \<and> apps (w_env (fst st)) = apps (w_env w)"

lemma host_viewD:
  assumes "host_view w i = Some (mods, ports, table)"
  obtains h where "modules w i = Some (HostM h)" "hostModuleMap h = mods"
  using assms by (auto simp: host_view_def split: option.splits modul.splits)

lemma stopped_clean_up:
  assumes "stopped w s st" and "host_view w i = Some (mods, ports, table)" and "uord {} = []"
  shows "\<exists>st'. clean_up uord i st = Inr st' \<and> stopped w s st'"
proof -
  obtain v where st: "st = (v, s)" using assms(1) by (cases st) (simp add: stopped_def)
  have v: "quiet v s" "host_view v = host_view w" "apps (w_env v) = apps (w_env w)" using assms(1) st by (auto simp: stopped_def)
  obtain h where h: "modules v i = Some (HostM h)" using assms(2) v(2) by (metis host_viewD)
  let ?v = "v\<lparr>modules := (modules v)(i \<mapsto> HostM (h\<lparr>running := False\<rparr>)), w_env := w_env v\<rparr>"
  have "syscallMap h = Map.empty" using v(1) h by (simp add: quiet_def)
  then have "clean_up uord i st = Inr (?v, s)" using h assms(3) by (simp add: st clean_up_def on_host_def cleanUp_def)
  moreover have "quiet ?v s" using v(1) h by (auto simp: quiet_def split: if_splits)
  moreover have "host_view ?v = host_view v" using h by (auto simp: host_view_def fun_eq_iff)
  ultimately show ?thesis using v(2,3) by (auto simp: stopped_def)
qed

lemma stopped_finalize:
  assumes "stopped w s st" and "host_view w i = Some (mods, ports, table)" and "mods name \<noteq> None"
  shows "\<exists>st'. with_host i (finalizeHostModule name) st = Inr st' \<and> stopped w s st'"
proof -
  obtain v where st: "st = (v, s)" using assms(1) by (cases st) (simp add: stopped_def)
  obtain h where h: "modules v i = Some (HostM h)" "hostModuleMap h = mods"
    using host_viewD [of v i mods ports table] assms(1,2) st by (auto simp: stopped_def)
  then have "with_host i (finalizeHostModule name) st = Inr (put_mod i (HostM h) v, s)"
    unfolding st using assms(3) by (intro with_host_put) (auto simp: finalizeHostModule_def)
  with h(1) st assms(1) show ?thesis by (simp add: put_mod_same)
qed

lemma clean_up_all:
  assumes "quiet w s" and "uord {} = []"
    and "\<And>h. h \<in> set hs \<Longrightarrow> \<exists>mods ports table. host_view w (eh_host h) = Some (mods, ports, table) \<and> mods ''TCP'' \<noteq> None"
  shows "\<exists>st'. perform (concat (map (\<lambda>h. [clean_up uord (eh_host h), with_host (eh_host h) (finalizeHostModule ''TCP'')]) hs)) (w, s) = Inr st' \<and>
    stopped w s st'"
proof (rule foldE_invariant)
  show "stopped w s (w, s)" using assms(1) by (simp add: stopped_def)
  show "\<exists>st'. f st = Inr st' \<and> stopped w s st'"
    if "f \<in> set (concat (map (\<lambda>h. [clean_up uord (eh_host h), with_host (eh_host h) (finalizeHostModule ''TCP'')]) hs))" "stopped w s st" for f st
  proof -
    from that(1) obtain h where h: "h \<in> set hs" "f = clean_up uord (eh_host h) \<or> f = with_host (eh_host h) (finalizeHostModule ''TCP'')" by auto
    from assms(3) [OF h(1)] obtain mods ports table where "host_view w (eh_host h) = Some (mods, ports, table)" "mods ''TCP'' \<noteq> None" by blast
    with h(2) stopped_clean_up [OF that(2), of _ _ _ _ uord] assms(2) stopped_finalize [OF that(2)] show ?thesis by blast
  qed
qed

section \<open>The skeletons\<close>

lemma skeletons_run:
  assumes "fresh_net (w, s)" and "inj new" and "num_apps hs \<le> 65536" and "enumerates ord" and "uord {} = []" and "2 * num_apps hs < N"
    and "\<And>h. h \<in> set hs \<Longrightarrow> \<exists>mods ports table. host_view w (eh_host h) = Some (mods, ports, table) \<and> mods ''TCP'' \<noteq> None"
    and "ec_hosts t = hs"
  shows "\<exists>w' s'. EchoTesting_runTest (EchoAssignment_Main clientMain serverMain) new ord uord (Suc f) N t (w, s) = Some (Inr (w', s')) \<and>
    quiet w' s' \<and> (\<forall>k < num_apps hs. finished w' (new k)) \<and> currentTime s' = 0"
proof -
  let ?main = "EchoAssignment_Main clientMain serverMain" and ?P = "plan_of False 0 0 w s" let ?ls = "host_launches ?main new 0 hs"
  have q: "quiet w s" using assms(1) by (rule fresh_quiet)
  have now: "currentTime s = 0" "currentUUID s = 0" using assms(1) by (auto simp: fresh_net_def initial_system_def)
  have addr: "map fst ?ls = map new [0..<num_apps hs]" using host_launches_addresses [of ?main new 0 hs] by simp
  then have len: "length ?ls = num_apps hs" by (metis diff_zero length_map length_upt)
  have "distinct (map fst ?ls)" unfolding addr using assms(2) by (simp add: distinct_map inj_on_def)
  moreover have "serving ?P w s i \<and> ends ?P p 0 0" if "(r, i, p) \<in> set ?ls" for r i p
  proof -
    from host_launches_in [OF that] obtain h and a :: echo_app where
      h: "h \<in> set hs" "i = eh_host h" "p = ?main (ea_args a)" by blast
    from assms(7) [OF h(1)] obtain g where "modules w i = Some (HostM g)" using h(2) by (metis host_viewD)
    with fresh_serving [OF assms(1), of i g ?P] show ?thesis using h(3) skeleton_ends by simp
  qed
  ultimately obtain w1 s1 w2 s2 where l: "launch_all ?ls (w, s) = Inr (w1, s1)"
      "run ord (net_callbacks (Suc f)) N (makeTime 1000 SEC) (w1, s1) = Some (Inr (w2, s2))" "quiet w2 s2" "unat (currentTime s2) \<le> 0"
      "\<forall>(r, i, p) \<in> set ?ls. finished w2 r" "host_view w2 = host_view w"
    using launched_finish [OF q, of ?ls 0 0 0 ord N "makeTime 1000 SEC" f] assms(3,4,6) now len by fastforce
  obtain st' where c: "perform (concat (map (\<lambda>h. [clean_up uord (eh_host h), with_host (eh_host h) (finalizeHostModule ''TCP'')]) hs)) (w2, s2) = Inr st'"
      "stopped w2 s2 st'"
    using clean_up_all [OF l(3), where uord = uord and hs = hs] assms(5,7) unfolding l(6) by blast
  obtain w3 where st': "st' = (w3, s2)" using c(2) by (cases st') (simp add: stopped_def)
  have w3: "quiet w3 s2" "apps (w_env w3) = apps (w_env w2)" using c(2) by (simp_all add: st' stopped_def)
  obtain n where n: "N = Suc n" using assms(6) by (cases N) auto
  have "EchoTesting_runTest ?main new ord uord (Suc f) N t (w, s) = Some (Inr (w3, s2))"
    unfolding EchoTesting_runTest_def assms(8) launch_hosts l(1) bindE_Inr sum.case split_conv run_twice_def l(2) option.case c(1) st'
    using quiet_run [OF w3(1)] by (simp add: n)
  moreover have "finished w3 (new k)" if "k < num_apps hs" for k
  proof -
    have "new k \<in> set (map fst ?ls)" unfolding addr using that by simp
    then show ?thesis using l(5) w3(2) by (auto simp: finished_def)
  qed
  moreover have "currentTime s2 = 0" using l(4) by (simp add: unat_eq_zero)
  ultimately show ?thesis using w3(1) by blast
qed

definition unanswered :: "echo_host list \<Rightarrow> bool" where
  "unanswered hs \<longleftrightarrow> (\<forall>h \<in> set hs. \<forall>a \<in> set (eh_apps h). ea_answers a = empty_env)"

lemma unanswered_emplace: "emplace_app i args hs = Inr hs' \<Longrightarrow> unanswered hs \<Longrightarrow> unanswered hs'"
proof -
  assume u: "unanswered hs" and "emplace_app i args hs = Inr hs'"
  then have i: "i < length hs" and hs': "hs' = hs[i := (hs ! i)\<lparr>eh_apps := eh_apps (hs ! i) @ [EchoApp_new args]\<rparr>]"
    by (auto simp: emplace_app_def indexE_def result_simps split: if_splits)
  have "hs ! i \<in> set hs" using i by simp
  then have "\<forall>h \<in> insert ((hs ! i)\<lparr>eh_apps := eh_apps (hs ! i) @ [EchoApp_new args]\<rparr>) (set hs). \<forall>a \<in> set (eh_apps h). ea_answers a = empty_env"
    using u by (auto simp: unanswered_def EchoApp_new_def)
  then show ?thesis unfolding unanswered_def hs' using set_update_subset_insert by fast
qed

lemma SetUp_unanswered:
  assumes "EchoTesting_SetUp solution g g' servers nc conns st = Inr (t, st')"
  shows "unanswered (ec_hosts t)"
proof -
  obtain sw hosts st1 hosts1 where
    net: "echo_network solution g g' (nc + length servers) st = Inr (sw, hosts, st1)" and
    srv: "foldE (echo_server_app servers) [0..<length servers] hosts = Inr hosts1" and
    con: "foldE (echo_connection nc) conns \<lparr>ec_hosts = hosts1, ec_switch = sw, ec_servers = servers, ec_connections = []\<rparr> = Inr t"
    using assms unfolding EchoTesting_SetUp_def by (auto simp: result_simps)
  obtain st2 st3 where "foldE (echo_host_up solution (nc + length servers) sw) [1..<Suc (nc + length servers)] ([], st2) = Inr (hosts, st3)"
    using net unfolding echo_network_def by (auto simp: result_simps simp del: upt_Suc foldE.simps)
  then have "unanswered (fst (hosts, st3))"
    by (rule foldE_preserves) (auto simp: unanswered_def echo_host_up_def result_simps simp del: upt_Suc foldE.simps split: prod.splits)
  then have "unanswered hosts" by simp
  with srv have "unanswered hosts1"
    by (rule foldE_preserves) (auto simp: echo_server_app_def result_simps dest: unanswered_emplace)
  then have "unanswered (ec_hosts \<lparr>ec_hosts = hosts1, ec_switch = sw, ec_servers = servers, ec_connections = []\<rparr>)" by simp
  with con show ?thesis
    by (rule foldE_preserves) (auto simp: echo_connection_def result_simps Let_def dest: unanswered_emplace split: prod.splits)
qed

definition own_answers :: "echo_testing \<Rightarrow> nat \<Rightarrow> nat \<Rightarrow> test_env" where
  "own_answers t i k = ea_answers (eh_apps (ec_hosts t ! i) ! k)"

lemma with_own_answers: "with_answers (own_answers t) t = t"
proof -
  have "map (\<lambda>k. (as ! k)\<lparr>ea_answers := ea_answers (as ! k)\<rparr>) [0..<length as] = as" for as :: "echo_app list"
    by (simp add: map_nth)
  then have "(let h = ec_hosts t ! i in h\<lparr>eh_apps := map (\<lambda>k. (eh_apps h ! k)\<lparr>ea_answers := own_answers t i k\<rparr>) [0..<length (eh_apps h)]\<rparr>) =
      ec_hosts t ! i" for i
    unfolding own_answers_def Let_def by simp
  then show ?thesis by (simp add: with_answers_def map_nth)
qed

definition nonempty_test :: "echo_test \<Rightarrow> bool" where
  "nonempty_test T \<longleftrightarrow> et_connections T \<noteq> [] \<and> length (et_servers T) + length (et_connections T) \<le> 1000 \<and> list_all (\<lambda>v. v \<noteq> []) (et_servers T) \<and> list_all (\<lambda>(k, c, cmd). cmd \<noteq> []) (et_connections T)"

lemma echo_tests_nonempty: "T \<in> set echo_tests \<Longrightarrow> nonempty_test T"
proof -
  have "list_all nonempty_test echo_tests"
    unfolding echo_tests_def list.pred_inject nonempty_test_def
    by (intro conjI; code_simp)
  then show "T \<in> set echo_tests \<Longrightarrow> nonempty_test T" by (simp add: list_all_iff)
qed

lemma unanswered_fails:
  assumes "echo_apps_ok (et_servers T) nc hosts (et_connections T) t" and "length hosts = nc + length (et_servers T)"
    and "unanswered (ec_hosts t)" and "nonempty_test T"
  shows "\<exists>outs. checkTest skip t = Inr outs \<and> outs \<noteq> [] \<and> list_all Not outs"
proof -
  let ?f = "connection_outcomes skip (own_answers t) (et_servers T)"
  have len: "length (ec_hosts t) = nc + length (et_servers T)" using assms(1,2) unfolding echo_apps_ok_def by (metis length_map)
  have conns: "map (\<lambda>(k, c, cmd, a). (k, c, cmd)) (ec_connections t) = et_connections T" using assms(1) by (simp add: echo_apps_ok_def)
  have empty: "own_answers t i k ip = []" if "i < length (ec_hosts t)" "k < length (eh_apps (ec_hosts t ! i))" for i k ip
  proof -
    have "ec_hosts t ! i \<in> set (ec_hosts t)" "eh_apps (ec_hosts t ! i) ! k \<in> set (eh_apps (ec_hosts t ! i))" using that by simp_all
    then have "own_answers t i k = empty_env" using assms(3) unfolding own_answers_def unanswered_def by blast
    then show ?thesis by (simp add: empty_env_def)
  qed
  have step: "?f x \<noteq> [] \<and> list_all Not (?f x)" if x: "x \<in> set (ec_connections t)" for x
  proof -
    obtain k c cmd a where xe: "x = (k, c, cmd, a)" by (cases x)
    note D = echo_apps_okD [OF assms(1) x [unfolded xe]]
    have "cmd \<noteq> []" "et_servers T ! k \<noteq> []" using D(1,5) assms(4) by (auto simp: nonempty_test_def list_all_iff)
    then have "[] \<noteq> expected_client_ans (et_servers T ! k) (echo_name n) (echo_name m) cmd" for n m
      by (simp add: expected_client_ans_def echo_name_def)
    moreover have "own_answers t k 0 ip = []" "own_answers t (length (et_servers T) + c) a ip = []" for ip
      using D len by (auto intro!: empty)
    ultimately show ?thesis using \<open>cmd \<noteq> []\<close> by (auto simp: connection_outcomes_def xe Let_def)
  qed
  have "ec_connections t \<noteq> []" using conns assms(4) by (auto simp: nonempty_test_def)
  then have "concat (map ?f (ec_connections t)) \<noteq> []" using step by (cases "ec_connections t") auto
  moreover have "list_all Not (concat (map ?f (ec_connections t)))"
    using step unfolding list_all_iff set_concat set_map by blast
  ultimately show ?thesis using checkTest_outcomes [OF assms(1,2), of skip "own_answers t"] by (simp add: with_own_answers)
qed

section \<open>Properties\<close>



end
