(* ===== verification/App_Release.thy ===== *)
theory App_Release
  imports App_Lifetime
begin

text \<open>
  What becomes of applications that are still blocked in a call when the first run of a test ends: \<^verbatim>\<open>cleanUp\<close> of their host
  stops the host and makes the call fail, so that in the second run every further call fails at once and they return.
  The tokens of \<^verbatim>\<open>App_Tokens\<close> are followed through the cleaning up of one host after the other.
\<close>

section \<open>Letting blocked applications go\<close>

text \<open>The network between the two runs of a test, with the hosts \<open>K\<close> cleaned up: the applications of the other hosts are
  blocked, those of the hosts in \<open>K\<close> are ready and have a failed call.\<close>

definition resting :: "plan \<Rightarrow> runnable set \<Rightarrow> ModuleID set \<Rightarrow> tokens \<Rightarrow> world \<Rightarrow> net \<Rightarrow> bool" where
  "resting P R K T w s \<longleftrightarrow> living P R T w s \<and> timerQueue s = [] \<and> (\<forall>i \<in> K. \<exists>h. modules w i = Some (HostM h) \<and> \<not> running h) \<and>
     (\<forall>r x a h. T r = Some x \<longrightarrow> runs_on P w s r a h \<longrightarrow> app_host a \<in> K \<longrightarrow> x = (Waking, 0, 0)) \<and>
     (\<forall>r x a h. T r = Some x \<longrightarrow> runs_on P w s r a h \<longrightarrow> app_host a \<notin> K \<longrightarrow> (\<exists>c. fst x = Blocked c))"

lemma restingD:
  assumes "resting P R K T w s"
  shows "living P R T w s" "timerQueue s = []" "\<And>i. i \<in> K \<Longrightarrow> \<exists>h. modules w i = Some (HostM h) \<and> \<not> running h"
    "\<And>r x a h. T r = Some x \<Longrightarrow> runs_on P w s r a h \<Longrightarrow> app_host a \<in> K \<Longrightarrow> x = (Waking, 0, 0)"
    "\<And>r x a h. T r = Some x \<Longrightarrow> runs_on P w s r a h \<Longrightarrow> app_host a \<notin> K \<Longrightarrow> \<exists>c. fst x = Blocked c"
  using assms unfolding resting_def by blast+

lemma living_resting:
  assumes "living P R T w s" and "runnableReady s = {}" and "timerQueue s = []"
  shows "resting P R {} T w s"
  unfolding resting_def using assms living_blocked(2) [OF assms] by blast

text \<open>The tokens of a host that is not cleaned up are its pending calls.\<close>

lemma resting_call:
  assumes "resting P R K T w s" and "modules w i = Some (HostM h)" and "i \<notin> K" and "syscallMap h u = Some pid"
  obtains r a n d where "blocked_in h u = Some r" "T r = Some (Blocked u, n, d)" "runs_on P w s r a h" "app_host a = i" "in_socket P a"
proof -
  note L = livingD [OF restingD(1) [OF assms(1)]]
  from accountedD(4) [OF L(7) assms(2,4)] obtain r a st n d where
    r: "T r = Some (st, n, d)" "stage_call st = Some u" "apps (w_env w) r = Some a" "app_host a = i" "app_pid a = pid" by fastforce
  obtain b g where b: "runs_on P w s r b g" "stage_ok P s r b g (st, n, d)" using L(6) [OF r(1)] unfolding at_stage_def by blast
  have same: "b = a" "g = h" using runs_onD(1,2) [OF b(1)] r(3,4) assms(2) by simp_all
  obtain c where "st = Blocked c" using restingD(5) [OF assms(1) r(1) b(1)] same(1) r(4) assms(3) by auto
  then have st: "st = Blocked u" using r(2) by simp
  have "blocked_in h u = Some r" using runs_onD(6) [OF b(1)] assms(4) r(5) same by (simp add: blocked_in_def)
  moreover have "in_socket P a" using b(2) st same(1) by simp
  ultimately show thesis using that st r(1,4) b(1) same by blast
qed

lemma resting_token:
  assumes "resting P R K T w s" and "T r = Some x" and "runs_on P w s r a h" and "app_host a \<notin> K"
  obtains u where "blocked_in h u = Some r"
proof -
  note L = livingD [OF restingD(1) [OF assms(1)]]
  obtain c n d where x: "x = (Blocked c, n, d)" using restingD(5) [OF assms] by (cases x) auto
  obtain b g where b: "runs_on P w s r b g" "stage_ok P s r b g x" using L(6) [OF assms(2)] unfolding at_stage_def by blast
  have "b = a" "g = h" using runs_onD(1,2) [OF b(1)] runs_onD(1,2) [OF assms(3)] by simp_all
  then show thesis using that [of c] b(2) runs_onD(6) [OF assms(3)] x by (simp add: blocked_in_def)
qed

lemma resting_calls_wait:
  assumes "resting P R K T w s" and "modules w i = Some (HostM h)" and "i \<notin> K"
  shows "calls_wait h (w_env w)"
proof -
  have "\<exists>r a. blocked_in h u = Some r \<and> apps (w_env w) r = Some a \<and> app_state a = WAITING" if "u \<in> dom (syscallMap h)" for u
  proof -
    from that obtain pid where pid: "syscallMap h u = Some pid" by blast
    obtain r a where "blocked_in h u = Some r" "runs_on P w s r a h" "in_socket P a" by (rule resting_call [OF assms pid])
    then show ?thesis using runs_onD(1) by (auto simp: in_socket_def)
  qed
  moreover have "inj_on (blocked_in h) (dom (syscallMap h))"
  proof (rule inj_onI)
    fix u v assume "u \<in> dom (syscallMap h)" "v \<in> dom (syscallMap h)" and eq: "blocked_in h u = blocked_in h v"
    then obtain p q where "syscallMap h u = Some p" "syscallMap h v = Some q" by blast
    with resting_call [OF assms this(1)] resting_call [OF assms this(2)] eq show "u = v" by (metis option.inject prod.inject stage.inject(3))
  qed
  ultimately show ?thesis unfolding calls_wait_def by blast
qed


text \<open>The world after host \<open>i\<close> has been cleaned up and the applications \<open>G\<close> let go.\<close>

definition cleaned :: "ModuleID \<Rightarrow> host \<Rightarrow> runnable set \<Rightarrow> world \<Rightarrow> world" where
  "cleaned i h G w = w\<lparr>modules := (modules w)(i \<mapsto> HostM (h\<lparr>running := False, syscallMap := Map.empty\<rparr>)), w_env := let_go_all G (w_env w)\<rparr>"

lemma cleaned_simps [simp]:
  "modules (cleaned i h G w) = (modules w)(i \<mapsto> HostM (h\<lparr>running := False, syscallMap := Map.empty\<rparr>))"
  "apps (w_env (cleaned i h G w)) r = (if r \<in> G then map_option let_go (apps (w_env w) r) else apps (w_env w) r)"
  by (simp_all add: cleaned_def let_go_all_def)

lemma let_go_simps [simp]: "app_host (let_go a) = app_host a" "app_pid (let_go a) = app_pid a"
  by (simp_all add: let_go_def)

text \<open>Whether an application runs on a host is not changed by that.\<close>

lemma runs_on_cleaned:
  assumes "modules w i = Some (HostM h)" and "registeredModule s' = registeredModule s"
    and "runs_on P (cleaned i h G w) s' r a' h'"
  obtains a g where "runs_on P w s r a g" "app_host a' = app_host a" "app_pid a' = app_pid a"
    "h' = (if app_host a = i then h\<lparr>running := False, syscallMap := Map.empty\<rparr> else g)" "a' = (if r \<in> G then let_go a else a)"
proof -
  note D = runs_onD [OF assms(3)]
  obtain a where a: "apps (w_env w) r = Some a" "a' = (if r \<in> G then let_go a else a)" using D(1) by (auto split: if_splits)
  then have same: "app_host a' = app_host a" "app_pid a' = app_pid a" by simp_all
  show thesis
  proof (cases "app_host a = i")
    case True
    then have h': "h' = h\<lparr>running := False, syscallMap := Map.empty\<rparr>" using D(2) same by simp
    have "runs_on P w s r a h" unfolding runs_on_def using a(1) True D(3-6) same assms(1,2) h' by (simp add: host_serves_def)
    then show thesis using that True h' same a(2) by metis
  next
    case False
    have "runs_on P w s r a h'" unfolding runs_on_def using a(1) False D same assms(2) by simp
    then show thesis using that False same a(2) by metis
  qed
qed

lemma cleaned_runs_on:
  assumes "modules w i = Some (HostM h)" and "registeredModule s' = registeredModule s" and "runs_on P w s r a g"
  shows "runs_on P (cleaned i h G w) s' r (if r \<in> G then let_go a else a)
    (if app_host a = i then h\<lparr>running := False, syscallMap := Map.empty\<rparr> else g)"
proof -
  have "app_host a = i \<Longrightarrow> g = h" using runs_onD(2) [OF assms(3)] assms(1) by auto
  then show ?thesis using runs_onD [OF assms(3)] assms(2) unfolding runs_on_def by (auto simp: host_serves_def)
qed

text \<open>The tokens after the applications \<open>G\<close> have been let go.\<close>

definition released :: "runnable set \<Rightarrow> tokens \<Rightarrow> tokens" where
  "released G T r = (if r \<in> G then Some (Waking, 0, 0) else T r)"

lemma released_work:
  assumes "\<And>r. r \<in> G \<Longrightarrow> \<exists>c n d. T r = Some (Blocked c, n, d)"
  shows "dom (released G T) = dom T" "work (released G T) \<le> work T"
proof -
  have "released G T r = None \<longleftrightarrow> T r = None" for r using assms [of r] by (auto simp: released_def)
  then show d: "dom (released G T) = dom T" by (simp add: dom_def)
  show "work (released G T) \<le> work T" unfolding work_def d
  proof (rule sum_mono)
    fix r assume "r \<in> dom T"
    show "weight (the (released G T r)) \<le> weight (the (T r))"
    proof (cases "r \<in> G")
      case True
      with assms show ?thesis by (fastforce simp: released_def)
    qed (simp add: released_def)
  qed
qed

lemma resting_blocked:
  assumes "resting P R K T w s" and "modules w i = Some (HostM h)" and "i \<notin> K" and "blocked_in h u = Some r"
  obtains a n d where "T r = Some (Blocked u, n, d)" "runs_on P w s r a h" "app_host a = i" "in_socket P a"
proof -
  obtain pid where "syscallMap h u = Some pid" using assms(4) by (auto simp: blocked_in_def bind_eq_Some_conv)
  from resting_call [OF assms(1-3) this] obtain q a n d where
    q: "blocked_in h u = Some q" "T q = Some (Blocked u, n, d)" "runs_on P w s q a h" "app_host a = i" "in_socket P a" .
  then have "q = r" using assms(4) by simp
  with q show thesis using that by blast
qed

lemma resting_host:
  assumes "resting P R K T w s" and "modules w i = Some (HostM h)" and "i \<notin> K" and "T r = Some x" and "runs_on P w s r a g"
  shows "(\<exists>u. blocked_in h u = Some r) \<longleftrightarrow> app_host a = i"
proof
  assume "\<exists>u. blocked_in h u = Some r"
  then obtain b where "runs_on P w s r b h" "app_host b = i" using resting_blocked [OF assms(1-3)] by metis
  then show "app_host a = i" using runs_onD(1) [OF assms(5)] runs_onD(1) by fastforce
next
  assume i: "app_host a = i"
  then have "g = h" using runs_onD(2) [OF assms(5)] assms(2) by simp
  with resting_token [OF assms(1,4,5)] i assms(3) show "\<exists>u. blocked_in h u = Some r" by auto
qed

lemma released_stage:
  assumes "resting P R K T w s" and h: "modules w i = Some (HostM h)" "i \<notin> K" and G: "G = {r. \<exists>u. blocked_in h u = Some r}"
    and y: "released G T r = Some y"
  shows "at_stage P (cleaned i h G w) (s\<lparr>runnableReady := G \<union> runnableReady s\<rparr>) r y" (is "at_stage P ?w ?s r y")
proof -
  note L = livingD [OF restingD(1) [OF assms(1)]]
  show ?thesis
  proof (cases "r \<in> G")
    case True
    then obtain u where "blocked_in h u = Some r" by (auto simp: G)
    from resting_blocked [OF assms(1) h this] obtain a n d where
      a: "T r = Some (Blocked u, n, d)" "runs_on P w s r a h" "app_host a = i" "in_socket P a" .
    have "runs_on P ?w ?s r (let_go a) (h\<lparr>running := False, syscallMap := Map.empty\<rparr>)"
      using cleaned_runs_on [OF h(1) _ a(2), of ?s G] True a(3) by simp
    moreover have "y = (Waking, 0, 0)" using y True by (simp add: released_def)
    ultimately show ?thesis unfolding at_stage_def using True L(5) a(4)
      by (intro exI [of _ "let_go a"] exI [of _ "h\<lparr>running := False, syscallMap := Map.empty\<rparr>"])
        (auto simp: ready_to_def let_go_def in_socket_def)
  next
    case False
    then have y: "T r = Some y" using y by (simp add: released_def)
    obtain a g where a: "runs_on P w s r a g" "stage_ok P s r a g y" using L(6) [OF y] unfolding at_stage_def by blast
    have "app_host a \<noteq> i" using resting_host [OF assms(1) h y a(1)] False by (simp add: G)
    then have "runs_on P ?w ?s r a g" using cleaned_runs_on [OF h(1) _ a(1), of ?s G] False by simp
    moreover have "stage_ok P ?s r a g y" by (rule stage_ok_frame [OF a(2)]) auto
    ultimately show ?thesis unfolding at_stage_def by blast
  qed
qed

lemma released_accounted:
  assumes "resting P R K T w s" and h: "modules w i = Some (HostM h)" "i \<notin> K" and G: "G = {r. \<exists>u. blocked_in h u = Some r}"
  shows "accounted (released G T) (cleaned i h G w) (s\<lparr>runnableReady := G \<union> runnableReady s\<rparr>)" (is "accounted ?T ?w ?s")
proof -
  note L = livingD [OF restingD(1) [OF assms(1)]] and A = accountedD [OF livingD(7) [OF restingD(1) [OF assms(1)]]]
  have none: "containers s = Map.empty" using no_containers [OF L(1) restingD(2) [OF assms(1)]] .
  have apps: "\<exists>b. apps (w_env ?w) r = Some b \<and> app_host b = app_host a \<and> app_pid b = app_pid a" if "apps (w_env w) r = Some a" for r a
    using that by simp
  have "\<exists>y. ?T r = Some (Waking, y)" if "r \<in> runnableReady ?s" for r
    using that A(1) [of r] by (auto simp: released_def)
  moreover have "?T (application info) \<noteq> None \<and> (\<exists>a. apps (w_env ?w) (application info) = Some a \<and> app_host a = j \<and> app_pid a = pid)"
    if m: "modules ?w j = Some (HostM g)" "processInfoMap g pid = Some info" for j g pid info
  proof -
    obtain g' where "modules w j = Some (HostM g')" "processInfoMap g' pid = Some info" using m h(1) by (cases "j = i") auto
    from A(3) [OF this] obtain a where a: "T (application info) \<noteq> None" "apps (w_env w) (application info) = Some a" "app_host a = j" "app_pid a = pid"
      by blast
    then show ?thesis using apps [OF a(2)] by (simp add: released_def)
  qed
  moreover have "\<exists>r a x. ?T r = Some x \<and> stage_call (fst x) = Some c \<and> apps (w_env ?w) r = Some a \<and> app_host a = j \<and> app_pid a = pid"
    if m: "modules ?w j = Some (HostM g)" "syscallMap g c = Some pid" for j g c pid
  proof -
    have j: "j \<noteq> i" "modules w j = Some (HostM g)" using m by (auto split: if_splits)
    from A(4) [OF j(2) m(2)] obtain r a x where
      r: "T r = Some x" "stage_call (fst x) = Some c" "apps (w_env w) r = Some a" "app_host a = j" "app_pid a = pid" by blast
    obtain b g' where b: "runs_on P w s r b g'" using L(6) [OF r(1)] unfolding at_stage_def by blast
    then have "b = a" using runs_onD(1) r(3) by fastforce
    then have "r \<notin> G" using resting_host [OF assms(1) h r(1) b] j(1) r(4) by (simp add: G)
    with r show ?thesis by (intro exI [of _ r] exI [of _ a] exI [of _ x]) (simp add: released_def)
  qed
  moreover have "\<exists>r x. ?T r = Some x \<and> u \<in> stage_msgs (fst x)" if "u \<in> dom (containers ?s)" for u
    using that none by simp
  ultimately show ?thesis unfolding accounted_def by (intro conjI allI impI ballI) (blast+)
qed

lemma resting_released:
  assumes "resting P R K T w s" and h: "modules w i = Some (HostM h)" "i \<notin> K" and G: "G = {r. \<exists>u. blocked_in h u = Some r}"
  shows "resting P R (insert i K) (released G T) (cleaned i h G w) (s\<lparr>runnableReady := G \<union> runnableReady s\<rparr>)" (is "resting _ _ _ ?T ?w ?s")
    "work (released G T) \<le> work T"
proof -
  note L = livingD [OF restingD(1) [OF assms(1)]]
  have tok: "\<exists>c n d. T r = Some (Blocked c, n, d)" if "r \<in> G" for r
  proof -
    from that obtain u where u: "blocked_in h u = Some r" by (auto simp: G)
    show ?thesis by (rule resting_blocked [OF assms(1) h u]) blast
  qed
  from released_work [of G T] tok show W: "work ?T \<le> work T" by blast
  have dom: "dom ?T = dom T" using released_work(1) [of G T] tok by blast
  have "uuids_ok (work ?T) ?s" by (rule uuids_ok_less [OF L(3) W]) simp_all
  moreover have "finished ?w r" if "r \<in> R" "?T r = None" for r
    using that L(8) [of r] by (auto simp: released_def finished_def split: if_splits)
  moreover have "host_view ?w = host_view w" using h(1) by (auto simp: host_view_def fun_eq_iff)
  ultimately have lv: "living P R ?T ?w ?s"
    unfolding living_def using L(1,2,4,5,9) dom released_stage [OF assms] released_accounted [OF assms] by simp
  have wk: "y = (Waking, 0, 0)" if y: "?T r = Some y" "runs_on P ?w ?s r b g" "app_host b \<in> insert i K" for r y b g
  proof (cases "r \<in> G")
    case False
    then have x: "T r = Some y" using y(1) by (simp add: released_def)
    obtain a g' where a: "runs_on P w s r a g'" "app_host b = app_host a" by (rule runs_on_cleaned [where s = s, OF h(1) _ y(2)]) simp_all
    then have "app_host a \<in> K" using resting_host [OF assms(1) h x a(1)] False y(3) by (simp add: G)
    then show ?thesis using restingD(4) [OF assms(1) x a(1)] by simp
  qed (use y(1) in \<open>simp add: released_def\<close>)
  have bl: "\<exists>c. fst y = Blocked c" if y: "?T r = Some y" "runs_on P ?w ?s r b g" "app_host b \<notin> insert i K" for r y b g
  proof -
    obtain a g' where a: "runs_on P w s r a g'" "app_host b = app_host a" by (rule runs_on_cleaned [where s = s, OF h(1) _ y(2)]) simp_all
    have "r \<notin> G"
    proof
      assume "r \<in> G"
      then obtain x where "T r = Some x" using tok by blast
      from resting_host [OF assms(1) h this a(1)] show False using \<open>r \<in> G\<close> a(2) y(3) by (simp add: G)
    qed
    then show ?thesis using restingD(5) [OF assms(1) _ a(1)] y(1,3) a(2) by (simp add: released_def)
  qed
  have st: "\<exists>g. modules ?w j = Some (HostM g) \<and> \<not> running g" if "j \<in> insert i K" for j
    using that restingD(3) [OF assms(1), of j] by auto
  have "timerQueue ?s = []" using restingD(2) [OF assms(1)] by simp
  then show "resting P R (insert i K) ?T ?w ?s"
    unfolding resting_def by (intro conjI allI impI ballI) (assumption | rule lv | erule st | erule (2) wk | erule (2) bl)+
qed

lemma resting_clean_up:
  assumes "resting P R K T w s" and "modules w i = Some (HostM h)" and "i \<notin> K" and "enumerates uord"
  shows "\<exists>T' w' s'. clean_up uord i (w, s) = Inr (w', s') \<and> resting P R (insert i K) T' w' s' \<and> work T' \<le> work T"
proof -
  define G where "G = {r. \<exists>u. blocked_in h u = Some r}"
  have "clean_up uord i (w, s) = Inr (cleaned i h G w, s\<lparr>runnableReady := G \<union> runnableReady s\<rparr>)"
    unfolding clean_up_def on_host_def split_conv assms(2) option.case modul.case G_def
      cleanUp_effect [OF resting_calls_wait [OF assms(1-3)] assms(4) finite]
    by (simp add: cleaned_def)
  then show ?thesis using resting_released [OF assms(1-3) G_def] by blast
qed

lemma resting_view:
  assumes "resting P R K T w s" and "view P i = Some (mods, ports, table)"
  obtains h where "modules w i = Some (HostM h)" "hostModuleMap h = mods"
proof -
  have "host_view w i = Some (mods, ports, table)" using assms(2) livingD(9) [OF restingD(1) [OF assms(1)]] by simp
  then show thesis using that by (auto simp: host_view_def split: option.splits modul.splits)
qed

lemma resting_clean_all:
  assumes "resting P R K T w s" and "distinct is" and "set is \<inter> K = {}" and "\<And>i. i \<in> set is \<Longrightarrow> view P i \<noteq> None"
    and "enumerates uord"
  shows "\<exists>T' w' s'. perform (map (clean_up uord) is) (w, s) = Inr (w', s') \<and> resting P R (set is \<union> K) T' w' s' \<and> work T' \<le> work T"
  using assms(1-4)
proof (induction "is" arbitrary: K T w s)
  case (Cons i "is")
  obtain mods ports table where "view P i = Some (mods, ports, table)" using Cons.prems(4) [of i] by auto
  from resting_view [OF Cons.prems(1) this] obtain h where h: "modules w i = Some (HostM h)" .
  have "i \<notin> K" using Cons.prems(3) by simp
  from resting_clean_up [OF Cons.prems(1) h this assms(5)] obtain T1 w1 s1 where
    one: "clean_up uord i (w, s) = Inr (w1, s1)" "resting P R (insert i K) T1 w1 s1" "work T1 \<le> work T" by blast
  have "distinct is" "set is \<inter> insert i K = {}" using Cons.prems(2,3) by auto
  from Cons.IH [OF one(2) this] Cons.prems(4) obtain T' w' s' where
    "perform (map (clean_up uord) is) (w1, s1) = Inr (w', s')" "resting P R (set is \<union> insert i K) T' w' s'" "work T' \<le> work T1" by auto
  with one show ?case by (intro exI [of _ T'] exI [of _ w'] exI [of _ s']) simp
qed auto

lemma resting_finalize:
  assumes "resting P R K T w s" and "\<And>i. i \<in> set is \<Longrightarrow> \<exists>mods ports table. view P i = Some (mods, ports, table) \<and> mods name \<noteq> None"
  shows "perform (map (\<lambda>i. with_host i (finalizeHostModule name)) is) (w, s) = Inr (w, s)"
  using assms(2)
proof (induction "is")
  case (Cons i "is")
  from Cons.prems [of i] obtain mods ports table where v: "view P i = Some (mods, ports, table)" "mods name \<noteq> None" by auto
  from resting_view [OF assms(1) v(1)] obtain h where h: "modules w i = Some (HostM h)" "hostModuleMap h = mods" .
  then have "with_host i (finalizeHostModule name) (w, s) = Inr (put_mod i (HostM h) w, s)"
    using v(2) by (intro with_host_put) (auto simp: finalizeHostModule_def)
  with Cons h(1) show ?case by (simp add: put_mod_same)
qed simp

text \<open>With all hosts cleaned up nothing blocks any more.\<close>

lemma resting_unblocked:
  assumes "resting P R K T w s" and "\<And>i. view P i \<noteq> None \<Longrightarrow> i \<in> K"
  shows "living (P\<lparr>blocking := False\<rparr>) R T w s"
proof -
  note L = livingD [OF restingD(1) [OF assms(1)]]
  have "at_stage (P\<lparr>blocking := False\<rparr>) w s r x" if x: "T r = Some x" for r x
  proof -
    obtain a h where a: "runs_on P w s r a h" "stage_ok P s r a h x" using L(6) [OF x] unfolding at_stage_def by blast
    have "view P (app_host a) \<noteq> None" unfolding L(9) [symmetric] using runs_onD(2) [OF a(1)] by (simp add: host_view_def)
    then have K: "app_host a \<in> K" by (rule assms(2))
    have x: "x = (Waking, 0, 0)" using restingD(4) [OF assms(1) x a(1) K] .
    have "\<not> running h" using restingD(3) [OF assms(1) K] runs_onD(2) [OF a(1)] by auto
    then have "stage_ok (P\<lparr>blocking := False\<rparr>) s r a h x" using a(2) x by simp
    moreover have "runs_on (P\<lparr>blocking := False\<rparr>) w s r a h" using a(1) by (simp add: runs_on_def host_serves_def)
    ultimately show ?thesis unfolding at_stage_def by blast
  qed
  then show ?thesis using restingD(1) [OF assms(1)] unfolding living_def by simp
qed

section \<open>Two runs with cleaning up between them\<close>

lemma launched_twice:
  assumes "quiet w s" and "distinct (map fst ls)"
    and ls: "\<And>r i p. (r, i, p) \<in> set ls \<Longrightarrow> serving (plan_of True g d w s) w s i \<and> ends (plan_of True g d w s) p n d"
    and "length ls \<le> 65536" and "unat (currentTime s) + d < 2 ^ 64" and "unat (currentUUID s) + length ls * (3 * n + 2) < 2 ^ 64"
    and "enumerates ord" and "length ls * (3 * n + 2) < N" and till: "unat (currentTime s) + d \<le> unat till1" "unat (currentTime s) + d \<le> unat till2"
    and "g \<le> f" and "enumerates uord" and "distinct is" and hosts: "\<And>i. host_view w i \<noteq> None \<Longrightarrow> i \<in> set is"
    and tcp: "\<And>i. i \<in> set is \<Longrightarrow> \<exists>mods ports table. host_view w i = Some (mods, ports, table) \<and> mods name \<noteq> None"
  shows "\<exists>st w' s'. launch_all ls (w, s) = Inr st \<and>
    run_twice ord (Suc f) N till1 (map (clean_up uord) is @ map (\<lambda>i. with_host i (finalizeHostModule name)) is) till2 st = Some (Inr (w', s')) \<and>
    quiet w' s' \<and> unat (currentTime s') \<le> unat (currentTime s) + d \<and> (\<forall>(r, i, p) \<in> set ls. finished w' r) \<and> host_view w' = host_view w"
proof -
  let ?P = "plan_of True g d w s"
  from launched_run [OF assms(1,2) _ assms(4-8) disjI2 [OF till(1)] assms(11), of True] ls obtain w1 s1 T w2 s2 where
    one: "launch_all ls (w, s) = Inr (w1, s1)" "run ord (net_callbacks (Suc f)) N till1 (w1, s1) = Some (Inr (w2, s2))"
      "living ?P (fst ` set ls) T w2 s2" "runnableReady s2 = {}" "timerQueue s2 = []" "work T < N" by blast
  have "view ?P i \<noteq> None" if "i \<in> set is" for i using tcp [OF that] by auto
  with resting_clean_all [OF living_resting [OF one(3-5)] assms(13) _ _ assms(12)] obtain T3 w3 s3 where
    three: "perform (map (clean_up uord) is) (w2, s2) = Inr (w3, s3)" "resting ?P (fst ` set ls) (set is) T3 w3 s3" "work T3 \<le> work T" by auto
  have fin: "perform (map (\<lambda>i. with_host i (finalizeHostModule name)) is) (w3, s3) = Inr (w3, s3)"
    using resting_finalize [OF three(2)] tcp by simp
  have living: "living (?P\<lparr>blocking := False\<rparr>) (fst ` set ls) T3 w3 s3" using resting_unblocked [OF three(2)] hosts by simp
  have "work T3 < N" using three(3) one(6) by simp
  from living_run [OF living assms(7) this, of till2 f] till(2) assms(11) obtain T' w' s' where
    four: "run ord (net_callbacks (Suc f)) N till2 (w3, s3) = Some (Inr (w', s'))" "living (?P\<lparr>blocking := False\<rparr>) (fst ` set ls) T' w' s'"
      "runnableReady s' = {}" "timerQueue s' = []" by auto
  note over = living_over [OF four(2-4)]
  have "run_twice ord (Suc f) N till1 (map (clean_up uord) is @ map (\<lambda>i. with_host i (finalizeHostModule name)) is) till2 (w1, s1) =
      Some (Inr (w', s'))"
    unfolding run_twice_def one(2) by (simp add: foldE_append three(1) fin four(1))
  moreover have "\<forall>(r, i, p) \<in> set ls. finished w' r" using over(2) by force
  ultimately show ?thesis using one(1) over(1) livingD(5,9) [OF four(2)] by auto
qed

end
