(* ===== verification/Star_Network.thy ===== *)
theory Star_Network
  imports Echo_Tests
begin

text \<open>
  The network of \<^verbatim>\<open>TestEnv3\<close> (\<^verbatim>\<open>app/kens/testenv.hpp\<close>), in which the congestion tests run: one server and a number of clients
  at one switch. It is built for every number of clients up to 256, and connects the server with each of them.
\<close>

section \<open>Hosts\<close>

text \<open>Operations on one host, one after the other.\<close>

lemma with_hosts_put:
  assumes "modules w i = Some (HostM h)" and "perform fs h = Inr h'"
  shows "perform (map (with_host i) fs) (w, s) = Inr (put_mod i (HostM h') w, s)"
  using assms
proof (induction fs arbitrary: w h)
  case Nil
  then show ?case by (simp add: put_mod_same)
next
  case (Cons f fs)
  from Cons.prems(2) obtain h1 where h1: "f h = Inr h1" "perform fs h1 = Inr h'" by (auto simp: result_simps)
  have "modules (put_mod i (HostM h1) w) i = Some (HostM h1)" by simp
  from Cons.IH [OF this h1(2)] show ?case by (simp add: with_host_put [where f = f, OF Cons.prems(1) h1(1)])
qed

text \<open>The TCP module of a host comes from \<open>f\<close>.\<close>

definition equipped :: "(host \<Rightarrow> host result) \<Rightarrow> host \<Rightarrow> bool" where
  "equipped f h \<longleftrightarrow> hostModuleMap h ''TCP'' \<noteq> None \<and> (\<exists>h0 h1. f h0 = Inr h1 \<and> interfaceMap h = interfaceMap h1)"

lemma stack_up:
  assumes "installs_tcp f" and "h = bare_host ws\<lparr>routing := r\<rparr>"
  shows "\<exists>h'. perform [addHostModule EthernetC, addHostModule IPv4C, f, initializeHostModule ''TCP''] h = Inr h' \<and>
    equipped f h' \<and> h_ports h' = ws \<and> routing h' = r"
proof -
  let ?h = "bare_host ws\<lparr>routing := r, hostModuleMap := [''Ethernet'' \<mapsto> EthernetMod, ''IPv4'' \<mapsto> IPv4Mod 0]\<rparr>"
  obtain h' where h': "f ?h = Inr h'" "hostModuleMap h' ''TCP'' \<noteq> None" "h_ports h' = ws" "routing h' = r"
    using assms(1) [unfolded installs_tcp_def, rule_format, of ?h] by (auto simp: bare_host_def AF_INET_def)
  have "addHostModule EthernetC h = Inr (bare_host ws\<lparr>routing := r, hostModuleMap := [''Ethernet'' \<mapsto> EthernetMod]\<rparr>)"
    "addHostModule IPv4C (bare_host ws\<lparr>routing := r, hostModuleMap := [''Ethernet'' \<mapsto> EthernetMod]\<rparr>) = Inr ?h"
    by (simp_all add: assms(2) addHostModule_def insert_new_def bare_host_def)
  with h' show ?thesis by (intro exI [of _ h']) (auto simp: equipped_def initializeHostModule_def)
qed

definition star_server_routing :: "nat \<Rightarrow> routing_info" where
  "star_server_routing k = \<lparr>mac_vector = [\<lparr>me_mac = server_mac, me_port = 0\<rparr>], ip_vector = [\<lparr>ie_ip = server_ip, ie_port = 0\<rparr>],
     arp_vector = map (\<lambda>i. \<lparr>ae_ip = client_ip i, ae_mac = client_mac i\<rparr>) [0..<k],
     route_vector = [\<lparr>ip_mask = client_mask, prefix = 24, re_port = 0\<rparr>]\<rparr>"

definition star_client_routing :: "nat \<Rightarrow> routing_info" where
  "star_client_routing k = \<lparr>mac_vector = [\<lparr>me_mac = client_mac k, me_port = 0\<rparr>], ip_vector = [\<lparr>ie_ip = client_ip k, ie_port = 0\<rparr>],
     arp_vector = [\<lparr>ae_ip = server_ip, ae_mac = server_mac\<rparr>],
     route_vector = [\<lparr>ip_mask = server_mask, prefix = 24, re_port = 0\<rparr>]\<rparr>"

lemma server_stack:
  assumes "installs_tcp f"
  shows "\<exists>h'. perform [addHostModule EthernetC, addHostModule IPv4C, on_routing (setMACAddr server_mac 0), on_routing (setIPAddr server_ip 0),
      on_routing (setRoutingTable client_mask 24 0), f, initializeHostModule ''TCP''] (bare_host ws) = Inr h' \<and>
    equipped f h' \<and> h_ports h' = ws \<and> routing h' = star_server_routing 0"
proof -
  let ?r = "star_server_routing 0"
  from stack_up [OF assms HOL.refl, where ws = ws and r = ?r] obtain h' where
    "perform [addHostModule EthernetC, addHostModule IPv4C, f, initializeHostModule ''TCP''] (bare_host ws\<lparr>routing := ?r\<rparr>) = Inr h'"
    "equipped f h'" "h_ports h' = ws" "routing h' = ?r" by blast
  moreover have "on_routing r h = Inr (h\<lparr>routing := r (routing h)\<rparr>)" for r h by (simp add: on_routing_def)
  ultimately show ?thesis
    by (intro exI [of _ h']) (simp add: addHostModule_def insert_new_def bare_host_def star_server_routing_def setMACAddr_def
        setIPAddr_def setRoutingTable_def empty_routing_def)
qed

lemma client_stack:
  assumes "installs_tcp f"
  shows "\<exists>h'. perform [addHostModule EthernetC, addHostModule IPv4C, f, initializeHostModule ''TCP'', on_routing (setMACAddr (client_mac k) 0),
      on_routing (setIPAddr (client_ip k) 0), on_routing (setRoutingTable server_mask 24 0), on_routing (setARPTable server_mac server_ip)]
        (bare_host ws) = Inr h' \<and>
    equipped f h' \<and> h_ports h' = ws \<and> routing h' = star_client_routing k"
proof -
  have "bare_host ws = bare_host ws\<lparr>routing := empty_routing\<rparr>" by (simp add: bare_host_def)
  from stack_up [OF assms this] obtain h where
    h: "perform [addHostModule EthernetC, addHostModule IPv4C, f, initializeHostModule ''TCP''] (bare_host ws) = Inr h"
    "equipped f h" "h_ports h = ws" "routing h = empty_routing" by blast
  let ?fs = "[on_routing (setMACAddr (client_mac k) 0), on_routing (setIPAddr (client_ip k) 0), on_routing (setRoutingTable server_mask 24 0),
      on_routing (setARPTable server_mac server_ip)]"
  have "perform ?fs h = Inr (h\<lparr>routing := star_client_routing k\<rparr>)"
    using h(4) by (simp add: on_routing_def star_client_routing_def setMACAddr_def setIPAddr_def setRoutingTable_def setARPTable_def empty_routing_def)
  then have "perform ([addHostModule EthernetC, addHostModule IPv4C, f, initializeHostModule ''TCP''] @ ?fs) (bare_host ws) =
      Inr (h\<lparr>routing := star_client_routing k\<rparr>)"
    unfolding foldE_append h(1) by simp
  moreover have "equipped f (h\<lparr>routing := star_client_routing k\<rparr>)" using h(2) by (simp add: equipped_def)
  ultimately show ?thesis using h(3) by (intro exI [of _ "h\<lparr>routing := star_client_routing k\<rparr>"]) simp
qed

section \<open>Building the network\<close>

text \<open>Client \<open>k\<close> and its wire have the identifiers \<open>2 k + 4\<close> and \<open>2 k + 5\<close>.\<close>

abbreviation client_node :: "nat \<Rightarrow> ModuleID" where
  "client_node k \<equiv> echo_node (k + 2)"

abbreviation client_wire :: "nat \<Rightarrow> ModuleID" where
  "client_wire k \<equiv> echo_wire (k + 2)"

lemma client_ids:
  assumes "i < 900" and "j < 900"
  shows "client_node i = client_node j \<longleftrightarrow> i = j" "client_wire i = client_wire j \<longleftrightarrow> i = j" "client_node i \<noteq> client_wire j"
    "client_wire j \<noteq> client_node i" "client_node i \<notin> {1, 2, 3}" "client_wire i \<notin> {1, 2, 3}" "client_node i + 1 = client_wire i"
    "client_wire i + 1 = client_node (Suc i)"
proof -
  show "client_node i = client_node j \<longleftrightarrow> i = j" "client_wire i = client_wire j \<longleftrightarrow> i = j" "client_node i \<noteq> client_wire j"
    "client_wire j \<noteq> client_node i" using echo_ids [of "i + 2" "j + 2"] assms by simp_all
  have one: "(1 :: ModuleID) = echo_wire 0" "(2 :: ModuleID) = echo_node 1" "(3 :: ModuleID) = echo_wire 1"
    by (simp_all add: echo_node_def echo_wire_def)
  show "client_node i \<notin> {1, 2, 3}" "client_wire i \<notin> {1, 2, 3}"
    unfolding one using echo_ids [of "i + 2" 0] echo_ids [of "i + 2" 1] echo_ids [of 1 "i + 2"] assms by simp_all
  show "client_node i + 1 = client_wire i" "client_wire i + 1 = client_node (Suc i)"
    by (simp_all add: echo_node_def echo_wire_def)
qed

definition star_switch_ok :: "nat \<Rightarrow> switch \<Rightarrow> bool" where
  "star_switch_ok k sw \<longleftrightarrow> l_ports sw = 3 # map client_wire [0..<k] \<and> mac_table sw 3 = Some {arrayToUINT64 server_mac} \<and>
     (\<forall>i < 900. mac_table sw (client_wire i) = (if i < k then Some {arrayToUINT64 (client_mac i)} else None))"

definition star_host_ok :: "(host \<Rightarrow> host result) \<Rightarrow> ModuleID \<Rightarrow> ModuleID \<Rightarrow> routing_info \<Rightarrow> world \<Rightarrow> bool" where
  "star_host_ok f i v r w \<longleftrightarrow>
     (\<exists>h x. modules w i = Some (HostM h) \<and> h_ports h = [v] \<and> routing h = r \<and> equipped f h \<and>
        modules w v = Some (WireM x) \<and> connected x = [i, 2])"

definition star_up :: "(host \<Rightarrow> host result) \<Rightarrow> (host \<Rightarrow> host result) \<Rightarrow> nat \<Rightarrow> star \<times> world \<times> net \<Rightarrow> bool" where
  "star_up target adversary k st \<longleftrightarrow>
     (case st of (e, w, s) \<Rightarrow>
        e = \<lparr>server_host = 1, star_switch = 2, client_hosts = map client_node [0..<k]\<rparr> \<and>
        (\<exists>sw. modules w 2 = Some (SwitchM sw) \<and> star_switch_ok k sw) \<and>
        star_host_ok adversary 1 3 (star_server_routing k) w \<and>
        (\<forall>i < k. star_host_ok target (client_node i) (client_wire i) (star_client_routing i) w) \<and>
        (\<forall>j h. modules w j = Some (HostM h) \<longrightarrow> j \<in> set (server_host e # client_hosts e)))"

definition star_free :: "nat \<Rightarrow> star \<times> world \<times> net \<Rightarrow> bool" where
  "star_free k st \<longleftrightarrow>
     (case st of (e, w, s) \<Rightarrow> next_module_id w = client_node k \<and>
        (\<forall>i. k \<le> i \<longrightarrow> i < 900 \<longrightarrow> client_node i \<notin> registeredModule s \<and> client_wire i \<notin> registeredModule s \<and>
           modules w (client_node i) = None \<and> modules w (client_wire i) = None))"

lemma env3_server_up:
  assumes "installs_tcp adversary"
  shows "\<exists>st. env3_server g g' adversary NetworkSystem_new = Inr st \<and> star_up target adversary 0 st \<and> star_free 0 st"
proof -
  have free: "client_node i \<noteq> 1" "client_node i \<noteq> 2" "client_node i \<noteq> 3" "client_wire i \<noteq> 1" "client_wire i \<noteq> 2" "client_wire i \<noteq> 3"
    if "i < 900" for i using client_ids(5,6) [OF that that] by simp_all
  obtain h' where h': "perform [addHostModule EthernetC, addHostModule IPv4C, on_routing (setMACAddr server_mac 0), on_routing (setIPAddr server_ip 0),
      on_routing (setRoutingTable client_mask 24 0), adversary, initializeHostModule ''TCP''] (bare_host [3]) = Inr h'"
      "equipped adversary h'" "h_ports h' = [3]" "routing h' = star_server_routing 0" using server_stack [OF assms] by blast
  let ?w0 = "fst NetworkSystem_new" and ?sw = "Switch_new g g' False\<lparr>l_ports := [3]\<rparr>"
  let ?sw' = "?sw\<lparr>mac_table := [3 \<mapsto> {arrayToUINT64 server_mac}]\<rparr>"
  define w1 where "w1 = ?w0\<lparr>modules := [1 \<mapsto> HostM (bare_host [3]), 2 \<mapsto> SwitchM ?sw,
      3 \<mapsto> WireM (Wire_new 1 2 env3_delay port_speed True (initial_system :: net))], next_module_id := 4\<rparr>"
  define s1 where "s1 = (initial_system :: net)\<lparr>registeredModule := {1, 2, 3}\<rparr>"
  have built: "env3_server g g' adversary NetworkSystem_new =
      bindE (perform (map (with_host 1) [addHostModule EthernetC, addHostModule IPv4C, on_routing (setMACAddr server_mac 0),
        on_routing (setIPAddr server_ip 0), on_routing (setRoutingTable client_mask 24 0), adversary, initializeHostModule ''TCP''] @
        [with_switch 2 (addMACEntry 0 server_mac)]) (w1, s1)) (\<lambda>st.
      Inr (\<lparr>server_host = 1, star_switch = 2, client_hosts = []\<rparr>, st))"
  proof -
    let ?s0 = "initial_system\<lparr>registeredModule := {1, 2}\<rparr> :: net"
    let ?w2 = "?w0\<lparr>modules := [1 \<mapsto> HostM (bare_host []), 2 \<mapsto> SwitchM (Switch_new g g' False)], next_module_id := 3\<rparr>"
    obtain w2 s2 where "addHost NetworkSystem_new = Inr (1, w2, s2)" "addSwitch g g' False (w2, s2) = Inr (2, ?w2, ?s0)"
      by (simp add: addHost_def Host_new_bare addSwitch_def net_addModule_def addModule_def NetworkSystem_new_def initial_system_def Let_def insert_commute)
    moreover have "addWire 1 2 env3_delay port_speed True (?w2, ?s0) = Inr (3, 0, 0, w1, s1)"
      by (subst addWire_at [where hh = "bare_host []" and x = "Switch_new g g' False"])
        (auto simp: w1_def s1_def bare_host_def fun_eq_iff insert_commute)
    ultimately show ?thesis by (simp add: env3_server_def)
  qed
  have at: "modules w1 1 = Some (HostM (bare_host [3]))" by (simp add: w1_def)
  have sw: "with_switch 2 (addMACEntry 0 server_mac) (put_mod 1 (HostM h') w1, s1) = Inr (put_mod 2 (SwitchM ?sw') (put_mod 1 (HostM h') w1), s1)"
    by (rule with_switch_put [where x = ?sw]) (simp_all add: w1_def addMACEntry_def indexE_def)
  let ?w = "put_mod 2 (SwitchM ?sw') (put_mod 1 (HostM h') w1)"
  have run: "env3_server g g' adversary NetworkSystem_new = Inr (\<lparr>server_host = 1, star_switch = 2, client_hosts = []\<rparr>, ?w, s1)"
    unfolding built foldE_append with_hosts_put [OF at h'(1)] bindE_Inr by (simp add: sw)
  have "star_host_ok adversary 1 3 (star_server_routing 0) ?w"
    using h'(2-4) by (simp add: star_host_ok_def w1_def Wire_new_def)
  moreover have "star_switch_ok 0 ?sw'" using free by (simp add: star_switch_ok_def)
  ultimately have "star_up target adversary 0 (\<lparr>server_host = 1, star_switch = 2, client_hosts = []\<rparr>, ?w, s1)"
    by (auto simp: star_up_def w1_def split: if_splits)
  moreover have "star_free 0 (\<lparr>server_host = 1, star_switch = 2, client_hosts = []\<rparr>, ?w, s1)"
    using free by (auto simp: star_free_def w1_def s1_def echo_node_def)
  ultimately show ?thesis using run by blast
qed

text \<open>A client is put at the next port of the switch; the server learns its address.\<close>

lemma env3_client_run:
  fixes k :: nat
  defines "c \<equiv> client_node k" and "v \<equiv> client_wire k"
  assumes e: "server_host e = 1" "star_switch e = 2" and tcp: "installs_tcp target" and "k < 256"
    and sw: "modules w 2 = Some (SwitchM sw)" "length (l_ports sw) = Suc k" "mac_table sw v = None"
    and srv: "modules w 1 = Some (HostM hs)" and free: "star_free k (e, w, s)"
  shows "\<exists>w' h x. env3_client target k (e, w, s) = Inr (e\<lparr>client_hosts := client_hosts e @ [c]\<rparr>, w', s\<lparr>registeredModule := insert v (insert c (registeredModule s))\<rparr>) \<and>
    modules w' c = Some (HostM h) \<and> h_ports h = [v] \<and> routing h = star_client_routing k \<and> equipped target h \<and>
    modules w' 2 = Some (SwitchM (sw\<lparr>l_ports := l_ports sw @ [v], mac_table := (mac_table sw)(v \<mapsto> {arrayToUINT64 (client_mac k)})\<rparr>)) \<and>
    modules w' 1 = Some (HostM (hs\<lparr>routing := setARPTable (client_mac k) (client_ip k) (routing hs)\<rparr>)) \<and>
    modules w' v = Some (WireM x) \<and> connected x = [c, 2] \<and>
    (\<forall>u. u \<notin> {c, v, 1, 2} \<longrightarrow> modules w' u = modules w u) \<and> next_module_id w' = client_node (Suc k)"
proof -
  have lt: "k < 900" using assms(6) by simp
  have ids: "c \<noteq> 1" "c \<noteq> 2" "v \<noteq> 1" "v \<noteq> 2" "1 \<noteq> c" "2 \<noteq> c" "1 \<noteq> v" "2 \<noteq> v" "v \<noteq> c" "c \<noteq> v" "c + 1 = v" "v + 1 = client_node (Suc k)"
    using client_ids [OF lt lt] by (auto simp: c_def v_def)
  have fresh: "c \<notin> registeredModule s" "v \<notin> registeredModule s" "modules w c = None" "modules w v = None" "next_module_id w = c"
    using free lt by (auto simp: star_free_def c_def v_def)
  let ?s1 = "s\<lparr>registeredModule := insert c (registeredModule s)\<rparr>" and ?s2 = "s\<lparr>registeredModule := insert v (insert c (registeredModule s))\<rparr>"
  let ?w1 = "w\<lparr>modules := (modules w)(c \<mapsto> HostM (bare_host [])), next_module_id := v\<rparr>"
  let ?x = "Wire_new c 2 env3_delay port_speed True s" and ?sw = "sw\<lparr>l_ports := l_ports sw @ [v]\<rparr>"
  let ?sw' = "?sw\<lparr>mac_table := (mac_table sw)(v \<mapsto> {arrayToUINT64 (client_mac k)})\<rparr>"
  let ?hs = "hs\<lparr>routing := setARPTable (client_mac k) (client_ip k) (routing hs)\<rparr>"
  have host: "addHost (w, s) = Inr (c, ?w1, ?s1)"
    using fresh ids by (simp add: addHost_def Host_new_bare net_addModule_def addModule_def Let_def)
  define w2 where "w2 = w\<lparr>modules := (modules w)(v \<mapsto> WireM ?x, c \<mapsto> HostM (bare_host [v]), 2 \<mapsto> SwitchM ?sw), next_module_id := client_node (Suc k)\<rparr>"
  have wire: "addWire c 2 env3_delay port_speed True (?w1, ?s1) = Inr (v, 0, int (Suc k), w2, ?s2)"
    by (subst addWire_at [where hh = "bare_host []" and x = sw])
      (use fresh ids sw(1,2) in \<open>simp_all add: bare_host_def fun_eq_iff w2_def\<close>)
  obtain h where h: "perform [addHostModule EthernetC, addHostModule IPv4C, target, initializeHostModule ''TCP'', on_routing (setMACAddr (client_mac k) 0),
      on_routing (setIPAddr (client_ip k) 0), on_routing (setRoutingTable server_mask 24 0), on_routing (setARPTable server_mac server_ip)]
        (bare_host [v]) = Inr h" "equipped target h" "h_ports h = [v]" "routing h = star_client_routing k" using client_stack [OF tcp] by blast
  let ?w3 = "put_mod c (HostM h) w2" let ?w4 = "put_mod 1 (HostM ?hs) ?w3" let ?w5 = "put_mod 2 (SwitchM ?sw') ?w4"
  have at: "modules w2 c = Some (HostM (bare_host [v]))" using ids by (simp add: w2_def)
  have arp: "setARP 1 (client_mac k) (client_ip k) (?w3, ?s2) = Inr (?w4, ?s2)"
    by (rule with_host_put [where h = hs]) (use ids srv in \<open>simp_all add: w2_def on_routing_def\<close>)
  have "addMACEntry (int (Suc k)) (client_mac k) ?sw = Inr ?sw'"
    using sw(2,3) by (simp add: addMACEntry_def indexE_def nth_append nat_add_distrib)
  then have entry: "with_switch 2 (addMACEntry (int (Suc k)) (client_mac k)) (?w4, ?s2) = Inr (?w5, ?s2)"
    by (intro with_switch_put [where x = ?sw]) (use ids in \<open>simp_all add: w2_def\<close>)
  let ?fs = "[addHostModule EthernetC, addHostModule IPv4C, target, initializeHostModule ''TCP'', on_routing (setMACAddr (client_mac k) 0),
      on_routing (setIPAddr (client_ip k) 0), on_routing (setRoutingTable server_mask 24 0), on_routing (setARPTable server_mac server_ip)]"
  have "perform (map (with_host c) ?fs @ [setARP 1 (client_mac k) (client_ip k), with_switch 2 (addMACEntry (int (Suc k)) (client_mac k))])
      (w2, ?s2) = Inr (?w5, ?s2)"
    unfolding foldE_append with_hosts_put [OF at h(1)] bindE_Inr foldE.simps arp entry ..
  then have "env3_client target k (e, w, s) = Inr (e\<lparr>client_hosts := client_hosts e @ [c]\<rparr>, ?w5, ?s2)"
    by (simp add: env3_client_def e host wire Let_def del: foldE.simps)
  moreover have "connected ?x = [c, 2]" by (simp add: Wire_new_def)
  ultimately show ?thesis using h(2-4) ids
    by (intro exI [of _ ?w5] exI [of _ h] exI [of _ ?x]) (simp add: w2_def)
qed

lemma star_upE:
  assumes "star_up target adversary k (e, w, s)"
  obtains sw hs x where "e = \<lparr>server_host = 1, star_switch = 2, client_hosts = map client_node [0..<k]\<rparr>"
    "modules w 2 = Some (SwitchM sw)" "star_switch_ok k sw"
    "modules w 1 = Some (HostM hs)" "h_ports hs = [3]" "routing hs = star_server_routing k" "equipped adversary hs"
    "modules w 3 = Some (WireM x)" "connected x = [1, 2]"
    "\<And>i. i < k \<Longrightarrow> star_host_ok target (client_node i) (client_wire i) (star_client_routing i) w"
    "\<And>j h. modules w j = Some (HostM h) \<Longrightarrow> j \<in> set (server_host e # client_hosts e)"
  using assms unfolding star_up_def star_host_ok_def [of adversary] split_conv by blast

lemma star_switch_Suc:
  assumes "star_switch_ok k sw" and "k < 900"
  shows "star_switch_ok (Suc k) (sw\<lparr>l_ports := l_ports sw @ [client_wire k],
    mac_table := (mac_table sw)(client_wire k \<mapsto> {arrayToUINT64 (client_mac k)})\<rparr>)" (is "star_switch_ok _ ?sw")
proof -
  have S: "l_ports sw = 3 # map client_wire [0..<k]" "mac_table sw 3 = Some {arrayToUINT64 server_mac}"
      "\<And>i. i < 900 \<Longrightarrow> mac_table sw (client_wire i) = (if i < k then Some {arrayToUINT64 (client_mac i)} else None)"
    using assms(1) unfolding star_switch_ok_def by blast+
  have "mac_table ?sw (client_wire i) = (if i < Suc k then Some {arrayToUINT64 (client_mac i)} else None)" if "i < 900" for i
    using S(3) [OF that] client_ids(2) [OF that assms(2)] by (simp add: less_Suc_eq)
  moreover have "(3 :: ModuleID) \<noteq> client_wire k" using client_ids(6) [OF assms(2,2)] by auto
  ultimately show ?thesis unfolding star_switch_ok_def using S(1,2) by simp
qed

lemma env3_client_up:
  assumes "star_up target adversary k st" and "star_free k st" and "installs_tcp target" and "k < 256"
  shows "\<exists>st'. env3_client target k st = Inr st' \<and> star_up target adversary (Suc k) st' \<and> star_free (Suc k) st'"
proof -
  obtain e w s where st: "st = (e, w, s)" by (cases st)
  have lt: "k < 900" using assms(4) by simp
  obtain sw hs x0 where e: "e = \<lparr>server_host = 1, star_switch = 2, client_hosts = map client_node [0..<k]\<rparr>" and
    sw: "modules w 2 = Some (SwitchM sw)" "star_switch_ok k sw" and
    hs: "modules w 1 = Some (HostM hs)" "h_ports hs = [3]" "routing hs = star_server_routing k" "equipped adversary hs"
      "modules w 3 = Some (WireM x0)" "connected x0 = [1, 2]" and
    clients: "\<And>i. i < k \<Longrightarrow> star_host_ok target (client_node i) (client_wire i) (star_client_routing i) w" and
    hosts: "\<And>j h. modules w j = Some (HostM h) \<Longrightarrow> j \<in> set (server_host e # client_hosts e)"
    using star_upE [OF assms(1) [unfolded st]] by metis
  let ?c = "client_node k" and ?v = "client_wire k" and ?e = "e\<lparr>client_hosts := client_hosts e @ [client_node k]\<rparr>"
  let ?s = "s\<lparr>registeredModule := insert ?v (insert ?c (registeredModule s))\<rparr>"
  let ?sw = "sw\<lparr>l_ports := l_ports sw @ [?v], mac_table := (mac_table sw)(?v \<mapsto> {arrayToUINT64 (client_mac k)})\<rparr>"
  have pre: "server_host e = 1" "star_switch e = 2" "length (l_ports sw) = Suc k" "mac_table sw ?v = None"
    using e sw(2) lt by (simp_all add: star_switch_ok_def)
  from env3_client_run [OF pre(1,2) assms(3,4) sw(1) pre(3,4) hs(1) assms(2) [unfolded st]] obtain w' h x where
    run: "env3_client target k st = Inr (?e, w', ?s)" and
    h: "modules w' ?c = Some (HostM h)" "h_ports h = [?v]" "routing h = star_client_routing k" "equipped target h" and
    at: "modules w' 2 = Some (SwitchM ?sw)" "modules w' 1 = Some (HostM (hs\<lparr>routing := setARPTable (client_mac k) (client_ip k) (routing hs)\<rparr>))" and
    x: "modules w' ?v = Some (WireM x)" "connected x = [?c, 2]" and
    same: "\<And>u. u \<notin> {?c, ?v, 1, 2} \<Longrightarrow> modules w' u = modules w u" and nxt: "next_module_id w' = client_node (Suc k)"
    unfolding st by blast
  have other: "modules w' (client_node i) = modules w (client_node i)" "modules w' (client_wire i) = modules w (client_wire i)"
    if "i < 900" "i \<noteq> k" for i using that client_ids [OF that(1) lt] client_ids [OF lt that(1)] by (intro same; simp)+
  have "star_host_ok adversary 1 3 (star_server_routing (Suc k)) w'"
    using at(2) hs same [of 3] client_ids(5,6) [OF lt lt] by (auto simp: star_host_ok_def equipped_def star_server_routing_def setARPTable_def)
  moreover have "star_host_ok target (client_node i) (client_wire i) (star_client_routing i) w'" if "i < Suc k" for i
    using that lt h x clients [of i] other [of i] by (cases "i = k") (auto simp: star_host_ok_def)
  moreover have "j \<in> set (server_host ?e # client_hosts ?e)" if "modules w' j = Some (HostM g)" for j g
    using that x(1) at(1) e hosts [of j g] same [of j] by (cases "j \<in> {?c, ?v, 1, 2}") auto
  ultimately have "star_up target adversary (Suc k) (?e, w', ?s)"
    unfolding star_up_def split_conv using at(1) star_switch_Suc [OF sw(2) lt] e by auto
  moreover have "star_free (Suc k) (?e, w', ?s)"
    unfolding star_free_def split_conv
    using nxt other client_ids [OF _ lt] client_ids [OF lt] assms(2) unfolding st star_free_def by auto
  ultimately show ?thesis using run by blast
qed

lemma env3_clients_up:
  assumes "star_up target adversary 0 st" and "star_free 0 st" and "installs_tcp target" and "n \<le> 256"
  shows "\<exists>st'. foldE (env3_client target) [0..<n] st = Inr st' \<and> star_up target adversary n st' \<and> star_free n st'"
  using assms(4)
proof (induction n)
  case (Suc n)
  then obtain st' where st': "foldE (env3_client target) [0..<n] st = Inr st'" "star_up target adversary n st'" "star_free n st'" by auto
  from env3_client_up [OF st'(2,3) assms(3)] Suc.prems show ?case by (auto simp: foldE_append st'(1))
qed (use assms in simp)

lemma star_up_switch:
  assumes "star_up target adversary n (e, w, s)" and "\<And>sw. l_ports (f sw) = l_ports sw \<and> mac_table (f sw) = mac_table sw"
  shows "\<exists>w'. with_switch (star_switch e) (\<lambda>sw. Inr (f sw)) (w, s) = Inr (w', s) \<and> star_up target adversary n (e, w', s)"
proof -
  note U = assms(1) [unfolded star_up_def split_conv]
  obtain sw where sw: "modules w 2 = Some (SwitchM sw)" "star_switch_ok n sw" using U by blast
  let ?w = "put_mod 2 (SwitchM (f sw)) w"
  have "star_switch e = 2" using U by simp
  then have "with_switch (star_switch e) (\<lambda>sw. Inr (f sw)) (w, s) = Inr (?w, s)" using with_switch_put [OF sw(1)] by simp
  moreover have "star_host_ok g i v r ?w" if "star_host_ok g i v r w" for g i v r
    using that sw(1) by (auto simp: star_host_ok_def)
  moreover have "star_switch_ok n (f sw)" using sw(2) assms(2) by (simp add: star_switch_ok_def)
  ultimately show ?thesis using U by (intro exI [of _ ?w]) (auto simp: star_up_def split: if_splits)
qed

lemma TestEnv3_up:
  assumes "installs_tcp target" and "installs_tcp adversary" and "n \<le> 256"
  shows "\<exists>e w s. TestEnv3_SetUp n g g' target adversary NetworkSystem_new = Inr (e, w, s) \<and> star_up target adversary n (e, w, s)"
proof -
  from env3_server_up [OF assms(2)] obtain st where st: "env3_server g g' adversary NetworkSystem_new = Inr st"
      "star_up target adversary 0 st" "star_free 0 st" by blast
  from env3_clients_up [OF st(2,3) assms(1,3)] obtain e w s where
    up: "foldE (env3_client target) [0..<n] st = Inr (e, w, s)" "star_up target adversary n (e, w, s)" by (metis prod_cases3)
  obtain w1 where w1: "with_switch (star_switch e) (\<lambda>sw. Inr (setLinkSpeed port_speed sw)) (w, s) = Inr (w1, s)" "star_up target adversary n (e, w1, s)"
    using star_up_switch [OF up(2), of "setLinkSpeed port_speed"] by (auto simp: setLinkSpeed_def)
  obtain w2 where w2: "with_switch (star_switch e) (\<lambda>sw. Inr (setQueueSize 64 sw)) (w1, s) = Inr (w2, s)" "star_up target adversary n (e, w2, s)"
    using star_up_switch [OF w1(2), of "setQueueSize 64"] by auto
  obtain w3 where w3: "with_switch (star_switch e) (\<lambda>sw. Inr (enablePCAPLogging 64 sw)) (w2, s) = Inr (w3, s)" "star_up target adversary n (e, w3, s)"
    using star_up_switch [OF w2(2), of "enablePCAPLogging 64"] by auto
  have "TestEnv3_SetUp n g g' target adversary NetworkSystem_new = Inr (e, w3, s)"
    by (simp add: TestEnv3_SetUp_def st(1) up(1) w1(1) w2(1) w3(1))
  with w3(2) show ?thesis by blast
qed

section \<open>Where datagrams go\<close>

lemma switch_targets_unique:
  assumes "distinct (l_ports sw)" and "v \<in> set (l_ports sw)" and "u \<noteq> v" and "dst \<noteq> mac_broadcast"
    and "\<And>p. p \<in> set (l_ports sw) \<Longrightarrow> p \<noteq> u \<Longrightarrow> mac_known sw p (arrayToUINT64 dst) \<longleftrightarrow> p = v"
  shows "switch_targets sw u dst = [v]"
proof -
  have "filter (\<lambda>p. dst = mac_broadcast \<or> mac_known sw p (arrayToUINT64 dst)) (filter (\<lambda>p. p \<noteq> u) (l_ports sw)) = [v]"
    by (rule filter_unique) (use assms in auto)
  then show ?thesis unfolding switch_targets_def Let_def by simp
qed

lemma client_addresses:
  "i < 256 \<Longrightarrow> j < 256 \<Longrightarrow> client_ip i = client_ip j \<longleftrightarrow> i = j"
  "i < 256 \<Longrightarrow> j < 256 \<Longrightarrow> arrayToUINT64 (client_mac i) = arrayToUINT64 (client_mac j) \<longleftrightarrow> i = j"
  "arrayToUINT64 (client_mac i) \<noteq> arrayToUINT64 server_mac" "arrayToUINT64 server_mac \<noteq> arrayToUINT64 (client_mac i)"
  "client_mac i \<noteq> mac_broadcast" "server_mac \<noteq> mac_broadcast"
  by (simp_all add: client_ip_def client_mac_def server_mac_def mac_broadcast_def arrayToUINT64_inj of_nat_eq_u8)

lemma star_lookups:
  assumes "k < n" and "n \<le> 256"
  shows "getRoutingTable (star_server_routing n) (client_ip k) = Inr 0" "getMACAddr (star_server_routing n) 0 = Some server_mac"
    "getARPTable (star_server_routing n) (client_ip k) = Some (client_mac k)"
    "getRoutingTable (star_client_routing k) server_ip = Inr 0" "getMACAddr (star_client_routing k) 0 = Some (client_mac k)"
    "getARPTable (star_client_routing k) server_ip = Some server_mac"
proof -
  show "getMACAddr (star_server_routing n) 0 = Some server_mac" "getMACAddr (star_client_routing k) 0 = Some (client_mac k)"
    "getARPTable (star_client_routing k) server_ip = Some server_mac"
    by (simp_all add: star_server_routing_def star_client_routing_def getMACAddr_def getARPTable_def)
  show "getRoutingTable (star_server_routing n) (client_ip k) = Inr 0"
    by (simp add: star_server_routing_def getRoutingTable_def route_matches_def whole_bytes_match_def client_ip_def client_mask_def indexE_def numeral_3_eq_3)
  show "getRoutingTable (star_client_routing k) server_ip = Inr 0"
    by (simp add: star_client_routing_def getRoutingTable_def route_matches_def whole_bytes_match_def server_ip_def server_mask_def indexE_def numeral_3_eq_3)
  have "find (\<lambda>entry. client_ip k = ae_ip entry) (arp_vector (star_server_routing n)) = Some \<lparr>ae_ip = client_ip k, ae_mac = client_mac k\<rparr>"
    using assms by (intro find_unique) (auto simp: star_server_routing_def client_addresses)
  then show "getARPTable (star_server_routing n) (client_ip k) = Some (client_mac k)" by (simp add: getARPTable_def)
qed

lemma star_targets:
  assumes "star_switch_ok n sw" and "k < n" and "n \<le> 256"
  shows "switch_targets sw 3 (client_mac k) = [client_wire k]" "switch_targets sw (client_wire k) server_mac = [3]"
proof -
  have ports: "l_ports sw = 3 # map client_wire [0..<n]" and table: "mac_table sw 3 = Some {arrayToUINT64 server_mac}"
    "\<And>i. i < n \<Longrightarrow> mac_table sw (client_wire i) = Some {arrayToUINT64 (client_mac i)}"
    using assms unfolding star_switch_ok_def by auto
  have lt: "i < 256" "i < 900" if "i < n" for i using that assms(3) by simp_all
  have wires: "client_wire i = client_wire j \<longleftrightarrow> i = j" if "i < n" "j < n" for i j
    using client_ids(2) [OF lt(2) [OF that(1)] lt(2) [OF that(2)]] .
  have three: "client_wire i \<noteq> 3" if "i < n" for i using client_ids(6) [OF lt(2) [OF that] lt(2) [OF that]] by simp
  have dist: "distinct (l_ports sw)" unfolding ports using wires three by (auto simp: distinct_map inj_on_def)
  show "switch_targets sw 3 (client_mac k) = [client_wire k]"
  proof (rule switch_targets_unique [OF dist])
    show "mac_known sw p (arrayToUINT64 (client_mac k)) \<longleftrightarrow> p = client_wire k" if p: "p \<in> set (l_ports sw)" "p \<noteq> 3" for p
    proof -
      obtain i where i: "p = client_wire i" "i < n" using p ports by auto
      then show ?thesis using table(2) [OF i(2)] wires [OF i(2) assms(2)] client_addresses(2) [OF lt(1) [OF i(2)] lt(1) [OF assms(2)]]
        by (auto simp: mac_known_def)
    qed
  qed (use ports three [OF assms(2)] assms(2) client_addresses in auto)
  show "switch_targets sw (client_wire k) server_mac = [3]"
  proof (rule switch_targets_unique [OF dist])
    show "mac_known sw p (arrayToUINT64 server_mac) \<longleftrightarrow> p = 3" if p: "p \<in> set (l_ports sw)" "p \<noteq> client_wire k" for p
      using p ports table three client_addresses(3,4) by (auto simp: mac_known_def)
  qed (use ports three [OF assms(2)] client_addresses in auto)
qed

lemma star_receivers:
  assumes "star_up target adversary n (e, w, s)" and "k < n" and "n \<le> 256"
  shows "receivers (server_host e) (client_ip k) w = [Some (client_hosts e ! k)]"
    "receivers (client_hosts e ! k) server_ip w = [Some (server_host e)]"
proof -
  note U = assms(1) [unfolded star_up_def split_conv]
  have e: "server_host e = 1" "client_hosts e ! k = client_node k" using U assms(2) by auto
  obtain sw where sw: "modules w 2 = Some (SwitchM sw)" "star_switch_ok n sw" using U by blast
  obtain hs x where hs: "modules w 1 = Some (HostM hs)" "h_ports hs = [3]" "routing hs = star_server_routing n"
      "modules w 3 = Some (WireM x)" "connected x = [1, 2]" using U unfolding star_host_ok_def by blast
  obtain h y where h: "modules w (client_node k) = Some (HostM h)" "h_ports h = [client_wire k]" "routing h = star_client_routing k"
      "modules w (client_wire k) = Some (WireM y)" "connected y = [client_node k, 2]"
    using U assms(2) unfolding star_host_ok_def by blast
  have lt: "k < 900" using assms(2,3) by simp
  have ne: "client_node k \<noteq> 2" "client_node k \<noteq> 1" "client_node k \<noteq> 0"
    using client_ids(5) [OF lt lt] echo_ids(8) [of "k + 2" "k + 2"] lt by simp_all
  note look = star_lookups [OF assms(2,3)] and T = star_targets [OF sw(2) assms(2,3)]
  have "frame_for 1 (client_ip k) w = Some (server_mac, client_mac k, 3)" using hs look by (simp add: frame_for_def)
  moreover have "frame_for (client_node k) server_ip w = Some (client_mac k, server_mac, client_wire k)" using h look by (simp add: frame_for_def)
  moreover have "other_end 1 3 w = Some 2" "other_end 2 3 w = Some 1" "other_end (client_node k) (client_wire k) w = Some 2"
    "other_end 2 (client_wire k) w = Some (client_node k)"
    using hs(4,5) h(4,5) ne by (simp_all add: other_end_def wire_destination_def)
  ultimately show "receivers (server_host e) (client_ip k) w = [Some (client_hosts e ! k)]"
    "receivers (client_hosts e ! k) server_ip w = [Some (server_host e)]"
    using sw(1) T by (simp_all add: receivers_def e)
qed

lemma star_hosts:
  assumes "star_up target adversary n (e, w, s)" and "n \<le> 256"
  shows "length (client_hosts e) = n" "distinct (server_host e # client_hosts e)"
    "\<And>j h. modules w j = Some (HostM h) \<Longrightarrow> j \<in> set (server_host e # client_hosts e)"
    "\<And>j. j \<in> set (server_host e # client_hosts e) \<Longrightarrow> \<exists>h. modules w j = Some (HostM h) \<and> (equipped target h \<or> equipped adversary h)"
proof -
  note U = assms(1) [unfolded star_up_def split_conv]
  have e: "server_host e = 1" "client_hosts e = map client_node [0..<n]" using U by auto
  have lt: "i < 900" if "i < n" for i using that assms(2) by simp
  show "length (client_hosts e) = n" by (simp add: e)
  have "client_node i = client_node j \<longleftrightarrow> i = j" "client_node i \<noteq> 1" if "i < n" "j < n" for i j
    using client_ids(1,5) [OF lt [OF that(1)] lt [OF that(2)]] by simp_all
  then show "distinct (server_host e # client_hosts e)" by (auto simp: e distinct_map inj_on_def)
  show "\<exists>h. modules w j = Some (HostM h) \<and> (equipped target h \<or> equipped adversary h)" if j: "j \<in> set (server_host e # client_hosts e)" for j
  proof (cases "j = server_host e")
    case True
    then show ?thesis using U unfolding star_host_ok_def e by blast
  next
    case False
    then obtain i where "j = client_node i" "i < n" using j by (auto simp: e)
    then show ?thesis using U unfolding star_host_ok_def by blast
  qed
qed (use assms(1) in \<open>auto simp: star_up_def\<close>)

section \<open>Properties\<close>

text \<open>C8. The network of the congestion tests is built without an error for every number of clients up to 256, whichever TCP
  modules it installs. The server and the clients are different hosts; a datagram of the server for the address of
  a client reaches that client and nobody else, and a datagram of a client for the address of the server
  reaches the server and nobody else.\<close>

theorem star_connected:
  assumes "installs_tcp target" and "installs_tcp adversary" and "n \<le> 256"
  shows "\<exists>e w s. TestEnv3_SetUp n g g' target adversary NetworkSystem_new = Inr (e, w, s) \<and>
    length (client_hosts e) = n \<and> distinct (server_host e # client_hosts e) \<and>
    (\<forall>k < n. receivers (server_host e) (client_ip k) w = [Some (client_hosts e ! k)] \<and>
       receivers (client_hosts e ! k) server_ip w = [Some (server_host e)])"
  using TestEnv3_up [OF assms] star_hosts(1,2) [OF _ assms(3)] star_receivers [OF _ _ assms(3)] by metis

theorem star_connected_witness:
  "\<exists>e w s. TestEnv3_SetUp 200 (sconst 0) (sconst 0) TCPAssignmentProvider_allocate TCPAssignmentProvider_allocate NetworkSystem_new = Inr (e, w, s) \<and>
     receivers (server_host e) [10, 0, 1, 209] w = [Some (client_hosts e ! 199)]"
proof -
  have "client_ip 199 = [10, 0, 1, 209]" by (simp add: client_ip_def)
  moreover obtain e w s where
    "TestEnv3_SetUp 200 (sconst 0) (sconst 0) TCPAssignmentProvider_allocate TCPAssignmentProvider_allocate NetworkSystem_new = Inr (e, w, s)"
    "\<forall>k < 200. receivers (server_host e) (client_ip k) w = [Some (client_hosts e ! k)] \<and> receivers (client_hosts e ! k) server_ip w = [Some (server_host e)]"
    using star_connected [OF installs_TCPAssignment installs_TCPAssignment, of 200 "sconst 0" "sconst 0"] by auto
  moreover have "(199 :: nat) < 200" by simp
  ultimately show ?thesis by metis
qed

end
