(* ===== verification/Blocked_Runs.thy ===== *)
theory Blocked_Runs
  imports App_Release Fresh_Networks Star_Network
begin

text \<open>
  Runs of the TCP tests with the assignment as it is shipped, from \<^verbatim>\<open>SetUp\<close> to the second run: its system call handler does
  nothing, so that an application that opens a socket blocks there until the host is cleaned up.
\<close>

section \<open>The test networks are fresh\<close>

lemma fresh_env_modules:
  assumes "env_modules g g' unrel st = Inr (e, ports, st')" and "fresh_net st"
  shows "fresh_net st'"
  using assms unfolding env_modules_def
  by (auto simp: result_simps dest!: fresh_addHost fresh_addSwitch fresh_addWire)

lemma fresh_env_op:
  assumes "f \<in> set (env_addresses e ports) \<union> set (env_switch e ports) \<union> set (env_stacks target solution e) \<union>
      {with_switch (switchingHub e) (\<lambda>sw. Inr (setQueueSize 16 sw))}"
    and "adds_modules target" and "adds_modules solution" and "f st = Inr st'" and "fresh_net st"
  shows "fresh_net st'"
  using assms by (auto simp: env_addresses_def env_switch_def env_stacks_def Let_def intro: fresh_intros)

lemma fresh_TestEnv:
  assumes "mk = TestEnv1_SetUp g g' target solution \<or> mk = TestEnv2_SetUp unrel g g' target solution"
    and "adds_modules target" and "adds_modules solution" and "mk NetworkSystem_new = Inr (e, st)"
  shows "fresh_net st"
proof -
  let ?fs = "\<lambda>ports ops. env_addresses e ports @ ops @ env_switch e ports @ env_stacks target solution e"
  have "\<exists>b ports ops st1. set ops \<subseteq> {with_switch (switchingHub e) (\<lambda>sw. Inr (setQueueSize 16 sw))} \<and>
      env_modules g g' b NetworkSystem_new = Inr (e, ports, st1) \<and> perform (?fs ports ops) st1 = Inr st"
    using assms(1)
  proof
    assume "mk = TestEnv1_SetUp g g' target solution"
    with assms(4) obtain ports st1 where "env_modules g g' False NetworkSystem_new = Inr (e, ports, st1)" "perform (?fs ports []) st1 = Inr st"
      by (auto simp: TestEnv1_SetUp_def result_simps simp del: foldE.simps)
    then show ?thesis by (metis empty_set empty_subsetI)
  next
    assume "mk = TestEnv2_SetUp unrel g g' target solution"
    with assms(4) obtain ports st1 where "env_modules g g' unrel NetworkSystem_new = Inr (e, ports, st1)"
        "perform (?fs ports [with_switch (switchingHub e) (\<lambda>sw. Inr (setQueueSize 16 sw))]) st1 = Inr st"
      by (auto simp: TestEnv2_SetUp_def result_simps simp del: foldE.simps)
    then show ?thesis by (metis list.simps(15) empty_set order_refl)
  qed
  then obtain b ports ops st1 where ops: "set ops \<subseteq> {with_switch (switchingHub e) (\<lambda>sw. Inr (setQueueSize 16 sw))}" and
    up: "env_modules g g' b NetworkSystem_new = Inr (e, ports, st1)" "perform (?fs ports ops) st1 = Inr st" by blast
  have "fresh_net st1" using fresh_env_modules [OF up(1) fresh_NetworkSystem_new] .
  then show ?thesis
  proof (rule fresh_perform [OF up(2)])
    fix f st st' assume "f \<in> set (?fs ports ops)" and f: "f st = Inr st'" "fresh_net st"
    then have "f \<in> set (env_addresses e ports) \<union> set (env_switch e ports) \<union> set (env_stacks target solution e) \<union>
      {with_switch (switchingHub e) (\<lambda>sw. Inr (setQueueSize 16 sw))}" using ops by auto
    from fresh_env_op [OF this assms(2,3) f] show "fresh_net st'" .
  qed
qed

lemma TCPAssignment_serves:
  "TCPAssignmentProvider_allocate h = Inr h' \<Longrightarrow> interfaceMap h' (AF_INET, IPPROTO_TCP) = Some TCPIface \<and> hostModuleMap h' ''TCP'' \<noteq> None"
  by (auto simp: TCPAssignmentProvider_allocate_def addHostModule_def insert_new_def result_simps split: option.splits)

section \<open>The network with the shipped assignment\<close>

text \<open>The hosts of a network, with the assignment as their TCP module.\<close>

definition shipped :: "ModuleID list \<Rightarrow> world \<Rightarrow> bool" where
  "shipped is w \<longleftrightarrow> distinct is \<and> (\<forall>i h. modules w i = Some (HostM h) \<longrightarrow> i \<in> set is) \<and>
     (\<forall>i \<in> set is. \<exists>h. modules w i = Some (HostM h) \<and> interfaceMap h (AF_INET, IPPROTO_TCP) = Some TCPIface \<and> hostModuleMap h ''TCP'' \<noteq> None)"

lemma shippedD:
  assumes "shipped is w"
  shows "distinct is" "\<And>i. host_view w i \<noteq> None \<Longrightarrow> i \<in> set is"
    "\<And>i. i \<in> set is \<Longrightarrow> \<exists>mods ports table. host_view w i = Some (mods, ports, table) \<and> mods ''TCP'' \<noteq> None"
    "\<And>i. i \<in> set is \<Longrightarrow> \<exists>h. modules w i = Some (HostM h) \<and> interfaceMap h (AF_INET, IPPROTO_TCP) = Some TCPIface"
proof -
  show "distinct is" using assms by (simp add: shipped_def)
  show "host_view w i \<noteq> None \<Longrightarrow> i \<in> set is" for i using assms by (auto simp: shipped_def host_view_def split: option.splits modul.splits)
  have h: "\<exists>h. modules w i = Some (HostM h) \<and> interfaceMap h (AF_INET, IPPROTO_TCP) = Some TCPIface \<and> hostModuleMap h ''TCP'' \<noteq> None"
    if "i \<in> set is" for i using assms that unfolding shipped_def by blast
  show "i \<in> set is \<Longrightarrow> \<exists>h. modules w i = Some (HostM h) \<and> interfaceMap h (AF_INET, IPPROTO_TCP) = Some TCPIface" for i using h by blast
  show "\<exists>mods ports table. host_view w i = Some (mods, ports, table) \<and> mods ''TCP'' \<noteq> None" if i: "i \<in> set is" for i
  proof -
    obtain h where "modules w i = Some (HostM h)" "hostModuleMap h ''TCP'' \<noteq> None" using h [OF i] by (elim exE conjE)
    then show ?thesis unfolding host_view_def by simp
  qed
qed

lemma shipped_run:
  assumes "shipped is w" and "fresh_net (w, s)" and "distinct (map fst ls)" and "length ls \<le> 65536"
    and ls: "\<forall>(r, i, p) \<in> set ls. i \<in> set is \<and> ends (plan_of True k d w s) p n d"
    and till: "d \<le> unat till1" "d \<le> unat till2" and "length ls * (3 * n + 2) < N" and "N < 2 ^ 64" and "enumerates ord" and "enumerates uord"
  shows "\<exists>st w' s'. launch_all ls (w, s) = Inr st \<and>
    run_twice ord (Suc k) N till1 (map (clean_up uord) is @ map (\<lambda>i. with_host i (finalizeHostModule ''TCP'')) is) till2 st = Some (Inr (w', s')) \<and>
    quiet w' s' \<and> unat (currentTime s') \<le> d \<and> (\<forall>(r, i, p) \<in> set ls. finished w' r)"
proof -
  note H = shippedD [OF assms(1)]
  let ?P = "plan_of True k d w s"
  have zero: "currentTime s = 0" "currentUUID s = 0" using assms(2) by (auto simp: fresh_net_def initial_system_def)
  have serve: "serving ?P w s i \<and> ends ?P p n d" if "(r, i, p) \<in> set ls" for r i p
  proof -
    have i: "i \<in> set is" "ends ?P p n d" using ls that by auto
    obtain h where h: "modules w i = Some (HostM h)" "interfaceMap h (AF_INET, IPPROTO_TCP) = Some TCPIface" using H(4) [OF i(1)] by (elim exE conjE)
    show ?thesis using fresh_serving [OF assms(2) h(1) h(2)] i(2) by (rule conjI)
  qed
  have "d < 2 ^ 64" using till(1) unsigned_less [of till1, where ?'a = nat] by (simp add: le_less_trans)
  then have now: "unat (currentTime s) + d < 2 ^ 64" "unat (currentUUID s) + length ls * (3 * n + 2) < 2 ^ 64"
    "unat (currentTime s) + d \<le> unat till1" "unat (currentTime s) + d \<le> unat till2"
    using zero till assms(8,9) by simp_all
  have "\<exists>st w' s'. launch_all ls (w, s) = Inr st \<and>
      run_twice ord (Suc k) N till1 (map (clean_up uord) is @ map (\<lambda>i. with_host i (finalizeHostModule ''TCP'')) is) till2 st = Some (Inr (w', s')) \<and>
      quiet w' s' \<and> unat (currentTime s') \<le> unat (currentTime s) + d \<and> (\<forall>(r, i, p) \<in> set ls. finished w' r) \<and> host_view w' = host_view w"
    by (rule launched_twice [OF fresh_quiet [OF assms(2)] assms(3) _ assms(4) now(1,2) assms(10,8) now(3,4) order_refl assms(11) H(1,2,3)])
      (erule serve)
  then show ?thesis using zero(1) by auto
qed

lemma TestEnv_shipped:
  assumes "canonical g" and "mk = TestEnv1_SetUp g g' TCPAssignmentProvider_allocate TCPAssignmentProvider_allocate \<or>
      mk = TestEnv2_SetUp unrel g g' TCPAssignmentProvider_allocate TCPAssignmentProvider_allocate"
    and "mk NetworkSystem_new = Inr (e, w, s)"
  shows "shipped [host1 e, host2 e] w"
proof -
  obtain e' h1 h2 sw where mk: "mk NetworkSystem_new = Inr (e', env_world h1 h2 sw, env_sys)" and e': "e' = \<lparr>host1 = 1, host2 = 2, switchingHub = 3\<rparr>"
    and h: "\<exists>h. TCPAssignmentProvider_allocate h = Inr h1" "\<exists>h. TCPAssignmentProvider_allocate h = Inr h2"
    by (rule testenv_built [OF installs_TCPAssignment installs_TCPAssignment assms(1,2)])
  then have e: "e = \<lparr>host1 = 1, host2 = 2, switchingHub = 3\<rparr>" and w: "w = env_world h1 h2 sw" using assms(3) by simp_all
  have "interfaceMap h1 (AF_INET, IPPROTO_TCP) = Some TCPIface \<and> hostModuleMap h1 ''TCP'' \<noteq> None"
    "interfaceMap h2 (AF_INET, IPPROTO_TCP) = Some TCPIface \<and> hostModuleMap h2 ''TCP'' \<noteq> None"
    using h TCPAssignment_serves by blast+
  then show ?thesis by (auto simp: shipped_def e w env_world_def split: if_splits)
qed

lemma limit_seconds: "m < 10000000000 \<Longrightarrow> unat (makeTime (of_nat m) SEC) = m * 1000000000"
  by (simp add: makeTime_def unat_word_ariths getMultiplier_unat unsigned_of_nat take_bit_eq_mod)

subsection \<open>One server and several clients\<close>

lemma fresh_env3_server:
  assumes "env3_server g g' adversary st = Inr (e, st')" and "adds_modules adversary" and "fresh_net st"
  shows "fresh_net st'"
proof -
  obtain sv st1 sw st2 wid hp sp st3 where up: "addHost st = Inr (sv, st1)" "addSwitch g g' False st1 = Inr (sw, st2)"
      "addWire sv sw env3_delay port_speed True st2 = Inr (wid, hp, sp, st3)" and
    p: "perform [with_host sv (addHostModule EthernetC), with_host sv (addHostModule IPv4C), setMAC sv server_mac hp, setIP sv server_ip hp,
        setRoute sv client_mask 24 hp, with_host sv adversary, with_host sv (initializeHostModule ''TCP''),
        with_switch sw (addMACEntry sp server_mac)] st3 = Inr st'"
    using assms(1) unfolding env3_server_def by (auto simp: result_simps simp del: foldE.simps)
  have "fresh_net st3" using fresh_addWire [OF up(3) fresh_addSwitch [OF up(2) fresh_addHost [OF up(1) assms(3)]]] .
  from fresh_perform [OF p this] show ?thesis using assms(2) by (fastforce intro: fresh_intros)
qed

lemma fresh_env3_client:
  assumes "env3_client target k (e, st) = Inr (e', st')" and "adds_modules target" and "fresh_net st"
  shows "fresh_net st'"
proof -
  let ?sv = "server_host e" and ?sw = "star_switch e"
  obtain c st1 wid hp sp st2 where up: "addHost st = Inr (c, st1)" "addWire c ?sw env3_delay port_speed True st1 = Inr (wid, hp, sp, st2)" and
    p: "perform [with_host c (addHostModule EthernetC), with_host c (addHostModule IPv4C), with_host c target,
        with_host c (initializeHostModule ''TCP''), setMAC c (client_mac k) hp, setIP c (client_ip k) hp, setRoute c server_mask 24 hp,
        setARP c server_mac server_ip, setARP ?sv (client_mac k) (client_ip k), with_switch ?sw (addMACEntry sp (client_mac k))] st2 = Inr st'"
    using assms(1) unfolding env3_client_def by (auto simp: result_simps Let_def simp del: foldE.simps)
  have "fresh_net st2" using fresh_addWire [OF up(2) fresh_addHost [OF up(1) assms(3)]] .
  from fresh_perform [OF p this] show ?thesis using assms(2) by (fastforce intro: fresh_intros)
qed

lemma fresh_TestEnv3:
  assumes "TestEnv3_SetUp n g g' target adversary NetworkSystem_new = Inr (e, st)" and "adds_modules target" and "adds_modules adversary"
  shows "fresh_net st"
proof -
  obtain e1 st1 e2 st2 where up: "env3_server g g' adversary NetworkSystem_new = Inr (e1, st1)" "foldE (env3_client target) [0..<n] (e1, st1) = Inr (e2, st2)" and
    p: "perform [with_switch (star_switch e2) (\<lambda>sw. Inr (setLinkSpeed port_speed sw)), with_switch (star_switch e2) (\<lambda>sw. Inr (setQueueSize 64 sw)),
        with_switch (star_switch e2) (\<lambda>sw. Inr (enablePCAPLogging 64 sw))] st2 = Inr st"
    using assms(1) unfolding TestEnv3_SetUp_def by (auto simp: result_simps simp del: foldE.simps)
  have "fresh_net (snd (e1, st1))" using fresh_env3_server [OF up(1) assms(3) fresh_NetworkSystem_new] by simp
  with up(2) have "fresh_net (snd (e2, st2))" by (rule foldE_preserves) (use fresh_env3_client [OF _ assms(2)] in fastforce)
  then show ?thesis by (intro fresh_perform [OF p]) (auto intro: fresh_with_switch)
qed

lemma TestEnv3_shipped:
  assumes "TestEnv3_SetUp n g g' TCPAssignmentProvider_allocate TCPAssignmentProvider_allocate NetworkSystem_new = Inr (e, w, s)" and "n \<le> 256"
  shows "shipped (server_host e # client_hosts e) w"
proof -
  have up: "star_up TCPAssignmentProvider_allocate TCPAssignmentProvider_allocate n (e, w, s)"
    using TestEnv3_up [OF installs_TCPAssignment installs_TCPAssignment assms(2), of g g'] assms(1) by auto
  have "interfaceMap h (AF_INET, IPPROTO_TCP) = Some TCPIface \<and> hostModuleMap h ''TCP'' \<noteq> None" if "equipped TCPAssignmentProvider_allocate h" for h
    using that TCPAssignment_serves unfolding equipped_def by metis
  then show ?thesis unfolding shipped_def using star_hosts(2-4) [OF up assms(2)] by blast
qed

section \<open>Properties\<close>


text \<open>So do the tests in the star of \<^verbatim>\<open>TestEnv3\<close>, with the limit it is given.\<close>

theorem blocked_stars_finish:
  assumes "TestEnv3_SetUp m g g' TCPAssignmentProvider_allocate TCPAssignmentProvider_allocate NetworkSystem_new = Inr (e, w, s)" and "m \<le> 256"
    and "distinct (map fst ls)" and "length ls \<le> 65536"
    and "\<forall>(r, i, p) \<in> set ls. i \<in> set (server_host e # client_hosts e) \<and> ends (plan_of True k d w s) p n d"
    and "d \<le> timeout * 1000000000" and "timeout < 1000000000" and "length ls * (3 * n + 2) < N" and "N < 2 ^ 64" and "enumerates ord" and "enumerates uord"
  shows "\<exists>st w' s'. launch_all ls (w, s) = Inr st \<and> TestEnv3_runTest timeout ord uord (Suc k) N e st = Some (Inr (w', s')) \<and>
    quiet w' s' \<and> unat (currentTime s') \<le> d \<and> (\<forall>(r, i, p) \<in> set ls. finished w' r)"
proof -
  have fresh: "fresh_net (w, s)" using fresh_TestEnv3 [OF assms(1) adds_TCPAssignment adds_TCPAssignment] .
  have "d \<le> unat (makeTime (of_nat timeout) SEC)" "d \<le> unat (makeTime (1000 + of_nat timeout) SEC)"
    using limit_seconds [of timeout] limit_seconds [of "1000 + timeout"] assms(6,7) by simp_all
  from shipped_run [OF TestEnv3_shipped [OF assms(1,2)] fresh assms(3-5) this assms(8-11)] show ?thesis
    by (simp add: TestEnv3_runTest_def)
qed

lemma gives_up_close: "(\<And>now m. gives_up (k (- 1) now m) n) \<Longrightarrow> gives_up (tcp_close fd k) (Suc n)"
  by (simp add: tcp_close_def gives_up.fails)


end
