(* ===== verification/Route_Packets.thy ===== *)
theory Route_Packets
  imports Network_Util
begin

text \<open>
  The packets of the two routing assignments (\<^verbatim>\<open>RIPAssignment.hpp\<close>, \<^verbatim>\<open>PWOSPFAssignment.hpp\<close>): packed structures,
  the last field of two of them an array of entries that runs to the end of the packet. Each
  structure is a record, and \<open>_bytes\<close> is its image in memory on a little-endian machine. The image
  determines the structure, so nothing is lost between the sender's and the receiver's view of a packet.
\<close>

section \<open>Definitions\<close>

definition AreaID :: u32 where "AreaID = 1"
definition LSUInt :: u16 where "LSUInt = 30"
definition TTLInitial :: u16 where "TTLInitial = 16"
definition SubnetMask :: ipv4_t where "SubnetMask = [255, 255, 255, 0]"
definition HelloInt :: u16 where "HelloInt = 60"

text \<open>An integer of \<open>n\<close> bytes in memory.\<close>

definition le_bytes :: "nat \<Rightarrow> 'a::len word \<Rightarrow> bytes" where
  "le_bytes n x = UINT64ToArray n (ucast x)"

record rip_header_t =
  rip_command :: u8
  rip_version :: u8
  rip_zero_0 :: u16

record rip_entry_t =
  address_family :: u16
  rip_zero_1 :: u16
  ip_addr :: u32
  rip_zero_2 :: u32
  rip_zero_3 :: u32
  metric :: u32

record rip_t =
  rip_header :: rip_header_t
  rip_entries :: "rip_entry_t list"

record pwospf_header_t =
  pw_version :: u8
  pw_type :: u8
  pw_length :: u16
  pw_router_id :: u32
  pw_area_id :: u32
  pw_checksum :: u16
  pw_authtype :: u16
  pw_authentication :: u64

record pwospf_hello_t =
  hello_header :: pwospf_header_t
  network_mask :: u32
  hello_int :: u16
  hello_padding :: u16

record pwospf_lsu_entry_t =
  lsu_subnet :: u32
  lsu_mask :: u32
  lsu_router_id :: u32
  lsu_cost :: u32

record pwospf_lsu_t =
  lsu_header :: pwospf_header_t
  lsu_sequence :: u16
  lsu_ttl :: u16
  num_advertisements :: u32
  lsu_entries :: "pwospf_lsu_entry_t list"

section \<open>Images in memory\<close>

definition rip_header_bytes :: "rip_header_t \<Rightarrow> bytes" where
  "rip_header_bytes h = le_bytes 1 (rip_command h) @ le_bytes 1 (rip_version h) @ le_bytes 2 (rip_zero_0 h)"

definition rip_entry_bytes :: "rip_entry_t \<Rightarrow> bytes" where
  "rip_entry_bytes e = le_bytes 2 (address_family e) @ le_bytes 2 (rip_zero_1 e) @ le_bytes 4 (ip_addr e) @
     le_bytes 4 (rip_zero_2 e) @ le_bytes 4 (rip_zero_3 e) @ le_bytes 4 (metric e)"

definition rip_bytes :: "rip_t \<Rightarrow> bytes" where
  "rip_bytes p = rip_header_bytes (rip_header p) @ concat (map rip_entry_bytes (rip_entries p))"

definition pwospf_header_bytes :: "pwospf_header_t \<Rightarrow> bytes" where
  "pwospf_header_bytes h = le_bytes 1 (pw_version h) @ le_bytes 1 (pw_type h) @ le_bytes 2 (pw_length h) @
     le_bytes 4 (pw_router_id h) @ le_bytes 4 (pw_area_id h) @ le_bytes 2 (pw_checksum h) @ le_bytes 2 (pw_authtype h) @
     le_bytes 8 (pw_authentication h)"

definition pwospf_hello_bytes :: "pwospf_hello_t \<Rightarrow> bytes" where
  "pwospf_hello_bytes p = pwospf_header_bytes (hello_header p) @ le_bytes 4 (network_mask p) @ le_bytes 2 (hello_int p) @
     le_bytes 2 (hello_padding p)"

definition pwospf_lsu_entry_bytes :: "pwospf_lsu_entry_t \<Rightarrow> bytes" where
  "pwospf_lsu_entry_bytes e = le_bytes 4 (lsu_subnet e) @ le_bytes 4 (lsu_mask e) @ le_bytes 4 (lsu_router_id e) @
     le_bytes 4 (lsu_cost e)"

definition pwospf_lsu_bytes :: "pwospf_lsu_t \<Rightarrow> bytes" where
  "pwospf_lsu_bytes p = pwospf_header_bytes (lsu_header p) @ le_bytes 2 (lsu_sequence p) @ le_bytes 2 (lsu_ttl p) @
     le_bytes 4 (num_advertisements p) @ concat (map pwospf_lsu_entry_bytes (lsu_entries p))"

section \<open>Lemmas\<close>

lemma length_le_bytes [simp]: "length (le_bytes n x) = n"
  by (simp add: le_bytes_def UINT64ToArray_def)

lemma le_bytes_eq:
  fixes x y :: "'a::len word"
  assumes "n \<le> 8" and "2 ^ LENGTH('a) = (256 :: nat) ^ n"
  shows "le_bytes n x = le_bytes n y \<longleftrightarrow> x = y"
proof
  assume eq: "le_bytes n x = le_bytes n y"
  have wide: "(2 :: nat) ^ LENGTH('a) \<le> 2 ^ 64"
    unfolding assms(2) using power_increasing [OF assms(1), of "256 :: nat"] by simp
  have "unat (arrayToUINT64 (le_bytes n z)) = unat z" for z :: "'a word"
  proof -
    have "unat z < 2 ^ 64" using wide unsigned_less [of z] by (rule less_le_trans [rotated])
    then have "unat (ucast z :: u64) = unat z" by (simp add: unsigned_ucast_eq take_bit_eq_mod)
    moreover have "unat z < 256 ^ n" unfolding assms(2) [symmetric] by (rule unsigned_less)
    ultimately show ?thesis
      using unat_array_of_word [OF assms(1), of "ucast z"] by (simp add: le_bytes_def)
  qed
  with eq have "unat x = unat y" by metis
  then show "x = y" by (simp only: word_unat_eq_iff)
qed simp

lemma le_bytes_inj [simp]:
  "le_bytes (Suc 0) (x :: u8) = le_bytes (Suc 0) y \<longleftrightarrow> x = y"
  "le_bytes 2 (x2 :: u16) = le_bytes 2 y2 \<longleftrightarrow> x2 = y2"
  "le_bytes 4 (x4 :: u32) = le_bytes 4 y4 \<longleftrightarrow> x4 = y4"
  "le_bytes 8 (x8 :: u64) = le_bytes 8 y8 \<longleftrightarrow> x8 = y8"
  by (rule le_bytes_eq; simp)+

text \<open>The sizes of the structures, and that the image of a structure determines it.\<close>

lemma sizeof_structs [simp]:
  "length (rip_header_bytes h) = 4" "length (rip_entry_bytes e) = 20"
  "length (pwospf_header_bytes ph) = 24" "length (pwospf_hello_bytes pp) = 32" "length (pwospf_lsu_entry_bytes pe) = 16"
  by (simp_all add: rip_header_bytes_def rip_entry_bytes_def pwospf_header_bytes_def pwospf_hello_bytes_def pwospf_lsu_entry_bytes_def)

lemma structs_inj [simp]:
  "rip_header_bytes h = rip_header_bytes h' \<longleftrightarrow> h = h'" "rip_entry_bytes e = rip_entry_bytes e' \<longleftrightarrow> e = e'"
  "pwospf_header_bytes ph = pwospf_header_bytes ph' \<longleftrightarrow> ph = ph'" "pwospf_lsu_entry_bytes pe = pwospf_lsu_entry_bytes pe' \<longleftrightarrow> pe = pe'"
  by (auto simp: rip_header_bytes_def rip_entry_bytes_def pwospf_header_bytes_def pwospf_lsu_entry_bytes_def)

lemma pwospf_hello_inj [simp]: "pwospf_hello_bytes pp = pwospf_hello_bytes pp' \<longleftrightarrow> pp = pp'"
  by (auto simp: pwospf_hello_bytes_def)

lemma concat_map_inj:
  assumes "\<And>x y. f x = f y \<longleftrightarrow> x = y" and "\<And>x. length (f x) = k" and "0 < k"
  shows "concat (map f xs) = concat (map f ys) \<longleftrightarrow> xs = ys"
proof (induction xs arbitrary: ys)
  case Nil
  have "f y \<noteq> []" for y using assms(2) [of y] assms(3) by auto
  then show ?case by (cases ys) auto
next
  case (Cons x xs)
  have ne: "f y \<noteq> []" for y using assms(2) [of y] assms(3) by auto
  show ?case
  proof (cases ys)
    case (Cons y zs)
    with Cons.IH [of zs] assms(1,2) show ?thesis by (simp add: append_eq_append_conv)
  qed (simp add: ne)
qed

section \<open>Properties\<close>

text \<open>The image of a RIP message and of a link state update determines its fields and its list of entries.\<close>

theorem routing_packets_injective:
  "(rip_bytes p = rip_bytes p' \<longleftrightarrow> p = p') \<and> (pwospf_lsu_bytes q = pwospf_lsu_bytes q' \<longleftrightarrow> q = q')"
proof
  show "rip_bytes p = rip_bytes p' \<longleftrightarrow> p = p'"
    using concat_map_inj [of rip_entry_bytes 20] by (auto simp: rip_bytes_def append_eq_append_conv)
  show "pwospf_lsu_bytes q = pwospf_lsu_bytes q' \<longleftrightarrow> q = q'"
    using concat_map_inj [of pwospf_lsu_entry_bytes 16] by (auto simp: pwospf_lsu_bytes_def append_eq_append_conv)
qed

end
