(* ===== verification/Network_Log.thy ===== *)
theory Network_Log
  imports Time_Util
begin

text \<open>
  The filters of the two logging classes (\<^verbatim>\<open>E_NetworkLog.cpp\<close>, \<^verbatim>\<open>E_Log.cpp\<close>): which messages reach the standard
  output, and the text that is printed around a formatted message. A \<^verbatim>\<open>NetworkLog\<close> has a set of kinds as a bit
  mask, a \<^verbatim>\<open>Log\<close> has a threshold. The formatting itself is the C library's; the formatted message is an argument.
\<close>

unbundle bit_operations_syntax

section \<open>Definitions\<close>

datatype log_level =
    PACKET_TO_MODULE | PACKET_FROM_MODULE | PACKET_TO_HOST | PACKET_FROM_HOST | PACKET_ALLOC | PACKET_CLONE | PACKET_FREE
  | PACKET_QUEUE | PACKET_DROPPED | SYSCALL_RAISED | SYSCALL_FINISHED | SYSCALL_BLOCKED | SYSCALL_UNBLOCKED | SYSCALL_ERROR
  | APPLICATION_RETRUN | MODULE_ERROR | PROTOCOL_ERROR | PROTOCOL_WARNING | TCP_LOG

definition log_levels :: "log_level list" where
  "log_levels =
     [PACKET_TO_MODULE, PACKET_FROM_MODULE, PACKET_TO_HOST, PACKET_FROM_HOST, PACKET_ALLOC, PACKET_CLONE, PACKET_FREE,
      PACKET_QUEUE, PACKET_DROPPED, SYSCALL_RAISED, SYSCALL_FINISHED, SYSCALL_BLOCKED, SYSCALL_UNBLOCKED, SYSCALL_ERROR,
      APPLICATION_RETRUN, MODULE_ERROR, PROTOCOL_ERROR, PROTOCOL_WARNING, TCP_LOG]"

text \<open>The value of an enumerator.\<close>

fun level_value :: "log_level \<Rightarrow> u64" where
  "level_value PACKET_TO_MODULE = 0"
| "level_value PACKET_FROM_MODULE = 1"
| "level_value PACKET_TO_HOST = 2"
| "level_value PACKET_FROM_HOST = 3"
| "level_value PACKET_ALLOC = 4"
| "level_value PACKET_CLONE = 5"
| "level_value PACKET_FREE = 6"
| "level_value PACKET_QUEUE = 7"
| "level_value PACKET_DROPPED = 8"
| "level_value SYSCALL_RAISED = 9"
| "level_value SYSCALL_FINISHED = 10"
| "level_value SYSCALL_BLOCKED = 11"
| "level_value SYSCALL_UNBLOCKED = 12"
| "level_value SYSCALL_ERROR = 13"
| "level_value APPLICATION_RETRUN = 14"
| "level_value MODULE_ERROR = 15"
| "level_value PROTOCOL_ERROR = 16"
| "level_value PROTOCOL_WARNING = 17"
| "level_value TCP_LOG = 18"

record network_log =
  nl_level :: u64

definition NetworkLog_defaultLevel :: u64 where
  "NetworkLog_defaultLevel = 0"

definition NetworkLog_new :: "u64 option \<Rightarrow> u64 \<Rightarrow> network_log" where
  "NetworkLog_new level default_level = \<lparr>nl_level = (case level of None \<Rightarrow> default_level | Some l \<Rightarrow> l)\<rparr>"

text \<open>What is printed; a shift by 64 or more is undefined.\<close>

definition vprint_log :: "network_log \<Rightarrow> Time \<Rightarrow> u64 \<Rightarrow> string \<Rightarrow> string result" where
  "vprint_log l now level message =
     (if 64 \<le> unat level then Inl OutOfRange
      else if push_bit (unat level) 1 AND nl_level l = 0 then Inr []
      else Inr (''Time['' @ print_u64 (unat now) @ '']'' @ [char_of (9 :: nat)] @ message @ [char_of (10 :: nat)]))"

text \<open>The class \<^verbatim>\<open>Log\<close>.\<close>

definition LEVEL_STR :: "string list" where
  "LEVEL_STR = [''ERR'', ''WARN'', ''LOG'', ''INFO'', ''DEBUG'']"

definition Log_print_log :: "int \<Rightarrow> int \<Rightarrow> string \<Rightarrow> string result" where
  "Log_print_log this_level level message =
     (if level > this_level then Inr []
      else if level < 0 then Inl OutOfBounds
      else bindE (indexE LEVEL_STR (nat level)) (\<lambda>s. Inr (''['' @ s @ ''] '' @ message @ [char_of (10 :: nat)])))"

section \<open>Lemmas\<close>

lemma set_log_levels: "set log_levels = UNIV"
proof -
  have "k \<in> set log_levels" for k by (cases k) (simp_all add: log_levels_def)
  then show ?thesis by blast
qed

lemma level_value_small: "unat (level_value k) < 19"
  by (cases k) simp_all

text \<open>Which kinds are printed.\<close>

definition shown :: "network_log \<Rightarrow> log_level \<Rightarrow> bool" where
  "shown l k \<longleftrightarrow> bit (nl_level l) (unat (level_value k))"

lemma exp_and: "2 ^ n AND (a :: u64) = 0 \<longleftrightarrow> \<not> bit a n" if "n < 64"
proof -
  have "2 ^ n AND a = (if bit a n then 2 ^ n else 0)"
    by (rule bit_word_eqI) (auto simp: bit_and_iff bit_exp_iff)
  moreover have "(2 :: u64) ^ n \<noteq> 0" using that by simp
  ultimately show ?thesis by simp
qed

lemma vprint_log_shown:
  "vprint_log l now (level_value k) message =
     Inr (if shown l k then ''Time['' @ print_u64 (unat now) @ '']'' @ [char_of (9 :: nat)] @ message @ [char_of (10 :: nat)] else [])"
  using level_value_small [of k] by (simp add: vprint_log_def shown_def exp_and)

text \<open>A log whose level is the combination of two enumerators that its documentation names prints
  neither kind, but the four kinds of packet passing.\<close>

theorem documented_level_prints_packets:
  "filter (shown (NetworkLog_new (Some (level_value SYSCALL_ERROR OR level_value MODULE_ERROR)) d)) log_levels =
     [PACKET_TO_MODULE, PACKET_FROM_MODULE, PACKET_TO_HOST, PACKET_FROM_HOST]"
  by (simp add: shown_def NetworkLog_new_def log_levels_def)

text \<open>A combination of shifted enumerators prints exactly the kinds combined.\<close>

theorem shifted_levels_shown:
  "shown (NetworkLog_new (Some (foldr (\<lambda>k m. push_bit (unat (level_value k)) 1 OR m) ks 0)) d) k \<longleftrightarrow> k \<in> set ks"
proof -
  have inj: "unat (level_value k) = unat (level_value k') \<longleftrightarrow> k = k'" for k k' by (cases k; cases k'; simp)
  have "bit (foldr (\<lambda>k m. push_bit (unat (level_value k)) 1 OR m) ks 0 :: u64) (unat (level_value k)) \<longleftrightarrow> k \<in> set ks"
    using level_value_small [of k] by (induction ks) (auto simp: bit_or_iff bit_exp_iff inj)
  then show ?thesis by (simp add: shown_def NetworkLog_new_def)
qed

end
