(* ===== verification/Spec2Isabelle.thy ===== *)
theory Spec2Isabelle
  imports Time_Util Network_Util Packet_Buffer Routing_Info Event_Trace Double_Real Random_Dist
    Messages Wire Link Hub_Switch Protocols Host Network_World Runnable_Thread
    Topology Routing_Tests Route_Fixture TCP_Application Test_Sockets Test_Transfer Test_Connections
    Test_Runs Echo_Runs Blocked_Runs Route_Packets Network_Log
begin

text \<open>
  \<^bold>\<open>KENSv3\<close> is a network simulator for teaching: a discrete-event scheduler, hosts with a protocol
  stack and blocking system calls on threads of their own, wires, hubs and switches, and the test
  programs that exercise a student's TCP, RIP, PWOSPF or echo implementation on simulated networks.
  Paths below are relative to \<^verbatim>\<open>src/\<close>; \<^verbatim>\<open>N/\<close> stands for \<^verbatim>\<open>src/Networking/\<close>.

  \<^bold>\<open>The parts and how they interact.\<close> \<^verbatim>\<open>System\<close> owns the clock, the queue of messages and the set of
  ready applications. Its loop wakes every ready application, then takes the message with the least
  (due time, UUID), moves the clock there and calls the receiving module, then the sender.
  Modules (\<^verbatim>\<open>Wire\<close>, \<^verbatim>\<open>Hub\<close>, \<^verbatim>\<open>Switch\<close>, \<^verbatim>\<open>Host\<close>) act only in these calls, and only by sending messages.
  An application issues a system call as a message to its host and sleeps; the host gives the call
  to the interface of its name space, and when it is answered the application becomes ready again.
  A packet goes from module to module inside a host, to a wire, to a switch, and to another host, one
  message for each step.

  \<^bold>\<open>Conventions.\<close> Classes are records, class hierarchies datatypes, methods functions from state to
  state; integers have their widths (\<^typ>\<open>u64\<close> and so on), except where the code cannot overflow and
  says so. What stops the program is a value of \<^typ>\<open>err\<close>, and \<open>'a result\<close> is \<^typ>\<open>err\<close> or a value:
  a failed assertion, a null pointer, an access out of bounds, a bad cast or variant.
  Pointers that are shared are keys into a store (\<^verbatim>\<open>TimerContainer\<close> by UUID, modules by
  identifier, applications by address). What the C++ library leaves open is an argument: the
  iteration orders \<open>ord\<close> and \<open>uord\<close> of unordered containers (any enumeration of the set), the
  random engines (any stream of variates in the unit interval), the addresses \<open>new\<close> of objects.

  \<^bold>\<open>Theories.\<close>
  \<^item> \<^verbatim>\<open>Kens_Prelude\<close>: widths, errors, sequencing, shared facts (\<^verbatim>\<open>include/E/E_Common.hpp\<close>).
  \<^item> \<^verbatim>\<open>Event_System\<close>, \<^verbatim>\<open>Event_Trace\<close>: \<^verbatim>\<open>src/E/E_System.cpp\<close>, \<^verbatim>\<open>E_Module.cpp\<close>. \<open>sendMessage\<close>, \<open>cancelMessage\<close>, \<open>run\<close>;
    the invariant \<open>sys_inv\<close>; the labelled step relation \<open>sched\<close>; the locale \<open>system_client\<close> with what the
    scheduler asks of its modules and, in it, order, clock and fate of messages for every run.
  \<^item> \<^verbatim>\<open>Runnable_Thread\<close>: the mutex and condition variable of \<^verbatim>\<open>Runnable\<close>, as interleaved steps of two threads.
  \<^item> \<^verbatim>\<open>Time_Util\<close>, \<^verbatim>\<open>Network_Util\<close>, \<^verbatim>\<open>Double_Real\<close>, \<^verbatim>\<open>Random_Dist\<close>, \<^verbatim>\<open>Network_Log\<close>: time units, checksums and addresses,
    \<^verbatim>\<open>double\<close> arithmetic with its roundings, the distributions, the filters of the log.
  \<^item> \<^verbatim>\<open>Packet_Buffer\<close> (\<^verbatim>\<open>N/E_Packet.cpp\<close>), \<^verbatim>\<open>Messages\<close> (the message classes), \<^verbatim>\<open>Routing_Info\<close> (\<^verbatim>\<open>N/E_RoutingInfo.cpp\<close>).
    The locale \<open>field_store\<close> is the interface of reads and writes the protocols use.
  \<^item> \<^verbatim>\<open>Wire\<close>, \<^verbatim>\<open>Link\<close>, \<^verbatim>\<open>Hub_Switch\<close>: \<^verbatim>\<open>N/E_Wire.cpp\<close>, \<^verbatim>\<open>E_Link.cpp\<close>, \<^verbatim>\<open>E_Hub.cpp\<close>, \<^verbatim>\<open>E_Switch.cpp\<close>. The locale
    \<open>link_forwarder\<close> is what a link asks of its \<^verbatim>\<open>packetArrived\<close>, interpreted on both classes.
  \<^item> \<^verbatim>\<open>Host_Base\<close>, \<^verbatim>\<open>Protocols\<close>, \<^verbatim>\<open>Host\<close>: \<^verbatim>\<open>N/E_Host.cpp\<close>, \<^verbatim>\<open>Ethernet\<close>, \<^verbatim>\<open>IPv4\<close> and the assignment modules as shipped.
  \<^item> \<^verbatim>\<open>Network_World\<close>: \<^verbatim>\<open>N/E_Networking.cpp\<close>; every module of a network, the dispatch of the virtual functions,
    and the interpretation of \<open>system_client\<close> on them.
  \<^item> \<^verbatim>\<open>TCP_Application\<close>: the functions applications call (\<^verbatim>\<open>N/TCP/E_TCPApplication.cpp\<close>).
  \<^item> \<^verbatim>\<open>Topology\<close>, \<^verbatim>\<open>Test_Runs\<close>: the networks of the TCP tests and how a test runs one (\<^verbatim>\<open>app/kens/testenv.hpp\<close>).
  \<^item> \<^verbatim>\<open>Test_Runtime\<close>, \<^verbatim>\<open>Test_Sockets\<close>, \<^verbatim>\<open>Test_Transfer\<close>, \<^verbatim>\<open>Test_Connections\<close>: the applications of the TCP tests
    (\<^verbatim>\<open>app/kens/test*.cpp\<close>).
  \<^item> \<^verbatim>\<open>Routing_Tests\<close>, \<^verbatim>\<open>Route_Fixture\<close>, \<^verbatim>\<open>Route_Packets\<close>: graphs, fixture and packets of \<^verbatim>\<open>app/rip\<close> and \<^verbatim>\<open>app/pwospf\<close>.
  \<^item> \<^verbatim>\<open>App_Tokens\<close>, \<^verbatim>\<open>App_Lifetime\<close>, \<^verbatim>\<open>App_Release\<close>: when runs end. The locale \<open>ending_client\<close> says what that takes, interpreted on the
    network with applications that sleep, block and exit; cleaning up lets the blocked ones go.
  \<^item> \<^verbatim>\<open>Fresh_Networks\<close>, \<^verbatim>\<open>Star_Network\<close>, \<^verbatim>\<open>Blocked_Runs\<close>: networks that have been built and have run nothing, the network of \<^verbatim>\<open>TestEnv3\<close>,
    and the runs of the TCP tests with the assignment as it is shipped.
  \<^item> \<^verbatim>\<open>Echo_Tests\<close>, \<^verbatim>\<open>Echo_Runs\<close>: the echo exercise of \<^verbatim>\<open>app/echo\<close> and its runs.

  \<^bold>\<open>What is shown.\<close>
  \<^item> Scheduling, for every run of every network: order of handling and clock (C1), no message lost (C2),
    links consistent and no packet stranded in a queue (C3), cancellation (C6), and the handshake
    with application threads (C28, C32).
  \<^item> Devices: queues of links (C10, C11, C38), forwarding and corruption by switches (C15, C33), with capture files and hubs in their theories,
    the wire as a first-come first-served server and its delays in \<^verbatim>\<open>double\<close> (C29, C34).
  \<^item> Hosts: the path of a datagram (C12, C13, C30), checksums (C14), processes and system calls
    (C19, C31, C39), packets and their identifiers (C35, C36, C37); and the life of applications through
    scheduler, host and thread together: launched, they finish in time and leave nothing behind (C4), also
    those that block in a call and are let go between the two runs of a test (C5).
  \<^item> Test programs: their networks connect what the tests use (C7, C8, C20, C23, C40), their expected values are
    right (C9, C24), their applications pass on an implementation with the stated behaviour
    (C16, C17, C18, C22), their runs end, reach the expectations and let blocked applications go
    (C25, C26, C27), and a receiver that relies on an end of stream as 0 does not return (C21).

  \<^bold>\<open>Fuel and bounds.\<close> \<open>run\<close> takes a number of passes and gives \<open>None\<close> when it has not ended, since a
  simulation need not end; C1, C2 and C3 speak of every run that returns, and C4, C5 and C25 prove that runs
  return, with a number of passes computed from the calls the applications make. \<open>app_run\<close>
  takes the number of system calls that fail at once, which happen only on a stopped host; 1 is
  enough on a running one, and one more than the calls an application makes before it gives up on a
  stopped one (C5). The probe for a process identifier has 65536 steps, one for each
  identifier, and is proved to end (C31), as is the allocator of packet identifiers with
  2^64 (C36). The transfer applications take a bound for their rounds and for the calls of a
  round, and are proved to finish within it (C16, C22). The distances of the routing graphs are
  the result of a number of relaxation rounds, after which a check that is itself proved sound says
  that they are final. Fixtures of routing tests are admitted up to 65535 edges and those of the echo
  tests up to the 49 servers and 149 clients their assertions allow. Arithmetic on the clock does
  not wrap in runs that stay below 2^64 nanoseconds, which is a hypothesis where it matters.

  \<^bold>\<open>Parameters.\<close> The reference TCP implementation is a binary: what it installs on a host is any function
  with \<open>installs_tcp\<close>, and test applications run over any socket layer with the laws stated beside
  each theorem. The student's own functions are the shipped skeletons or arguments.

  \<^bold>\<open>Not modelled.\<close> Formatting and printing (\<^verbatim>\<open>print_log\<close> after its filter, names of modules, usage texts);
  reading seeds from the process environment; the check in the destructor of \<^verbatim>\<open>System\<close>; the release of
  a packet's identifier by destructors inside handlers (C35 treats histories of construction and
  destruction on their own); the echo program outside the simulator, which only
  forwards its command line; the Wireshark dissectors (Lua) and the build files.
\<close>

end
